(* ===== verification/Prelude.thy ===== *)
theory Prelude
  imports Main "HOL-Library.Word"
begin

text \<open>
  What every component shares: Go strings and byte slices, rendered message texts, Go error
  values with wrapping, the \<open>io.Reader\<close> that supplies random bytes, clocks, and the generic
  lemmas on them.

  A Go \<open>string\<close> is a sequence of bytes, as is \<open>[]byte\<close>. Isabelle's \<open>char\<close> is exactly one
  byte, so both are \<open>char list\<close>.
\<close>

section \<open>Collections of simplification rules\<close>

named_theorems op_defs \<open>definitions of the operations of the components\<close>
named_theorems store_laws \<open>what an operation of a store does to later reads\<close>
named_theorems frame \<open>what an operation leaves unchanged\<close>

section \<open>Strings and rendered texts\<close>

type_synonym bytes = "char list"

abbreviation byte_val :: "char \<Rightarrow> nat" where
  "byte_val c \<equiv> of_char c"

lemma byte_val_less: "byte_val c < 256"
  by simp

lemma char_of_byte_val: "char_of (byte_val c) = c"
  by simp

text \<open>
  A text built by \<open>fmt.Errorf\<close> or \<open>fmt.Sprintf\<close>. The verbs the source uses are kept
  symbolic where their rendering is a library table: \<open>%q\<close> (\<open>strconv.Quote\<close>) of a string
  and \<open>%d\<close> of an integer. Every other piece is literal text, \<open>%s\<close> and \<open>%v\<close> included.
\<close>

datatype piece = Lit string | Quoted string | Dec int

type_synonym rendered = "piece list"

section \<open>Errors\<close>

text \<open>
  \<open>pkg/oauth2/types.go\<close> and \<open>sample-server/internal/certificate/store.go\<close> declare their
  sentinel errors with \<open>errors.New\<close>; \<open>errors.Is\<close> compares them by identity, so each one is
  a constructor.
\<close>

datatype oauth_sentinel =
    ErrInvalidRequest | ErrInvalidClient | ErrInvalidGrant | ErrInvalidTarget
  | ErrUnauthorizedClient | ErrTokenNotFound | ErrTokenExpired | ErrTokenRevoked
  | ErrResourceMismatch | ErrScopeMismatch

datatype cert_sentinel = ErrCertificateNotFound | ErrChallengeNotFound

datatype sentinel = OAuthErr oauth_sentinel | CertErr cert_sentinel

fun oauth_msg :: "oauth_sentinel \<Rightarrow> string" where
  "oauth_msg ErrInvalidRequest = ''invalid_request''"
| "oauth_msg ErrInvalidClient = ''invalid_client''"
| "oauth_msg ErrInvalidGrant = ''invalid_grant''"
| "oauth_msg ErrInvalidTarget = ''invalid_target''"
| "oauth_msg ErrUnauthorizedClient = ''unauthorized_client''"
| "oauth_msg ErrTokenNotFound = ''token_not_found''"
| "oauth_msg ErrTokenExpired = ''token_expired''"
| "oauth_msg ErrTokenRevoked = ''token_revoked''"
| "oauth_msg ErrResourceMismatch = ''resource_mismatch''"
| "oauth_msg ErrScopeMismatch = ''scope_mismatch''"

fun cert_msg :: "cert_sentinel \<Rightarrow> string" where
  "cert_msg ErrCertificateNotFound = ''certificate not found''"
| "cert_msg ErrChallengeNotFound = ''challenge not found''"

text \<open>
  A Go error value: a sentinel, a fresh \<open>errors.New\<close> or library error (never the target of
  an \<open>errors.Is\<close> in this program), or \<open>fmt.Errorf\<close> with one \<open>%w\<close>: the text before the
  verb, the wrapped error, the text after it.
\<close>

datatype go_error =
    Sentinel sentinel
  | NewError rendered
  | Wrapf rendered go_error rendered

abbreviation oauth_err :: "oauth_sentinel \<Rightarrow> go_error" where
  "oauth_err e \<equiv> Sentinel (OAuthErr e)"

abbreviation cert_err :: "cert_sentinel \<Rightarrow> go_error" where
  "cert_err e \<equiv> Sentinel (CertErr e)"

fun error_text :: "go_error \<Rightarrow> rendered" where
  "error_text (Sentinel (OAuthErr e)) = [Lit (oauth_msg e)]"
| "error_text (Sentinel (CertErr e)) = [Lit (cert_msg e)]"
| "error_text (NewError t) = t"
| "error_text (Wrapf before e after) = before @ error_text e @ after"

fun errors_Is :: "go_error \<Rightarrow> sentinel \<Rightarrow> bool" where
  "errors_Is (Sentinel e) target = (e = target)"
| "errors_Is (NewError t) target = False"
| "errors_Is (Wrapf before e after) target = errors_Is e target"

text \<open>An error wraps at most one sentinel, so \<open>errors.Is\<close> holds of at most one of them.\<close>

lemma errors_Is_unique: "errors_Is e s \<Longrightarrow> errors_Is e t \<Longrightarrow> s = t"
  by (induction e) auto

lemma errors_Is_WrapfD: "errors_Is (Wrapf a e b) s \<Longrightarrow> errors_Is e s"
  by simp

section \<open>Random bytes: \<open>io.Reader\<close> and \<open>io.ReadFull\<close>\<close>

text \<open>
  A reader is what its next \<open>Read\<close> calls deliver: a chunk of bytes (handed out as far as
  the caller's buffer allows) or an error. A list that runs out reads as \<open>io.EOF\<close>.
\<close>

datatype read_event = Data bytes | ReadErr go_error

type_synonym reader = "read_event list"

definition io_EOF :: go_error where
  "io_EOF = NewError [Lit ''EOF'']"

definition io_ErrUnexpectedEOF :: go_error where
  "io_ErrUnexpectedEOF = NewError [Lit ''unexpected EOF'']"

definition read_fail :: "bytes \<Rightarrow> go_error \<Rightarrow> go_error" where
  "read_fail got e = (if e = io_EOF \<and> got \<noteq> [] then io_ErrUnexpectedEOF else e)"

text \<open>
  \<open>ReadFull got n r\<close>: \<open>n\<close> bytes are still wanted, \<open>got\<close> are already in the buffer.
\<close>

fun ReadFull :: "bytes \<Rightarrow> nat \<Rightarrow> reader \<Rightarrow> (go_error + bytes) \<times> reader" where
  "ReadFull got 0 r = (Inr got, r)"
| "ReadFull got (Suc n) [] = (Inl (read_fail got io_EOF), [])"
| "ReadFull got (Suc n) (ReadErr e # r) = (Inl (read_fail got e), r)"
| "ReadFull got (Suc n) (Data bs # r) =
     (if length bs \<le> Suc n then ReadFull (got @ bs) (Suc n - length bs) r
      else (Inr (got @ take (Suc n) bs), Data (drop (Suc n) bs) # r))"

text \<open>A successful \<open>io.ReadFull\<close> has filled the whole buffer.\<close>

lemma ReadFull_length:
  "ReadFull got n r = (Inr bs, r') \<Longrightarrow> length bs = length got + n"
  by (induction got n r arbitrary: bs rule: ReadFull.induct) (auto split: if_splits)

section \<open>Clocks\<close>

text \<open>
  A clock (\<open>time.Now\<close>, or the service's \<open>nowFunc\<close>) is the sequence of its readings and the
  number of readings taken so far. Readings are nanoseconds since the Unix epoch.
\<close>

record clock =
  reading :: "nat \<Rightarrow> int"
  readings_taken :: nat

definition now :: "clock \<Rightarrow> int \<times> clock" where
  "now c = (reading c (readings_taken c), c\<lparr>readings_taken := Suc (readings_taken c)\<rparr>)"

definition fixed_clock :: "int \<Rightarrow> clock" where
  "fixed_clock t = \<lparr>reading = (\<lambda>_. t), readings_taken = 0\<rparr>"

abbreviation next_reading :: "clock \<Rightarrow> int" where
  "next_reading c \<equiv> reading c (readings_taken c)"

lemma now_fst [simp]: "fst (now c) = next_reading c"
  by (simp add: now_def)

lemma now_snd_reading [simp]: "reading (snd (now c)) = reading c"
  by (simp add: now_def)

end
