(* ===== verification/GoStrings.thy ===== *)
theory GoStrings
  imports Prelude
begin

text \<open>
  The functions of Go's \<open>strings\<close> package that the source calls: \<open>HasPrefix\<close>,
  \<open>Contains\<close>, \<open>Cut\<close>, \<open>Split\<close>, \<open>SplitN\<close>, \<open>TrimRight\<close>, \<open>TrimSpace\<close>,
  \<open>Fields\<close> and \<open>EqualFold\<close>. White space is Unicode's, read from the UTF-8 bytes:
  the six ASCII characters, U+0085, U+00A0, U+1680, U+2000 to U+200A, U+2028, U+2029,
  U+202F, U+205F and U+3000. The first byte of such an encoding is never a continuation
  byte, so looking for an encoding at each byte position finds exactly the runes that
  decoding from the left finds.
\<close>

section \<open>Prefixes, cutting and splitting\<close>

definition HasPrefix :: "string \<Rightarrow> string \<Rightarrow> bool" where
  "HasPrefix s p \<longleftrightarrow> take (length p) s = p"

fun Contains :: "string \<Rightarrow> string \<Rightarrow> bool" where
  "Contains [] sub = (sub = [])"
| "Contains (c # s) sub = (HasPrefix (c # s) sub \<or> Contains s sub)"

text \<open>\<open>strings.Cut\<close> with a one-byte separator: before, after, found.\<close>

definition Cut :: "string \<Rightarrow> char \<Rightarrow> string \<times> string \<times> bool" where
  "Cut s sep =
     (let before = takeWhile (\<lambda>c. c \<noteq> sep) s
      in if length before < length s then (before, drop (Suc (length before)) s, True)
         else (s, [], False))"

text \<open>\<open>strings.SplitN(s, sep, 2)\<close>: one part when the separator is absent, else two.\<close>

definition SplitN2 :: "string \<Rightarrow> char \<Rightarrow> string list" where
  "SplitN2 s sep =
     (case Cut s sep of (before, after, found) \<Rightarrow> if found then [before, after] else [s])"

fun Split :: "string \<Rightarrow> char \<Rightarrow> string list" where
  "Split [] sep = [[]]"
| "Split (c # s) sep =
     (if c = sep then [] # Split s sep
      else case Split s sep of p # ps \<Rightarrow> (c # p) # ps | [] \<Rightarrow> [[c]])"

text \<open>\<open>strings.TrimRight\<close> with a cutset of one byte.\<close>

definition TrimRight :: "string \<Rightarrow> char \<Rightarrow> string" where
  "TrimRight s c = rev (dropWhile (\<lambda>d. d = c) (rev s))"

definition LastIndex :: "string \<Rightarrow> char \<Rightarrow> nat option" where
  "LastIndex s c =
     (let k = length (takeWhile (\<lambda>d. d \<noteq> c) (rev s))
      in if k < length s then Some (length s - Suc k) else None)"

lemma HasPrefix_append [simp]: "HasPrefix (p @ s) p"
  by (simp add: HasPrefix_def)

lemma HasPrefix_iff: "HasPrefix s p \<longleftrightarrow> (\<exists>r. s = p @ r)"
  by (metis HasPrefix_def HasPrefix_append append_take_drop_id)

lemma Cut_found: "sep \<notin> set a \<Longrightarrow> Cut (a @ sep # b) sep = (a, b, True)"
  by (simp add: Cut_def Let_def takeWhile_append)

lemma Cut_absent: "sep \<notin> set s \<Longrightarrow> Cut s sep = (s, [], False)"
proof -
  assume "sep \<notin> set s"
  then have "takeWhile (\<lambda>c. c \<noteq> sep) s = s" by (auto simp: takeWhile_eq_all_conv)
  then show ?thesis by (simp add: Cut_def Let_def del: takeWhile_eq_all_conv)
qed

lemma Cut_cases:
  obtains (absent) "sep \<notin> set s" "Cut s sep = (s, [], False)"
  | (found) a b where "s = a @ sep # b" "sep \<notin> set a" "Cut s sep = (a, b, True)"
proof (cases "sep \<in> set s")
  case True
  then obtain a b where "s = a @ sep # b" "sep \<notin> set a" by (metis split_list_first)
  then show ?thesis using found Cut_found by metis
next
  case False
  then show ?thesis using absent Cut_absent by metis
qed

lemma SplitN2_found: "sep \<notin> set a \<Longrightarrow> SplitN2 (a @ sep # b) sep = [a, b]"
  by (simp add: SplitN2_def Cut_found)

lemma Split_not_Nil: "Split s sep \<noteq> []"
  by (induction s) (auto split: list.splits)

lemma Split_no_sep: "p \<in> set (Split s sep) \<Longrightarrow> sep \<notin> set p"
  by (induction s arbitrary: p) (auto split: if_splits list.splits)

lemma Split_append: "sep \<notin> set a \<Longrightarrow> Split (a @ sep # b) sep = a # Split b sep"
  by (induction a) auto

lemma Split_absent: "sep \<notin> set a \<Longrightarrow> Split a sep = [a]"
  by (induction a) auto

lemma TrimRight_not_suffix: "TrimRight s c = [] \<or> last (TrimRight s c) \<noteq> c"
proof (cases "dropWhile (\<lambda>d. d = c) (rev s)")
  case Nil
  then show ?thesis by (simp add: TrimRight_def)
next
  case (Cons d ds)
  then have "d \<noteq> c" using hd_dropWhile [of "\<lambda>d. d = c" "rev s"] by auto
  with Cons show ?thesis by (simp add: TrimRight_def)
qed

lemma TrimRight_decomp: "\<exists>n. s = TrimRight s c @ replicate n c"
proof -
  have "set (takeWhile (\<lambda>d. d = c) (rev s)) \<subseteq> {c}" by (auto dest: set_takeWhileD)
  then have "takeWhile (\<lambda>d. d = c) (rev s) = replicate (length (takeWhile (\<lambda>d. d = c) (rev s))) c"
    by (metis replicate_length_same singletonD subsetD)
  then obtain n where n: "takeWhile (\<lambda>d. d = c) (rev s) = replicate n c" by blast
  have "rev s = replicate n c @ dropWhile (\<lambda>d. d = c) (rev s)"
    by (metis n takeWhile_dropWhile_id)
  then have "s = TrimRight s c @ replicate n c"
    unfolding TrimRight_def by (metis rev_append rev_replicate rev_rev_ident)
  then show ?thesis by blast
qed

lemma TrimRight_idem: "TrimRight (TrimRight s c) c = TrimRight s c"
  by (simp add: TrimRight_def)

section \<open>White space\<close>

definition ascii_space :: "char \<Rightarrow> bool" where
  "ascii_space c \<longleftrightarrow> (let b = byte_val c in (9 \<le> b \<and> b \<le> 13) \<or> b = 32)"

definition space2 :: "char \<Rightarrow> char \<Rightarrow> bool" where
  "space2 c d \<longleftrightarrow> byte_val c = 0xC2 \<and> (byte_val d = 0x85 \<or> byte_val d = 0xA0)"

definition space3 :: "char \<Rightarrow> char \<Rightarrow> char \<Rightarrow> bool" where
  "space3 c d e \<longleftrightarrow>
     (let x = byte_val c; y = byte_val d; z = byte_val e
      in (x = 0xE1 \<and> y = 0x9A \<and> z = 0x80)
       \<or> (x = 0xE2 \<and> y = 0x80 \<and> (0x80 \<le> z \<and> z \<le> 0x8A \<or> z = 0xA8 \<or> z = 0xA9 \<or> z = 0xAF))
       \<or> (x = 0xE2 \<and> y = 0x81 \<and> z = 0x9F)
       \<or> (x = 0xE3 \<and> y = 0x80 \<and> z = 0x80))"

text \<open>What is left after one leading white-space rune, if there is one.\<close>

fun space_rest :: "string \<Rightarrow> string option" where
  "space_rest [] = None"
| "space_rest (c # s) =
     (if ascii_space c then Some s
      else case s of
        [] \<Rightarrow> None
      | d # s' \<Rightarrow>
          (if space2 c d then Some s'
           else case s' of
             [] \<Rightarrow> None
           | e # s'' \<Rightarrow> (if space3 c d e then Some s'' else None)))"

text \<open>The same at the end, on the reversed string.\<close>

fun space_rest_rev :: "string \<Rightarrow> string option" where
  "space_rest_rev [] = None"
| "space_rest_rev (e # s) =
     (if ascii_space e then Some s
      else case s of
        [] \<Rightarrow> None
      | d # s' \<Rightarrow>
          (if space2 d e then Some s'
           else case s' of
             [] \<Rightarrow> None
           | c # s'' \<Rightarrow> (if space3 c d e then Some s'' else None)))"

lemma space_rest_shorter: "space_rest s = Some r \<Longrightarrow> length r < length s"
  by (cases s) (auto split: if_splits list.splits)

lemma space_rest_rev_shorter: "space_rest_rev s = Some r \<Longrightarrow> length r < length s"
  by (cases s) (auto split: if_splits list.splits)

function TrimLeftSpace :: "string \<Rightarrow> string" where
  "TrimLeftSpace s = (case space_rest s of None \<Rightarrow> s | Some r \<Rightarrow> TrimLeftSpace r)"
  by pat_completeness auto
termination
  by (relation "measure length") (auto dest: space_rest_shorter)

function TrimRightSpace_rev :: "string \<Rightarrow> string" where
  "TrimRightSpace_rev s =
     (case space_rest_rev s of None \<Rightarrow> s | Some r \<Rightarrow> TrimRightSpace_rev r)"
  by pat_completeness auto
termination
  by (relation "measure length") (auto dest: space_rest_rev_shorter)

declare TrimLeftSpace.simps [simp del]
declare TrimRightSpace_rev.simps [simp del]

definition TrimSpace :: "string \<Rightarrow> string" where
  "TrimSpace s = rev (TrimRightSpace_rev (rev (TrimLeftSpace s)))"

text \<open>\<open>strings.Fields\<close>: the maximal runs of bytes between white space, none of them empty.\<close>

definition flush :: "string \<Rightarrow> string list" where
  "flush cur = (if cur = [] then [] else [rev cur])"

function fields_from :: "string \<Rightarrow> string \<Rightarrow> string list" where
  "fields_from cur [] = flush cur"
| "fields_from cur (c # s) =
     (case space_rest (c # s) of
        Some r \<Rightarrow> flush cur @ fields_from [] r
      | None \<Rightarrow> fields_from (c # cur) s)"
  by pat_completeness auto
termination
  by (relation "measure (\<lambda>(cur, s). length s)") (auto dest: space_rest_shorter simp del: space_rest.simps)

definition Fields :: "string \<Rightarrow> string list" where
  "Fields s = fields_from [] s"

lemma fields_from_nonempty: "[] \<notin> set (fields_from cur s)"
  by (induction cur s rule: fields_from.induct)
    (auto simp: flush_def simp del: space_rest.simps split: option.splits)

lemma Fields_nonempty: "[] \<notin> set (Fields s)"
  by (simp add: Fields_def fields_from_nonempty)

lemma TrimLeftSpace_no_space: "space_rest (TrimLeftSpace s) = None"
  by (induction s rule: TrimLeftSpace.induct) (subst TrimLeftSpace.simps, simp split: option.splits)

lemma TrimRightSpace_rev_no_space: "space_rest_rev (TrimRightSpace_rev s) = None"
  by (induction s rule: TrimRightSpace_rev.induct)
    (subst TrimRightSpace_rev.simps, simp split: option.splits)

lemma TrimSpace_no_trailing_space: "space_rest_rev (rev (TrimSpace s)) = None"
  by (simp add: TrimSpace_def TrimRightSpace_rev_no_space)

section \<open>Strings of graphic ASCII characters\<close>

text \<open>
  Identifiers, tokens and the schemes of this program consist of printable ASCII characters
  other than the space; no white-space function takes such a string apart.
\<close>

definition graphic :: "char \<Rightarrow> bool" where
  "graphic c \<longleftrightarrow> 0x21 \<le> byte_val c \<and> byte_val c \<le> 0x7E"

abbreviation graphics :: "string \<Rightarrow> bool" where
  "graphics s \<equiv> list_all graphic s"

lemma graphic_not_spaces:
  assumes "graphic c"
  shows "\<not> ascii_space c" "\<not> space2 c d" "\<not> space2 d c" "\<not> space3 c d e" "\<not> space3 d e c"
  using assms by (auto simp: graphic_def ascii_space_def space2_def space3_def Let_def)

lemma space_rest_graphic [simp]: "graphic c \<Longrightarrow> space_rest (c # s) = None"
  by (auto simp: graphic_not_spaces split: list.splits)

lemma space_rest_rev_graphic [simp]: "graphic c \<Longrightarrow> space_rest_rev (c # s) = None"
  by (auto simp: graphic_not_spaces split: list.splits)

lemma TrimLeftSpace_graphic: "s = [] \<or> graphic (hd s) \<Longrightarrow> TrimLeftSpace s = s"
  by (subst TrimLeftSpace.simps) (cases s; auto simp del: space_rest.simps(2))

lemma TrimRightSpace_rev_graphic: "s = [] \<or> graphic (hd s) \<Longrightarrow> TrimRightSpace_rev s = s"
  by (subst TrimRightSpace_rev.simps) (cases s; auto simp del: space_rest_rev.simps(2))

lemma TrimSpace_graphic: "graphics s \<Longrightarrow> TrimSpace s = s"
  by (cases "s = []")
    (auto simp: TrimSpace_def TrimLeftSpace_graphic TrimRightSpace_rev_graphic list_all_iff hd_rev)

lemma fields_from_graphics:
  "graphics w \<Longrightarrow> fields_from cur (w @ s) = fields_from (rev w @ cur) s"
  by (induction w arbitrary: cur) (auto simp del: space_rest.simps(2))

lemma space_not_graphic [simp]: "\<not> graphic (CHR '' '')"
  by (simp add: graphic_def)

lemma Fields_word: "graphics w \<Longrightarrow> w \<noteq> [] \<Longrightarrow> Fields w = [w]"
  using fields_from_graphics [of w "[]" "[]"] by (simp add: Fields_def flush_def)

lemma Fields_word_space:
  "graphics w \<Longrightarrow> w \<noteq> [] \<Longrightarrow> Fields (w @ CHR '' '' # s) = w # Fields s"
  by (simp add: Fields_def fields_from_graphics flush_def ascii_space_def Let_def)

text \<open>Joining words with single spaces and splitting them again is the identity.\<close>

fun join_spaces :: "string list \<Rightarrow> string" where
  "join_spaces [] = []"
| "join_spaces [w] = w"
| "join_spaces (w # v # ws) = w @ CHR '' '' # join_spaces (v # ws)"

lemma Fields_join_spaces:
  "list_all (\<lambda>w. graphics w \<and> w \<noteq> []) ws \<Longrightarrow> Fields (join_spaces ws) = ws"
  by (induction ws rule: join_spaces.induct) (auto simp: Fields_word Fields_word_space, simp add: Fields_def flush_def)

section \<open>Case-insensitive comparison\<close>

text \<open>
  \<open>strings.EqualFold(s, t)\<close> for an ASCII \<open>t\<close> without the letters k and s (whose Unicode
  folding orbits leave ASCII): equality up to ASCII case. The source compares with
  \<open>"Bearer"\<close> only; \<open>net/http\<close> compares with \<open>"Basic "\<close> by ASCII folding.
\<close>

definition lower_byte :: "char \<Rightarrow> char" where
  "lower_byte c =
     (let b = byte_val c in if 65 \<le> b \<and> b \<le> 90 then char_of (b + 32) else c)"

definition ToLower :: "string \<Rightarrow> string" where
  "ToLower s = map lower_byte s"

definition EqualFold :: "string \<Rightarrow> string \<Rightarrow> bool" where
  "EqualFold s t \<longleftrightarrow> ToLower s = ToLower t"

lemma EqualFold_refl [simp]: "EqualFold s s"
  by (simp add: EqualFold_def)

lemma EqualFold_sym: "EqualFold s t \<Longrightarrow> EqualFold t s"
  by (simp add: EqualFold_def)

lemma EqualFold_length: "EqualFold s t \<Longrightarrow> length s = length t"
  unfolding EqualFold_def ToLower_def using map_eq_imp_length_eq by blast

end
