(* ===== verification/GoEncoding.thy ===== *)
theory GoEncoding
  imports GoStrings
begin

text \<open>
  \<open>encoding/hex\<close> and \<open>encoding/base64\<close> as the source uses them: \<open>hex.EncodeToString\<close>,
  \<open>base64.RawURLEncoding.EncodeToString\<close> and, behind \<open>SetBasicAuth\<close> and
  \<open>BasicAuth\<close> of \<open>net/http\<close>, \<open>base64.StdEncoding\<close>. The round trips below are what makes
  random secrets and tokens keep their entropy: different bytes give different strings.
\<close>

section \<open>Hexadecimal\<close>

definition hex_digit :: "nat \<Rightarrow> char" where
  "hex_digit n = char_of (if n < 10 then 48 + n else 87 + n)"

fun hex_encode :: "bytes \<Rightarrow> string" where
  "hex_encode [] = []"
| "hex_encode (b # bs) =
     hex_digit (byte_val b div 16) # hex_digit (byte_val b mod 16) # hex_encode bs"

definition is_hex_digit :: "char \<Rightarrow> bool" where
  "is_hex_digit c \<longleftrightarrow>
     (let v = byte_val c in 48 \<le> v \<and> v \<le> 57 \<or> 97 \<le> v \<and> v \<le> 102)"

definition hex_value :: "char \<Rightarrow> nat" where
  "hex_value c = (let v = byte_val c in if v \<le> 57 then v - 48 else v - 87)"

fun hex_decode :: "string \<Rightarrow> bytes" where
  "hex_decode (c # d # s) = char_of (16 * hex_value c + hex_value d) # hex_decode s"
| "hex_decode s = []"

lemma byte_val_hex_digit: "n < 16 \<Longrightarrow> byte_val (hex_digit n) = (if n < 10 then 48 + n else 87 + n)"
  by (simp add: hex_digit_def)

lemma hex_value_digit: "n < 16 \<Longrightarrow> hex_value (hex_digit n) = n"
  by (simp add: hex_value_def byte_val_hex_digit)

lemma is_hex_digit_digit: "n < 16 \<Longrightarrow> is_hex_digit (hex_digit n)"
  by (simp add: is_hex_digit_def byte_val_hex_digit)

lemma nibbles:
  fixes b :: nat
  assumes "b < 256"
  shows "b div 16 < 16" "b mod 16 < 16" "16 * (b div 16) + b mod 16 = b"
  using assms by (auto simp: less_mult_imp_div_less)

lemma hex_decode_encode: "hex_decode (hex_encode bs) = bs"
proof (induction bs)
  case Nil
  then show ?case by simp
next
  case (Cons b bs)
  note n = nibbles [OF byte_val_less [of b]]
  have "char_of (16 * hex_value (hex_digit (byte_val b div 16))
      + hex_value (hex_digit (byte_val b mod 16))) = b"
    by (simp only: hex_value_digit [OF n(1)] hex_value_digit [OF n(2)] n(3) char_of_byte_val)
  with Cons.IH show ?case by simp
qed

lemma hex_encode_inject: "hex_encode xs = hex_encode ys \<longleftrightarrow> xs = ys"
  by (metis hex_decode_encode)

lemma length_hex_encode: "length (hex_encode bs) = 2 * length bs"
  by (induction bs) auto

lemma hex_encode_digits: "list_all is_hex_digit (hex_encode bs)"
  by (induction bs) (auto intro: is_hex_digit_digit nibbles [OF byte_val_less])

lemma is_hex_digit_graphic: "is_hex_digit c \<Longrightarrow> graphic c"
  by (auto simp: is_hex_digit_def graphic_def Let_def)

lemma hex_encode_graphic: "graphics (hex_encode bs)"
  using hex_encode_digits [of bs] by (auto simp: list_all_iff is_hex_digit_graphic)

lemma hex_encode_no_colon: "CHR '':'' \<notin> set (hex_encode bs)"
  using hex_encode_digits [of bs] by (auto simp: list_all_iff is_hex_digit_def Let_def)

section \<open>Base64\<close>

text \<open>
  The two alphabets differ in the last two symbols. \<open>RawURLEncoding\<close> has no padding,
  \<open>StdEncoding\<close> pads with \<open>=\<close>.
\<close>

datatype alphabet = URL_alphabet | Std_alphabet

fun sym62 :: "alphabet \<Rightarrow> nat" where
  "sym62 URL_alphabet = 45"
| "sym62 Std_alphabet = 43"

fun sym63 :: "alphabet \<Rightarrow> nat" where
  "sym63 URL_alphabet = 95"
| "sym63 Std_alphabet = 47"

definition b64_symbol :: "alphabet \<Rightarrow> nat \<Rightarrow> char" where
  "b64_symbol a n = char_of
     (if n < 26 then 65 + n else if n < 52 then 71 + n else if n < 62 then n - 4
      else if n = 62 then sym62 a else sym63 a)"

definition b64_value :: "alphabet \<Rightarrow> char \<Rightarrow> nat option" where
  "b64_value a c =
     (let v = byte_val c in
      if 65 \<le> v \<and> v \<le> 90 then Some (v - 65)
      else if 97 \<le> v \<and> v \<le> 122 then Some (v - 71)
      else if 48 \<le> v \<and> v \<le> 57 then Some (v + 4)
      else if v = sym62 a then Some 62
      else if v = sym63 a then Some 63 else None)"

definition pad_char :: char where
  "pad_char = CHR ''=''"

text \<open>The encoder works on groups of three bytes; the last group may have one or two.\<close>

fun b64_encode :: "alphabet \<Rightarrow> bool \<Rightarrow> bytes \<Rightarrow> string" where
  "b64_encode a p (x # y # z # bs) =
     (let v = (byte_val x * 256 + byte_val y) * 256 + byte_val z
      in b64_symbol a (v div 262144) # b64_symbol a (v div 4096 mod 64)
         # b64_symbol a (v div 64 mod 64) # b64_symbol a (v mod 64) # b64_encode a p bs)"
| "b64_encode a p [x, y] =
     (let v = (byte_val x * 256 + byte_val y) * 4
      in b64_symbol a (v div 4096) # b64_symbol a (v div 64 mod 64) # b64_symbol a (v mod 64)
         # (if p then [pad_char] else []))"
| "b64_encode a p [x] =
     (let v = byte_val x * 16
      in b64_symbol a (v div 64) # b64_symbol a (v mod 64)
         # (if p then [pad_char, pad_char] else []))"
| "b64_encode a p [] = []"

definition RawURLEncoding :: "bytes \<Rightarrow> string" where
  "RawURLEncoding bs = b64_encode URL_alphabet False bs"

definition StdEncoding :: "bytes \<Rightarrow> string" where
  "StdEncoding bs = b64_encode Std_alphabet True bs"

text \<open>
  \<open>StdEncoding.DecodeString\<close>: carriage returns and line feeds are skipped, every group has
  four symbols, padding may only end the last one, and the unused low bits of a padded group
  are not checked (the encoding is not \<open>Strict\<close>).
\<close>

definition b64_group :: "nat \<Rightarrow> nat \<Rightarrow> nat \<Rightarrow> nat \<Rightarrow> bytes" where
  "b64_group i j k l =
     (let v = ((i * 64 + j) * 64 + k) * 64 + l
      in [char_of (v div 65536), char_of (v div 256 mod 256), char_of (v mod 256)])"

fun b64_decode_groups :: "alphabet \<Rightarrow> string \<Rightarrow> bytes option" where
  "b64_decode_groups a [] = Some []"
| "b64_decode_groups a (c1 # c2 # c3 # c4 # s) =
     (case (b64_value a c1, b64_value a c2) of
        (Some i, Some j) \<Rightarrow>
          (case b64_value a c3 of
             Some k \<Rightarrow>
               (case b64_value a c4 of
                  Some l \<Rightarrow> map_option (\<lambda>r. b64_group i j k l @ r) (b64_decode_groups a s)
                | None \<Rightarrow> if c4 = pad_char \<and> s = [] then Some (take 2 (b64_group i j k 0)) else None)
           | None \<Rightarrow>
               if c3 = pad_char \<and> c4 = pad_char \<and> s = []
               then Some (take 1 (b64_group i j 0 0)) else None)
      | _ \<Rightarrow> None)"
| "b64_decode_groups a s = None"

definition StdDecode :: "string \<Rightarrow> bytes option" where
  "StdDecode s =
     b64_decode_groups Std_alphabet (filter (\<lambda>c. byte_val c \<noteq> 10 \<and> byte_val c \<noteq> 13) s)"

lemma b64_value_symbol: "n < 64 \<Longrightarrow> b64_value a (b64_symbol a n) = Some n"
  by (cases a) (auto simp: b64_value_def b64_symbol_def Let_def)

lemma b64_symbol_not_pad: "n < 64 \<Longrightarrow> b64_symbol a n \<noteq> pad_char"
proof
  assume n: "n < 64" and eq: "b64_symbol a n = pad_char"
  have "b64_value a pad_char = None"
    by (cases a) (simp_all add: b64_value_def pad_char_def)
  with b64_value_symbol [OF n, of a] eq show False by simp
qed

lemma pad_char_value [simp]: "b64_value a pad_char = None"
  by (cases a) (simp_all add: b64_value_def pad_char_def)

text \<open>The arithmetic of one group: bytes are base-256 digits, symbols base-64 digits.\<close>

lemma digit256:
  fixes A z :: nat
  assumes "z < 256"
  shows "(A * 256 + z) div 256 = A" and "(A * 256 + z) mod 256 = z"
  using assms by simp_all

lemma div_4096: "(v::nat) div 4096 = v div 64 div 64"
  by (simp add: div_mult2_eq [symmetric])

lemma div_262144: "(v::nat) div 262144 = v div 64 div 64 div 64"
  by (simp add: div_mult2_eq [symmetric])

lemma div_65536: "(v::nat) div 65536 = v div 256 div 256"
  by (simp add: div_mult2_eq [symmetric])

lemma six_bits_join:
  "((v div 262144 * 64 + v div 4096 mod 64) * 64 + v div 64 mod 64) * 64 + v mod 64 = (v::nat)"
  by (simp only: div_262144 div_4096 div_mult_mod_eq)

lemma six_bits_join3: "(v div 4096 * 64 + v div 64 mod 64) * 64 + v mod 64 = (v::nat)"
  by (simp only: div_4096 div_mult_mod_eq)

definition bytes24 :: "nat \<Rightarrow> bytes" where
  "bytes24 v = [char_of (v div 65536), char_of (v div 256 mod 256), char_of (v mod 256)]"

lemma b64_group_join:
  "b64_group (v div 262144) (v div 4096 mod 64) (v div 64 mod 64) (v mod 64) = bytes24 v"
  by (simp only: b64_group_def bytes24_def Let_def six_bits_join)

lemma b64_group_join3:
  "b64_group (v div 4096) (v div 64 mod 64) (v mod 64) 0 = bytes24 (v * 64)"
  by (simp only: b64_group_def bytes24_def Let_def six_bits_join3 add_0_right)

lemma b64_group_join2: "b64_group (v div 64) (v mod 64) 0 0 = bytes24 (v * 64 * 64)"
  by (simp only: b64_group_def bytes24_def Let_def div_mult_mod_eq add_0_right)

lemma bytes24_join:
  "bytes24 ((byte_val x * 256 + byte_val y) * 256 + byte_val z) = [x, y, z]"
  by (simp only: bytes24_def div_65536 digit256 [OF byte_val_less] char_of_byte_val)

lemma bytes24_join2: "bytes24 ((byte_val x * 256 + byte_val y) * 4 * 64) = [x, y, CHR 0x00]"
proof -
  have "(byte_val x * 256 + byte_val y) * 4 * 64 = (byte_val x * 256 + byte_val y) * 256 + byte_val (CHR 0x00)"
    by simp
  then show ?thesis by (simp only: bytes24_join)
qed

lemma bytes24_join1: "bytes24 (byte_val x * 16 * 64 * 64) = [x, CHR 0x00, CHR 0x00]"
proof -
  have "byte_val x * 16 * 64 * 64
      = (byte_val x * 256 + byte_val (CHR 0x00)) * 256 + byte_val (CHR 0x00)"
    by simp
  then show ?thesis by (simp only: bytes24_join)
qed

text \<open>The bounds of the leading six bits.\<close>

lemma top6_bounds:
  fixes x y z :: nat
  shows "x < 256 \<Longrightarrow> y < 256 \<Longrightarrow> z < 256 \<Longrightarrow> (x * 256 + y) * 256 + z < 64 * 262144"
    and "x < 256 \<Longrightarrow> y < 256 \<Longrightarrow> (x * 256 + y) * 4 < 64 * 4096"
    and "x < 256 \<Longrightarrow> x * 16 < 64 * 64"
  by auto

lemmas top6_of_3 = top6_bounds(1) [OF byte_val_less byte_val_less byte_val_less]
lemmas top6_of_2 = top6_bounds(2) [OF byte_val_less byte_val_less]
lemmas top6_of_1 = top6_bounds(3) [OF byte_val_less]

text \<open>Decoding undoes encoding one group at a time.\<close>

lemma decode_group3:
  "v < 64 * 262144 \<Longrightarrow>
   b64_decode_groups a (b64_symbol a (v div 262144) # b64_symbol a (v div 4096 mod 64)
     # b64_symbol a (v div 64 mod 64) # b64_symbol a (v mod 64) # s)
   = map_option (\<lambda>r. bytes24 v @ r) (b64_decode_groups a s)"
  by (simp add: b64_value_symbol less_mult_imp_div_less b64_group_join)

lemma decode_group2:
  "v < 64 * 4096 \<Longrightarrow>
   b64_decode_groups a [b64_symbol a (v div 4096), b64_symbol a (v div 64 mod 64),
     b64_symbol a (v mod 64), pad_char] = Some (take 2 (bytes24 (v * 64)))"
  by (simp add: b64_value_symbol less_mult_imp_div_less b64_group_join3)

lemma decode_group1:
  "v < 64 * 64 \<Longrightarrow>
   b64_decode_groups a [b64_symbol a (v div 64), b64_symbol a (v mod 64), pad_char, pad_char]
   = Some (take 1 (bytes24 (v * 64 * 64)))"
  by (simp add: b64_value_symbol less_mult_imp_div_less b64_group_join2 del: One_nat_def)

lemma b64_decode_encode: "b64_decode_groups a (b64_encode a True bs) = Some bs"
proof (induction a "True" bs rule: b64_encode.induct)
  case (1 a x y z bs)
  from "1" have ih: "b64_decode_groups a (b64_encode a True bs) = Some bs" by simp
  show ?case
    by (simp only: b64_encode.simps Let_def decode_group3 [OF top6_of_3] bytes24_join ih) simp
next
  case (2 a x y)
  show ?case
    by (simp only: b64_encode.simps Let_def if_True decode_group2 [OF top6_of_2] bytes24_join2)
      (simp add: numeral_2_eq_2)
next
  case (3 a x)
  show ?case
    by (simp only: b64_encode.simps Let_def if_True decode_group1 [OF top6_of_1] bytes24_join1)
      simp
next
  case (4 a)
  then show ?case by simp
qed

text \<open>Every symbol the encoders write is a graphic character and no line break.\<close>

lemma b64_symbol_graphic: "n < 64 \<Longrightarrow> graphic (b64_symbol a n)"
  by (cases a) (auto simp: graphic_def b64_symbol_def)

lemma pad_char_graphic: "graphic pad_char"
  by (simp add: graphic_def pad_char_def)

lemma encode_group3_graphic:
  "v < 64 * 262144 \<Longrightarrow> graphics s \<Longrightarrow>
   graphics (b64_symbol a (v div 262144) # b64_symbol a (v div 4096 mod 64)
     # b64_symbol a (v div 64 mod 64) # b64_symbol a (v mod 64) # s)"
  by (simp add: b64_symbol_graphic less_mult_imp_div_less)

lemma encode_group2_graphic:
  "v < 64 * 4096 \<Longrightarrow> graphics s \<Longrightarrow>
   graphics (b64_symbol a (v div 4096) # b64_symbol a (v div 64 mod 64)
     # b64_symbol a (v mod 64) # s)"
  by (simp add: b64_symbol_graphic less_mult_imp_div_less)

lemma encode_group1_graphic:
  "v < 64 * 64 \<Longrightarrow> graphics s \<Longrightarrow>
   graphics (b64_symbol a (v div 64) # b64_symbol a (v mod 64) # s)"
  by (simp add: b64_symbol_graphic less_mult_imp_div_less)

lemma b64_encode_graphic: "graphics (b64_encode a p bs)"
proof (induction a p bs rule: b64_encode.induct)
  case (1 a p x y z bs)
  then have "graphics (b64_encode a p bs)" by simp
  then show ?case
    by (simp only: b64_encode.simps Let_def encode_group3_graphic [OF top6_of_3])
next
  case (2 a p x y)
  have "graphics (if p then [pad_char] else [])" by (simp add: pad_char_graphic)
  then show ?case
    by (simp only: b64_encode.simps Let_def encode_group2_graphic [OF top6_of_2])
next
  case (3 a p x)
  have "graphics (if p then [pad_char, pad_char] else [])" by (simp add: pad_char_graphic)
  then show ?case
    by (simp only: b64_encode.simps Let_def encode_group1_graphic [OF top6_of_1])
next
  case (4 a p)
  show ?case by simp
qed

lemma filter_graphic: "graphics s \<Longrightarrow> filter (\<lambda>c. byte_val c \<noteq> 10 \<and> byte_val c \<noteq> 13) s = s"
  by (induction s) (auto simp: graphic_def)

lemma StdDecode_StdEncoding: "StdDecode (StdEncoding bs) = Some bs"
  by (simp add: StdDecode_def StdEncoding_def filter_graphic b64_encode_graphic b64_decode_encode)

text \<open>The unpadded encoding of a fixed number of bytes is injective: pad it and decode.\<close>

lemma b64_pad:
  "b64_encode a True bs = b64_encode a False bs
     @ replicate ((3 - length bs mod 3) mod 3) pad_char"
proof (induction a "False" bs rule: b64_encode.induct)
  case (1 a x y z bs)
  have "length (x # y # z # bs) mod 3 = length bs mod 3" by simp
  with "1" show ?case by (simp add: Let_def)
qed (auto simp: Let_def numeral_2_eq_2)

lemma RawURLEncoding_inject:
  assumes "length xs = length ys" "RawURLEncoding xs = RawURLEncoding ys"
  shows "xs = ys"
  using assms b64_pad [of URL_alphabet xs] b64_pad [of URL_alphabet ys]
    b64_decode_encode [of URL_alphabet xs] b64_decode_encode [of URL_alphabet ys]
  by (simp add: RawURLEncoding_def)

lemma length_RawURLEncoding: "length (RawURLEncoding bs) = (4 * length bs + 2) div 3"
  unfolding RawURLEncoding_def
  by (induction URL_alphabet "False" bs rule: b64_encode.induct) (auto simp: Let_def)

lemma RawURLEncoding_graphic: "graphics (RawURLEncoding bs)"
  by (simp add: RawURLEncoding_def b64_encode_graphic)

end
