(* ===== verification/GoUrl.thy ===== *)
theory GoUrl
  imports GoEncoding
begin

text \<open>
  \<open>net/url.Parse\<close> and the parts of the URL the source reads: the scheme (\<open>IsAbs\<close>) and the
  fragment. The parser is followed step by step, with the error of every rejected string.
  One decision is a parameter, \<open>ip_literal\<close>: whether a host that contains an opening bracket
  is accepted (\<open>None\<close>) or refused with a message. The rules for bracketed hosts (IPv6
  literals and zones) are the part of \<open>net/url\<close> that its releases change, and nothing below
  depends on them.
\<close>

section \<open>Percent escapes\<close>

definition is_hex :: "char \<Rightarrow> bool" where
  "is_hex c \<longleftrightarrow>
     (let v = byte_val c in 48 \<le> v \<and> v \<le> 57 \<or> 97 \<le> v \<and> v \<le> 102 \<or> 65 \<le> v \<and> v \<le> 70)"

definition unhex :: "char \<Rightarrow> nat" where
  "unhex c =
     (let v = byte_val c in
      if 48 \<le> v \<and> v \<le> 57 then v - 48 else if 97 \<le> v \<and> v \<le> 102 then v - 87
      else if 65 \<le> v \<and> v \<le> 70 then v - 55 else 0)"

datatype encoding = encodePath | encodeHost | encodeUserPassword | encodeFragment

datatype url_error =
    InvalidControlCharacter
  | MissingProtocolScheme
  | FirstSegmentColon
  | EscapeError string
  | InvalidHostError string
  | InvalidUserinfo
  | InvalidPort string
  | InvalidIPLiteral rendered

text \<open>The messages, as \<open>Error()\<close> of the package's error types renders them.\<close>

fun url_error_text :: "url_error \<Rightarrow> rendered" where
  "url_error_text InvalidControlCharacter = [Lit ''net/url: invalid control character in URL'']"
| "url_error_text MissingProtocolScheme = [Lit ''missing protocol scheme'']"
| "url_error_text FirstSegmentColon = [Lit ''first path segment in URL cannot contain colon'']"
| "url_error_text (EscapeError s) = [Lit ''invalid URL escape '', Quoted s]"
| "url_error_text (InvalidHostError s) =
     [Lit ''invalid character '', Quoted s, Lit '' in host name'']"
| "url_error_text InvalidUserinfo = [Lit ''net/url: invalid userinfo'']"
| "url_error_text (InvalidPort s) = [Lit ''invalid port '', Quoted s, Lit '' after host'']"
| "url_error_text (InvalidIPLiteral t) = t"

text \<open>\<open>*url.Error\<close> with operation \<open>parse\<close>.\<close>

definition parse_error :: "string \<Rightarrow> url_error \<Rightarrow> rendered" where
  "parse_error u e = [Lit ''parse '', Quoted u, Lit '': ''] @ url_error_text e"

definition is_alnum :: "char \<Rightarrow> bool" where
  "is_alnum c \<longleftrightarrow>
     (let v = byte_val c in 48 \<le> v \<and> v \<le> 57 \<or> 97 \<le> v \<and> v \<le> 122 \<or> 65 \<le> v \<and> v \<le> 90)"

text \<open>The bytes a host may contain unescaped (\<open>shouldEscape\<close> in mode \<open>encodeHost\<close>).\<close>

definition host_char :: "char \<Rightarrow> bool" where
  "host_char c \<longleftrightarrow> is_alnum c \<or> c \<in> set ''!$&()*+,;=:[]<>-_.~'' \<or> byte_val c = 34 \<or> byte_val c = 39"

text \<open>
  \<open>unescape\<close>: a percent sign needs two hex digits; in a host only bytes outside ASCII (and
  \<open>%25\<close>) may be escaped and other bytes must be host characters.
\<close>

fun unescape :: "encoding \<Rightarrow> string \<Rightarrow> url_error + string" where
  "unescape m [] = Inr []"
| "unescape m (c # s) =
     (if c = CHR ''%'' then
        (case s of
           h # l # r \<Rightarrow>
             (if \<not> (is_hex h \<and> is_hex l) then Inl (EscapeError [c, h, l])
              else if m = encodeHost \<and> unhex h < 8 \<and> [c, h, l] \<noteq> ''%25'' then Inl (EscapeError [c, h, l])
              else (case unescape m r of
                      Inl e \<Rightarrow> Inl e
                    | Inr t \<Rightarrow> Inr (char_of (16 * unhex h + unhex l) # t)))
         | _ \<Rightarrow> Inl (EscapeError (c # s)))
      else if m = encodeHost \<and> byte_val c < 128 \<and> \<not> host_char c then Inl (InvalidHostError [c])
      else (case unescape m s of Inl e \<Rightarrow> Inl e | Inr t \<Rightarrow> Inr (c # t)))"

lemma unescape_nonempty: "unescape m s = Inr t \<Longrightarrow> t = [] \<longleftrightarrow> s = []"
  by (cases s) (auto split: if_splits sum.splits list.splits)

section \<open>Scheme\<close>

definition is_letter :: "char \<Rightarrow> bool" where
  "is_letter c \<longleftrightarrow> (let v = byte_val c in 97 \<le> v \<and> v \<le> 122 \<or> 65 \<le> v \<and> v \<le> 90)"

definition scheme_tail_char :: "char \<Rightarrow> bool" where
  "scheme_tail_char c \<longleftrightarrow> (let v = byte_val c in 48 \<le> v \<and> v \<le> 57) \<or> c \<in> set ''+-.''"

text \<open>
  \<open>getScheme\<close>: \<open>pre\<close> holds the bytes already read, so position 0 is \<open>pre = []\<close>. A string
  without a valid scheme is returned whole.
\<close>

fun get_scheme :: "string \<Rightarrow> string \<Rightarrow> url_error + string \<times> string" where
  "get_scheme pre [] = Inr ([], pre)"
| "get_scheme pre (c # s) =
     (if is_letter c then get_scheme (pre @ [c]) s
      else if scheme_tail_char c then
        (if pre = [] then Inr ([], c # s) else get_scheme (pre @ [c]) s)
      else if c = CHR '':'' then
        (if pre = [] then Inl MissingProtocolScheme else Inr (pre, s))
      else Inr ([], pre @ c # s))"

section \<open>Authority\<close>

fun valid_optional_port :: "string \<Rightarrow> bool" where
  "valid_optional_port [] = True"
| "valid_optional_port (c # s) \<longleftrightarrow>
     c = CHR '':'' \<and> list_all (\<lambda>d. 48 \<le> byte_val d \<and> byte_val d \<le> 57) s"

definition valid_userinfo :: "string \<Rightarrow> bool" where
  "valid_userinfo s \<longleftrightarrow>
     list_all (\<lambda>c. is_alnum c \<or> c \<in> set ''-._:~!$&()*+,;=%@'' \<or> byte_val c = 39) s"

text \<open>
  \<open>parseHost\<close> for a host without brackets: at most one colon, before an optional decimal
  port; then the host is unescaped.
\<close>

definition parse_host :: "(string \<Rightarrow> rendered option) \<Rightarrow> string \<Rightarrow> url_error + string" where
  "parse_host ip_literal host =
     (if CHR ''['' \<in> set host then (case ip_literal host of None \<Rightarrow> Inr host | Some t \<Rightarrow> Inl (InvalidIPLiteral t))
      else if CHR '':'' \<in> set host
        \<and> \<not> valid_optional_port (dropWhile (\<lambda>c. c \<noteq> CHR '':'') host)
        then Inl (InvalidPort (dropWhile (\<lambda>c. c \<noteq> CHR '':'') host))
      else unescape encodeHost host)"

definition parse_authority :: "(string \<Rightarrow> rendered option) \<Rightarrow> string \<Rightarrow> url_error + string" where
  "parse_authority ip_literal authority =
     (case LastIndex authority (CHR ''@'') of
        None \<Rightarrow> parse_host ip_literal authority
      | Some i \<Rightarrow>
          (case parse_host ip_literal (drop (Suc i) authority) of
             Inl e \<Rightarrow> Inl e
           | Inr host \<Rightarrow>
               (let userinfo = take i authority in
                if \<not> valid_userinfo userinfo then Inl InvalidUserinfo
                else case Cut userinfo (CHR '':'') of
                  (user, password, _) \<Rightarrow>
                    (case unescape encodeUserPassword user of
                       Inl e \<Rightarrow> Inl e
                     | Inr _ \<Rightarrow>
                         (case unescape encodeUserPassword password of
                            Inl e \<Rightarrow> Inl e
                          | Inr _ \<Rightarrow> Inr host)))))"

section \<open>\<open>url.Parse\<close>\<close>

record url =
  url_Scheme :: string
  url_Opaque :: string
  url_Host :: string
  url_Path :: string
  url_RawQuery :: string
  url_Fragment :: string

definition empty_url :: url where
  "empty_url = \<lparr>url_Scheme = [], url_Opaque = [], url_Host = [], url_Path = [],
     url_RawQuery = [], url_Fragment = []\<rparr>"

definition ctl_byte :: "char \<Rightarrow> bool" where
  "ctl_byte c \<longleftrightarrow> byte_val c < 32 \<or> byte_val c = 127"

text \<open>After the scheme and the query: opaque part, authority and path.\<close>

definition parse_hier :: "(string \<Rightarrow> rendered option) \<Rightarrow> url \<Rightarrow> string \<Rightarrow> url_error + url" where
  "parse_hier ip_literal u rest =
     (if \<not> HasPrefix rest ''/'' \<and> url_Scheme u \<noteq> [] then Inr (u\<lparr>url_Opaque := rest\<rparr>)
      else if \<not> HasPrefix rest ''/'' \<and> CHR '':'' \<in> set (fst (Cut rest (CHR ''/'')))
        then Inl FirstSegmentColon
      else if (url_Scheme u \<noteq> [] \<or> \<not> HasPrefix rest ''///'') \<and> HasPrefix rest ''//'' then
        (let authority = takeWhile (\<lambda>c. c \<noteq> CHR ''/'') (drop 2 rest);
             path = dropWhile (\<lambda>c. c \<noteq> CHR ''/'') (drop 2 rest)
         in case parse_authority ip_literal authority of
              Inl e \<Rightarrow> Inl e
            | Inr host \<Rightarrow>
                (case unescape encodePath path of
                   Inl e \<Rightarrow> Inl e
                 | Inr p \<Rightarrow> Inr (u\<lparr>url_Host := host, url_Path := p\<rparr>)))
      else (case unescape encodePath rest of
              Inl e \<Rightarrow> Inl e
            | Inr p \<Rightarrow> Inr (u\<lparr>url_Path := p\<rparr>)))"

definition parse_no_fragment :: "(string \<Rightarrow> rendered option) \<Rightarrow> string \<Rightarrow> url_error + url" where
  "parse_no_fragment ip_literal raw =
     (if list_ex ctl_byte raw then Inl InvalidControlCharacter
      else if raw = ''*'' then Inr (empty_url\<lparr>url_Path := ''*''\<rparr>)
      else (case get_scheme [] raw of
              Inl e \<Rightarrow> Inl e
            | Inr (scheme, rest) \<Rightarrow>
                (case Cut rest (CHR ''?'') of
                   (before, query, _) \<Rightarrow>
                     parse_hier ip_literal
                       (empty_url\<lparr>url_Scheme := ToLower scheme, url_RawQuery := query\<rparr>) before)))"

definition url_Parse :: "(string \<Rightarrow> rendered option) \<Rightarrow> string \<Rightarrow> rendered + url" where
  "url_Parse ip_literal raw =
     (case Cut raw (CHR ''#'') of
        (before, frag, _) \<Rightarrow>
          (case parse_no_fragment ip_literal before of
             Inl e \<Rightarrow> Inl (parse_error before e)
           | Inr u \<Rightarrow>
               (if frag = [] then Inr u
                else (case unescape encodeFragment frag of
                        Inl e \<Rightarrow> Inl (parse_error raw e)
                      | Inr f \<Rightarrow> Inr (u\<lparr>url_Fragment := f\<rparr>)))))"

definition url_IsAbs :: "url \<Rightarrow> bool" where
  "url_IsAbs u \<longleftrightarrow> url_Scheme u \<noteq> []"

section \<open>What a successful parse says about the string\<close>

definition valid_scheme :: "string \<Rightarrow> bool" where
  "valid_scheme s \<longleftrightarrow>
     (case s of [] \<Rightarrow> False
      | c # r \<Rightarrow> is_letter c \<and> list_all (\<lambda>d. is_letter d \<or> scheme_tail_char d) r)"

lemma get_scheme_split:
  assumes "get_scheme pre s = Inr (scheme, rest)" "scheme \<noteq> []"
    "pre = [] \<or> valid_scheme pre"
  shows "valid_scheme scheme \<and> pre @ s = scheme @ CHR '':'' # rest"
  using assms
proof (induction pre s rule: get_scheme.induct)
  case (1 pre)
  then show ?case by simp
next
  case (2 pre c s)
  have step: "valid_scheme (pre @ [c])" if "is_letter c \<or> scheme_tail_char c \<and> pre \<noteq> []"
    using that "2.prems"(3) by (cases pre) (auto simp: valid_scheme_def)
  show ?case
    using "2.prems" "2.IH" step by (auto split: if_splits)
qed

lemma parse_hier_scheme: "parse_hier ip u rest = Inr v \<Longrightarrow> url_Scheme v = url_Scheme u"
  by (auto simp: parse_hier_def Let_def split: if_splits sum.splits)

lemma parse_hier_fragment: "parse_hier ip u rest = Inr v \<Longrightarrow> url_Fragment v = url_Fragment u"
  by (auto simp: parse_hier_def Let_def split: if_splits sum.splits)

lemma parse_no_fragment_fragment: "parse_no_fragment ip raw = Inr u \<Longrightarrow> url_Fragment u = []"
  by (auto simp: parse_no_fragment_def empty_url_def dest!: parse_hier_fragment
      split: if_splits sum.splits prod.splits)

lemma parse_no_fragment_scheme:
  assumes "parse_no_fragment ip raw = Inr u" "url_Scheme u \<noteq> []"
  shows "\<exists>scheme rest. valid_scheme scheme \<and> raw = scheme @ CHR '':'' # rest"
proof -
  from assms obtain scheme rest where g: "get_scheme [] raw = Inr (scheme, rest)"
    and "url_Scheme u = ToLower scheme"
    by (auto simp: parse_no_fragment_def empty_url_def dest!: parse_hier_scheme
        split: if_splits sum.splits prod.splits)
  with assms(2) have "scheme \<noteq> []" by (auto simp: ToLower_def)
  with get_scheme_split [OF g] show ?thesis by auto
qed

lemma parse_no_fragment_no_ctl: "parse_no_fragment ip raw = Inr u \<Longrightarrow> \<not> list_ex ctl_byte raw"
  by (auto simp: parse_no_fragment_def split: if_splits)

end
