(* ===== verification/GoTime.thy ===== *)
theory GoTime
  imports Complex_Main Prelude
begin

text \<open>
  \<open>time.Duration\<close> is an \<open>int64\<close> of nanoseconds, kept at its width: the SDK multiplies a
  number the server sent by \<open>time.Second\<close>, which wraps. \<open>time.Time\<close> in UTC is the number of
  nanoseconds since the Unix epoch as an unbounded integer: Go counts seconds in an \<open>int64\<close>
  next to the nanoseconds, so sums of a clock reading and a \<open>Duration\<close> (at most 292 years)
  stay in range. \<open>Sub\<close> saturates as Go's does. \<open>Seconds\<close> returns a \<open>float64\<close>; floats are
  modelled as the rational numbers they denote, with the rounding to 53 bits written out.
\<close>

section \<open>Durations and times\<close>

type_synonym int64 = "64 word"
type_synonym duration = int64
type_synonym time = int

definition nanos_per_second :: int where
  "nanos_per_second = 1000000000"

definition Second :: duration where
  "Second = 1000000000"

definition minDuration :: int where
  "minDuration = - (2 ^ 63)"

definition maxDuration :: int where
  "maxDuration = 2 ^ 63 - 1"

definition time_Add :: "time \<Rightarrow> duration \<Rightarrow> time" where
  "time_Add t d = t + sint d"

definition time_Sub :: "time \<Rightarrow> time \<Rightarrow> duration" where
  "time_Sub t u = word_of_int (max minDuration (min maxDuration (t - u)))"

definition time_After :: "time \<Rightarrow> time \<Rightarrow> bool" where
  "time_After t u \<longleftrightarrow> t > u"

definition time_Unix :: "time \<Rightarrow> int" where
  "time_Unix t = t div nanos_per_second"

text \<open>The zero \<open>time.Time\<close>: January 1 of the year 1.\<close>

definition zero_time :: time where
  "zero_time = - 62135596800 * 1000000000"

lemma sint_int64_bounds: "minDuration \<le> sint (d :: duration)" "sint (d :: duration) \<le> maxDuration"
  using sint_greater_eq [of d] sint_lt [of d] by (simp_all add: minDuration_def maxDuration_def)

lemma sint_word_of_int64:
  "minDuration \<le> n \<Longrightarrow> n \<le> maxDuration \<Longrightarrow> sint (word_of_int n :: int64) = n"
  by (simp add: signed_of_int signed_take_bit_int_eq_self minDuration_def maxDuration_def)

lemma sint_Second [simp]: "sint Second = nanos_per_second"
  by (simp add: Second_def nanos_per_second_def)

lemma sint_time_Sub: "sint (time_Sub t u) = max minDuration (min maxDuration (t - u))"
  unfolding time_Sub_def
  by (rule sint_word_of_int64) (simp_all add: minDuration_def maxDuration_def)

text \<open>Adding a duration and subtracting the start gives the duration back.\<close>

lemma time_Sub_Add: "time_Sub (time_Add t d) t = d"
proof -
  have "max minDuration (min maxDuration (sint d)) = sint d"
    using sint_int64_bounds [of d] by linarith
  then show ?thesis by (simp add: time_Sub_def time_Add_def)
qed

text \<open>
  Comparing a saturated difference with an \<open>int64\<close> is comparing the exact one, except at the
  saturation points; \<open>>\<close> on \<open>Duration\<close> is signed.
\<close>

definition duration_greater :: "duration \<Rightarrow> duration \<Rightarrow> bool" where
  "duration_greater d e \<longleftrightarrow> sint d > sint e"

lemma time_Sub_greater_imp: "duration_greater (time_Sub t u) d \<Longrightarrow> t - u > sint d"
  using sint_int64_bounds [of d] by (auto simp: duration_greater_def sint_time_Sub)

lemma time_Sub_greater_iff:
  "sint d < maxDuration \<Longrightarrow> duration_greater (time_Sub t u) d \<longleftrightarrow> t - u > sint d"
  using sint_int64_bounds [of d] by (auto simp: duration_greater_def sint_time_Sub)

section \<open>\<open>float64\<close>\<close>

lemma ceiling_half_less:
  fixes y :: rat
  assumes "1 < y"
  shows "\<lceil>y / 2\<rceil> < \<lceil>y\<rceil>" and "0 < \<lceil>y\<rceil>"
proof -
  have n: "y \<le> of_int \<lceil>y\<rceil>" by (rule le_of_int_ceiling)
  show pos: "0 < \<lceil>y\<rceil>" using assms by simp
  have "1 < \<lceil>y\<rceil>" using assms by (simp add: less_ceiling_iff)
  then have "2 \<le> \<lceil>y\<rceil>" by linarith
  then have "(of_int 2 :: rat) \<le> of_int \<lceil>y\<rceil>" by (simp only: of_int_le_iff)
  then have "y / 2 \<le> of_int \<lceil>y\<rceil> - 1" using n by linarith
  then have "y / 2 \<le> of_int (\<lceil>y\<rceil> - 1)" by simp
  then have "\<lceil>y / 2\<rceil> \<le> \<lceil>y\<rceil> - 1" by (rule ceiling_le)
  then show "\<lceil>y / 2\<rceil> < \<lceil>y\<rceil>" by linarith
qed

definition round_half_even :: "rat \<Rightarrow> int" where
  "round_half_even x =
     (let n = \<lfloor>x\<rfloor>; r = x - of_int n
      in if r < 1 / 2 then n else if r > 1 / 2 then n + 1 else if even n then n else n + 1)"

text \<open>Doublings needed to reach the 53-bit range from below, halvings to leave it from above.\<close>

function doublings :: "rat \<Rightarrow> nat" where
  "doublings x = (if x \<le> 0 \<or> x \<ge> 2 ^ 52 then 0 else Suc (doublings (2 * x)))"
  by pat_completeness auto
termination
proof (relation "measure (\<lambda>x. nat \<lceil>2 ^ 52 / x\<rceil>)")
  fix x :: rat
  assume "\<not> (x \<le> 0 \<or> x \<ge> 2 ^ 52)"
  then have x: "0 < x" "x < 2 ^ 52" by auto
  define y where "y = 2 ^ 52 / x"
  have y: "y > 1" using x by (simp add: y_def field_simps)
  have "2 ^ 52 / (2 * x) = y / 2" by (simp add: y_def)
  with ceiling_half_less [OF y] show "(2 * x, x) \<in> measure (\<lambda>x. nat \<lceil>2 ^ 52 / x\<rceil>)"
    by (simp add: y_def)
qed simp

function halvings :: "rat \<Rightarrow> nat" where
  "halvings x = (if x < 2 ^ 53 then 0 else Suc (halvings (x / 2)))"
  by pat_completeness auto
termination
proof (relation "measure (\<lambda>x. nat \<lceil>x\<rceil>)")
  fix x :: rat
  assume "\<not> x < 2 ^ 53"
  then have "1 < x" by simp
  from ceiling_half_less [OF this] show "(x / 2, x) \<in> measure (\<lambda>x. nat \<lceil>x\<rceil>)" by simp
qed simp

declare doublings.simps [simp del] halvings.simps [simp del]

text \<open>
  Rounding to nearest, ties to even, with a 53-bit significand. The values of this program
  (at most \<open>2 ^ 63\<close>, and either zero or at least \<open>10 ^ -9\<close>) are far from overflow and from
  the subnormal range.
\<close>

definition round53_pos :: "rat \<Rightarrow> rat" where
  "round53_pos x =
     (if x < 2 ^ 53 then of_int (round_half_even (x * 2 ^ doublings x)) / 2 ^ doublings x
      else of_int (round_half_even (x / 2 ^ halvings x)) * 2 ^ halvings x)"

definition round53 :: "rat \<Rightarrow> rat" where
  "round53 x = (if x < 0 then - round53_pos (- x) else round53_pos x)"

text \<open>\<open>Duration.Seconds\<close>: the whole seconds plus the rounded fraction, rounded again.\<close>

definition trunc_div :: "int \<Rightarrow> int \<Rightarrow> int" where
  "trunc_div a b = sgn a * sgn b * (\<bar>a\<bar> div \<bar>b\<bar>)"

definition trunc_mod :: "int \<Rightarrow> int \<Rightarrow> int" where
  "trunc_mod a b = a - b * trunc_div a b"

definition duration_Seconds :: "duration \<Rightarrow> rat" where
  "duration_Seconds d =
     (let sec = trunc_div (sint d) nanos_per_second;
          nsec = trunc_mod (sint d) nanos_per_second
      in round53 (round53 (of_int sec) + round53 (of_int nsec / of_int nanos_per_second)))"

text \<open>\<open>float64(d.Microseconds()) / 1000.0\<close>, the unit of the audit log.\<close>

definition duration_millis :: "duration \<Rightarrow> rat" where
  "duration_millis d = round53 (round53 (of_int (trunc_div (sint d) 1000)) / 1000)"

text \<open>The conversion \<open>int64(f)\<close> truncates towards zero.\<close>

definition float_to_int64 :: "rat \<Rightarrow> int64" where
  "float_to_int64 x = word_of_int (if x < 0 then - \<lfloor>- x\<rfloor> else \<lfloor>x\<rfloor>)"

lemma round_half_even_of_int [simp]: "round_half_even (of_int n) = n"
  by (simp add: round_half_even_def)

lemma round_half_even_between:
  "of_int a \<le> x \<Longrightarrow> x \<le> of_int b \<Longrightarrow> a \<le> round_half_even x \<and> round_half_even x \<le> b"
proof -
  assume lo: "of_int a \<le> x" and hi: "x \<le> of_int b"
  from lo have fl: "a \<le> \<lfloor>x\<rfloor>" by (simp add: le_floor_iff)
  show ?thesis
  proof (cases "x = of_int b")
    case True
    with fl show ?thesis by simp
  next
    case False
    with hi have "x < of_int b" by simp
    then have "\<lfloor>x\<rfloor> < b" by (simp add: floor_less_iff)
    with fl show ?thesis by (auto simp: round_half_even_def Let_def)
  qed
qed

lemma round_half_even_error: "\<bar>of_int (round_half_even x) - x\<bar> \<le> 1 / 2"
proof -
  have "of_int \<lfloor>x\<rfloor> \<le> x" "x < of_int \<lfloor>x\<rfloor> + 1" using floor_correct [of x] by simp_all
  then show ?thesis unfolding round_half_even_def Let_def
    by (simp split: if_split; linarith)
qed

lemma doublings_reach: "0 < x \<Longrightarrow> 2 ^ 52 \<le> x * 2 ^ doublings x"
proof (induction x rule: doublings.induct)
  case (1 x)
  then show ?case by (subst doublings.simps) (auto simp: mult.commute mult.left_commute)
qed

text \<open>Rounding keeps a value between two neighbouring integers and fixes the integers.\<close>

lemma round53_between:
  assumes "0 \<le> a" "of_int a \<le> x" "x \<le> of_int b" "b < 2 ^ 53"
  shows "of_int a \<le> round53 x \<and> round53 x \<le> of_int b"
proof -
  let ?k = "doublings x"
  have "x < 2 ^ 53"
  proof -
    have "of_int b < (of_int (2 ^ 53) :: rat)" using assms(4) by (simp only: of_int_less_iff)
    with assms(3) show ?thesis by simp
  qed
  moreover have "\<not> x < 0" using assms(1,2) by linarith
  ultimately have r: "round53 x = of_int (round_half_even (x * 2 ^ ?k)) / 2 ^ ?k"
    by (simp add: round53_def round53_pos_def)
  have "of_int (a * 2 ^ ?k) \<le> x * 2 ^ ?k" "x * 2 ^ ?k \<le> of_int (b * 2 ^ ?k)"
    using assms(2,3) by simp_all
  from round_half_even_between [OF this]
  have "of_int (a * 2 ^ ?k) \<le> (of_int (round_half_even (x * 2 ^ ?k)) :: rat)"
    "(of_int (round_half_even (x * 2 ^ ?k)) :: rat) \<le> of_int (b * 2 ^ ?k)"
    by (simp_all only: of_int_le_iff)
  then show ?thesis unfolding r by (simp add: field_simps)
qed

lemma round53_of_int: "0 \<le> n \<Longrightarrow> n < 2 ^ 53 \<Longrightarrow> round53 (of_int n) = of_int n"
  using round53_between [of n "of_int n" n] by auto

text \<open>The error of rounding a value below \<open>2 ^ m\<close> is at most half a unit of the last place.\<close>

lemma round53_error:
  assumes "0 < x" "x < 2 ^ m" "m \<le> 52"
  shows "\<bar>round53 x - x\<bar> \<le> 1 / 2 ^ (53 - m)"
proof -
  let ?k = "doublings x"
  have "(2::rat) ^ m \<le> 2 ^ 52" using assms(3) by (rule power_increasing) simp
  with assms have x53: "x < 2 ^ 53" by simp
  then have r: "round53 x = of_int (round_half_even (x * 2 ^ ?k)) / 2 ^ ?k"
    using assms(1) by (simp add: round53_def round53_pos_def)
  have "(2::rat) ^ 52 \<le> x * 2 ^ ?k" using assms(1) by (rule doublings_reach)
  also have "\<dots> < 2 ^ m * 2 ^ ?k" using assms(2) by simp
  finally have "(2::rat) ^ 52 < 2 ^ (m + ?k)" by (simp add: power_add)
  then have "52 < m + ?k" by (rule power_less_imp_less_exp [rotated]) simp
  then have k: "52 - m \<le> ?k" by simp
  have "\<bar>round53 x - x\<bar> = \<bar>of_int (round_half_even (x * 2 ^ ?k)) - x * 2 ^ ?k\<bar> / 2 ^ ?k"
  proof -
    have "round53 x - x = (of_int (round_half_even (x * 2 ^ ?k)) - x * 2 ^ ?k) / 2 ^ ?k"
      unfolding r by (simp add: diff_divide_distrib)
    then show ?thesis by (simp add: abs_divide)
  qed
  also have "\<dots> \<le> (1 / 2) / 2 ^ ?k"
    by (rule divide_right_mono) (use round_half_even_error in auto)
  also have "\<dots> \<le> (1 / 2) / 2 ^ (52 - m)"
    using k by (intro divide_left_mono power_increasing) auto
  also have "\<dots> = 1 / 2 ^ (53 - m)"
    using assms(3) by (simp add: Suc_diff_le [symmetric] flip: power_Suc)
  finally show ?thesis .
qed

section \<open>\<open>int64(d.Seconds())\<close>\<close>

lemma trunc_nonneg:
  assumes "0 \<le> n"
  shows "trunc_div n nanos_per_second = n div nanos_per_second"
    and "trunc_mod n nanos_per_second = n mod nanos_per_second"
proof -
  show d: "trunc_div n nanos_per_second = n div nanos_per_second"
    using assms by (cases "n = 0") (simp_all add: trunc_div_def nanos_per_second_def sgn_if)
  show "trunc_mod n nanos_per_second = n mod nanos_per_second"
    unfolding trunc_mod_def d by (simp add: minus_mult_div_eq_mod)
qed

text \<open>The whole seconds of a non-negative duration, and what the float is made of.\<close>

definition whole_seconds :: "duration \<Rightarrow> int" where
  "whole_seconds d = sint d div nanos_per_second"

lemma whole_seconds_bounds:
  assumes "0 \<le> sint d"
  shows "0 \<le> whole_seconds d" and "whole_seconds d < 2 ^ 52"
proof -
  show "0 \<le> whole_seconds d"
    using assms by (simp add: whole_seconds_def nanos_per_second_def pos_imp_zdiv_nonneg_iff)
  have "sint d \<le> 2 ^ 63 - 1" using sint_int64_bounds(2) [of d] by (simp add: maxDuration_def)
  then show "whole_seconds d < 2 ^ 52"
    unfolding whole_seconds_def nanos_per_second_def by simp
qed

lemma duration_Seconds_eq:
  assumes "0 \<le> sint d"
  shows "duration_Seconds d
    = round53 (of_int (whole_seconds d)
        + round53 (of_int (sint d mod nanos_per_second) / of_int nanos_per_second))"
  using whole_seconds_bounds [OF assms]
  by (simp add: duration_Seconds_def Let_def trunc_nonneg [OF assms] whole_seconds_def
      round53_of_int)

lemma fraction_rounded:
  assumes "0 \<le> n" "n < nanos_per_second"
  shows "0 \<le> round53 (of_int n / of_int nanos_per_second)"
    and "round53 (of_int n / of_int nanos_per_second) \<le> 1"
  using round53_between [of 0 "of_int n / of_int nanos_per_second" 1] assms
  by (simp_all add: nanos_per_second_def)

text \<open>In general the float may round up to the next second, never further.\<close>

lemma duration_Seconds_between:
  assumes "0 \<le> sint d"
  shows "of_int (whole_seconds d) \<le> duration_Seconds d"
    and "duration_Seconds d \<le> of_int (whole_seconds d + 1)"
proof -
  let ?q = "round53 (of_int (sint d mod nanos_per_second) / of_int nanos_per_second)"
  have q: "0 \<le> ?q" "?q \<le> 1"
    using fraction_rounded [of "sint d mod nanos_per_second"] by (simp_all add: nanos_per_second_def)
  note w = whole_seconds_bounds [OF assms]
  have "of_int (whole_seconds d) \<le> of_int (whole_seconds d) + ?q"
    "of_int (whole_seconds d) + ?q \<le> of_int (whole_seconds d + 1)"
    using q by simp_all
  from round53_between [OF w(1) this] w(2)
  show "of_int (whole_seconds d) \<le> duration_Seconds d"
    "duration_Seconds d \<le> of_int (whole_seconds d + 1)"
    unfolding duration_Seconds_eq [OF assms] by simp_all
qed

lemma float_to_int64_floor: "0 \<le> x \<Longrightarrow> float_to_int64 x = word_of_int \<lfloor>x\<rfloor>"
  by (simp add: float_to_int64_def)

lemma int_seconds_cases:
  assumes "0 \<le> sint d"
  shows "float_to_int64 (duration_Seconds d) \<in>
    {word_of_int (whole_seconds d), word_of_int (whole_seconds d + 1)}"
proof -
  note b = duration_Seconds_between [OF assms]
  have "(0 :: rat) \<le> of_int (whole_seconds d)"
    using whole_seconds_bounds(1) [OF assms] by simp
  with b(1) have nonneg: "0 \<le> duration_Seconds d" by linarith
  have "whole_seconds d \<le> \<lfloor>duration_Seconds d\<rfloor>" using b(1) by (simp add: le_floor_iff)
  moreover have "\<lfloor>duration_Seconds d\<rfloor> \<le> whole_seconds d + 1"
    using b(2) by (metis floor_mono floor_of_int)
  ultimately have "\<lfloor>duration_Seconds d\<rfloor> = whole_seconds d \<or> \<lfloor>duration_Seconds d\<rfloor> = whole_seconds d + 1"
    by linarith
  then show ?thesis unfolding float_to_int64_floor [OF nonneg] by (elim disjE) simp_all
qed

text \<open>A duration of whole seconds is converted exactly.\<close>

lemma int_seconds_whole:
  assumes "0 \<le> sint d" "sint d mod nanos_per_second = 0"
  shows "float_to_int64 (duration_Seconds d) = word_of_int (whole_seconds d)"
proof -
  note w = whole_seconds_bounds [OF assms(1)]
  have "round53 0 = 0" using round53_of_int [of 0] by simp
  then have "duration_Seconds d = of_int (whole_seconds d)"
    using w by (simp add: duration_Seconds_eq [OF assms(1)] assms(2) round53_of_int)
  with w(1) show ?thesis by (simp add: float_to_int64_def)
qed

text \<open>The rounded fraction stays clear of one second.\<close>

lemma round53_error_nonneg:
  assumes "0 \<le> x" "x < 2 ^ m" "m \<le> 52"
  shows "round53 x \<le> x + 1 / 2 ^ (53 - m)"
proof (cases "x = 0")
  case True
  then show ?thesis using round53_of_int [of 0] by simp
next
  case False
  with assms have "\<bar>round53 x - x\<bar> \<le> 1 / 2 ^ (53 - m)" by (intro round53_error) auto
  then show ?thesis by linarith
qed

lemma fraction_upper:
  assumes "0 \<le> n" "n < nanos_per_second"
  shows "round53 (of_int n / of_int nanos_per_second) \<le> 999999999 / 1000000000 + 1 / 2 ^ 53"
proof -
  let ?x = "of_int n / of_int nanos_per_second :: rat"
  have "n \<le> 999999999" using assms(2) by (simp add: nanos_per_second_def)
  then have "(of_int n :: rat) \<le> of_int 999999999" by (simp only: of_int_le_iff)
  then have hi: "?x \<le> 999999999 / 1000000000" by (simp add: nanos_per_second_def)
  have lo: "0 \<le> ?x" using assms(1) by (simp add: nanos_per_second_def)
  have "(999999999 / 1000000000 :: rat) < 2 ^ 0" by simp
  with hi have lt: "?x < 2 ^ 0" by (rule le_less_trans)
  from round53_error_nonneg [OF lo lt] hi show ?thesis by simp
qed

text \<open>Below \<open>2 ^ 20\<close> seconds (twelve days) the fraction never rounds up: the result is the floor.\<close>

lemma int_seconds_small:
  assumes "0 \<le> sint d" "whole_seconds d < 2 ^ 20"
  shows "float_to_int64 (duration_Seconds d) = word_of_int (whole_seconds d)"
proof -
  let ?q = "round53 (of_int (sint d mod nanos_per_second) / of_int nanos_per_second)"
  let ?y = "of_int (whole_seconds d) + ?q"
  have n: "0 \<le> sint d mod nanos_per_second" "sint d mod nanos_per_second < nanos_per_second"
    by (simp_all add: nanos_per_second_def)
  note q = fraction_rounded(1) [OF n] fraction_upper [OF n]
  have w0: "(0::rat) \<le> of_int (whole_seconds d)"
    using whole_seconds_bounds(1) [OF assms(1)] by simp
  have "whole_seconds d \<le> 2 ^ 20 - 1" using assms(2) by simp
  then have "(of_int (whole_seconds d) :: rat) \<le> of_int (2 ^ 20 - 1)" by (simp only: of_int_le_iff)
  with q(2) have "?y < 2 ^ 20" by simp
  with q(1) w0 have "round53 ?y \<le> ?y + 1 / 2 ^ (53 - 20)" by (intro round53_error_nonneg) auto
  with q(2) have hi: "duration_Seconds d < of_int (whole_seconds d) + 1"
    unfolding duration_Seconds_eq [OF assms(1)] by simp
  have lo: "of_int (whole_seconds d) \<le> duration_Seconds d"
    by (rule duration_Seconds_between(1) [OF assms(1)])
  from lo hi have "\<lfloor>duration_Seconds d\<rfloor> = whole_seconds d" by (intro floor_unique)
  moreover from lo w0 have "0 \<le> duration_Seconds d" by linarith
  ultimately show ?thesis by (simp add: float_to_int64_floor)
qed

end
