(* ===== verification/OAuthTypes.thy ===== *)
theory OAuthTypes
  imports GoUrl GoTime
begin

text \<open>
  \<open>pkg/oauth2/types.go\<close>: the clients, tokens, requests and responses of the authorization
  server, the two checks on a token, and \<open>ValidateAbsoluteURI\<close> (RFC 8707).
\<close>

section \<open>Data\<close>

record Client =
  ID :: string
  SecretHash :: string
  Name :: string
  AllowedResources :: "string list"
  AllowedScopes :: "string list"
  CreatedAt :: time

record Token =
  TokenHash :: string
  ClientID :: string
  Resource :: string
  Scope :: string
  ExpiresAt :: time
  IssuedAt :: time  \<comment> \<open>the Go field \<open>CreatedAt\<close>\<close>
  RevokedAt :: "time option"

definition IsExpired :: "Token \<Rightarrow> time \<Rightarrow> bool" where
  "IsExpired t now_time \<longleftrightarrow> time_After now_time (ExpiresAt t)"

definition IsRevoked :: "Token \<Rightarrow> bool" where
  "IsRevoked t \<longleftrightarrow> RevokedAt t \<noteq> None"

record RegisterClientRequest =
  reg_Name :: string
  reg_AllowedResources :: "string list"
  reg_AllowedScopes :: "string list"

record RegisterClientResponse =
  resp_ClientID :: string
  resp_ClientSecret :: string
  resp_Name :: string
  resp_AllowedResources :: "string list"
  resp_AllowedScopes :: "string list"
  resp_CreatedAt :: time

record TokenRequest =
  req_GrantType :: string
  req_ClientID :: string
  req_ClientSecret :: string
  req_Resource :: string
  req_Scope :: string

record TokenResponse =
  AccessToken :: string
  TokenType :: string
  ExpiresIn :: int64
  tresp_Resource :: string
  tresp_Scope :: string

record IntrospectResponse =
  Active :: bool
  intro_ClientID :: string
  intro_Resource :: string
  intro_Scope :: string
  Exp :: int
  intro_TokenType :: string

text \<open>\<open>&IntrospectResponse{Active: false}\<close>: every other field has its zero value.\<close>

definition inactive_response :: IntrospectResponse where
  "inactive_response = \<lparr>Active = False, intro_ClientID = [], intro_Resource = [],
     intro_Scope = [], Exp = 0, intro_TokenType = []\<rparr>"

section \<open>Absolute URIs without fragment\<close>

definition ValidateAbsoluteURI :: "(string \<Rightarrow> rendered option) \<Rightarrow> string \<Rightarrow> go_error option" where
  "ValidateAbsoluteURI ip_literal rawURI =
     (if rawURI = [] then
        Some (Wrapf [] (oauth_err ErrInvalidTarget) [Lit '': resource URI cannot be empty''])
      else (case url_Parse ip_literal rawURI of
        Inl e \<Rightarrow>
          Some (Wrapf [] (oauth_err ErrInvalidTarget) ([Lit '': failed to parse URI: ''] @ e))
      | Inr u \<Rightarrow>
          (if \<not> url_IsAbs u then
             Some (Wrapf [] (oauth_err ErrInvalidTarget)
               [Lit '': URI must be absolute (scheme required)''])
           else if url_Fragment u \<noteq> [] then
             Some (Wrapf [] (oauth_err ErrInvalidTarget)
               [Lit '': URI must not contain a fragment component''])
           else None)))"

text \<open>Every rejection wraps \<open>ErrInvalidTarget\<close>.\<close>

lemma ValidateAbsoluteURI_error:
  "ValidateAbsoluteURI ip u = Some e \<Longrightarrow> errors_Is e (OAuthErr ErrInvalidTarget)"
  by (auto simp: ValidateAbsoluteURI_def split: if_splits sum.splits)

text \<open>
  A string is accepted exactly when its part before the first \<open>#\<close> parses with a scheme and
  nothing follows the \<open>#\<close>.
\<close>

lemma unescape_fragment_nonempty:
  "unescape encodeFragment frag = Inr f \<Longrightarrow> frag \<noteq> [] \<Longrightarrow> f \<noteq> []"
  using unescape_nonempty by blast

lemma url_Parse_ok:
  assumes "Cut u (CHR ''#'') = (before, frag, found)"
  shows "(\<exists>v. url_Parse ip u = Inr v \<and> url_IsAbs v \<and> url_Fragment v = []) \<longleftrightarrow>
    frag = [] \<and> (\<exists>v. parse_no_fragment ip before = Inr v \<and> url_IsAbs v)"
proof (cases "parse_no_fragment ip before")
  case (Inl e)
  then show ?thesis by (simp add: url_Parse_def assms)
next
  case (Inr v)
  note v = Inr parse_no_fragment_fragment [OF Inr]
  show ?thesis
  proof (cases "frag = []")
    case True
    with v show ?thesis by (simp add: url_Parse_def assms)
  next
    case False
    with v(1) show ?thesis
      by (cases "unescape encodeFragment frag")
        (auto simp: url_Parse_def assms dest: unescape_fragment_nonempty)
  qed
qed

lemma ValidateAbsoluteURI_accept:
  "ValidateAbsoluteURI ip u = None \<longleftrightarrow>
     u \<noteq> [] \<and> fst (snd (Cut u (CHR ''#''))) = []
       \<and> (\<exists>v. parse_no_fragment ip (fst (Cut u (CHR ''#''))) = Inr v \<and> url_IsAbs v)"
proof -
  obtain before frag found where c: "Cut u (CHR ''#'') = (before, frag, found)"
    by (metis prod_cases3)
  have "ValidateAbsoluteURI ip u = None \<longleftrightarrow>
      u \<noteq> [] \<and> (\<exists>v. url_Parse ip u = Inr v \<and> url_IsAbs v \<and> url_Fragment v = [])"
    by (auto simp: ValidateAbsoluteURI_def split: sum.splits)
  then show ?thesis by (simp add: url_Parse_ok [OF c] c)
qed

text \<open>An accepted string is absolute, has no control bytes, and has no text after a \<open>#\<close>.\<close>

lemma ValidateAbsoluteURI_shape:
  assumes "ValidateAbsoluteURI ip u = None"
  shows "\<exists>scheme rest. valid_scheme scheme \<and> CHR ''#'' \<notin> set rest
    \<and> (u = scheme @ CHR '':'' # rest \<or> u = scheme @ CHR '':'' # rest @ ''#'')"
proof -
  have scheme: "\<exists>scheme rest. valid_scheme scheme \<and> CHR ''#'' \<notin> set rest
      \<and> before = scheme @ CHR '':'' # rest"
    if "parse_no_fragment ip before = Inr v" "url_IsAbs v" "CHR ''#'' \<notin> set before" for before v
    using parse_no_fragment_scheme [OF that(1)] that(2,3) by (auto simp: url_IsAbs_def)
  show ?thesis
  proof (cases rule: Cut_cases [of "CHR ''#''" u])
    case absent
    from assms absent(2) obtain v where "parse_no_fragment ip u = Inr v" "url_IsAbs v"
      by (auto simp: ValidateAbsoluteURI_accept)
    from scheme [OF this absent(1)] show ?thesis by blast
  next
    case (found a b)
    from assms found(3) have b: "b = []" by (simp add: ValidateAbsoluteURI_accept)
    from assms found(3) obtain v where "parse_no_fragment ip a = Inr v" "url_IsAbs v"
      by (auto simp: ValidateAbsoluteURI_accept)
    from scheme [OF this found(2)] obtain scheme rest where
      s: "valid_scheme scheme" "CHR ''#'' \<notin> set rest" "a = scheme @ CHR '':'' # rest"
      by blast
    from s(3) found(1) b have "u = scheme @ CHR '':'' # rest @ ''#''" by simp
    with s show ?thesis by blast
  qed
qed

end
