(* ===== verification/OAuthStore.thy ===== *)
theory OAuthStore
  imports OAuthTypes
begin

text \<open>
  \<open>pkg/oauth2/store.go\<close> and \<open>store_memory.go\<close>. The Go interface \<open>Store\<close> is a record of
  operations over a store state; the service below works on any such record, as the Go code
  does. The contract a client of the interface relies on is the locale \<open>oauth_store\<close>, and
  \<open>MemoryStore\<close> is interpreted as an instance of it.
\<close>

section \<open>The interface\<close>

text \<open>A pointer argument is an option; an error result is an option, a value-or-error a sum.\<close>

record 'st StoreOps =
  op_CreateClient :: "Client option \<Rightarrow> 'st \<Rightarrow> go_error option \<times> 'st"
  op_GetClient :: "string \<Rightarrow> 'st \<Rightarrow> (go_error + Client) \<times> 'st"
  op_SaveToken :: "Token option \<Rightarrow> 'st \<Rightarrow> go_error option \<times> 'st"
  op_GetTokenByHash :: "string \<Rightarrow> 'st \<Rightarrow> (go_error + Token) \<times> 'st"
  op_RevokeToken :: "string \<Rightarrow> 'st \<Rightarrow> go_error option \<times> 'st"

text \<open>
  The contract: what the operations do to the two views of a store, the clients by ID and the
  tokens by hash. Reading changes neither view; a second client with the same ID is refused;
  revoking stamps the token with some time and touches nothing else.
\<close>

locale oauth_store =
  fixes ops :: "'st StoreOps"
    and clients_of :: "'st \<Rightarrow> string \<Rightarrow> Client option"
    and tokens_of :: "'st \<Rightarrow> string \<Rightarrow> Token option"
  assumes create_new: "ID c \<noteq> [] \<Longrightarrow> clients_of s (ID c) = None \<Longrightarrow>
      fst (op_CreateClient ops (Some c) s) = None
      \<and> clients_of (snd (op_CreateClient ops (Some c) s)) = (clients_of s)(ID c \<mapsto> c)"
    and create_duplicate: "clients_of s (ID c) \<noteq> None \<Longrightarrow>
      fst (op_CreateClient ops (Some c) s) \<noteq> None
      \<and> clients_of (snd (op_CreateClient ops (Some c) s)) = clients_of s"
    and create_tokens: "tokens_of (snd (op_CreateClient ops cp s)) = tokens_of s"
    and get_client: "fst (op_GetClient ops k s) =
      (case clients_of s k of None \<Rightarrow> Inl (oauth_err ErrInvalidClient) | Some c \<Rightarrow> Inr c)"
    and get_client_frame: "clients_of (snd (op_GetClient ops k s)) = clients_of s"
      "tokens_of (snd (op_GetClient ops k s)) = tokens_of s"
    and save_token: "TokenHash t \<noteq> [] \<Longrightarrow>
      fst (op_SaveToken ops (Some t) s) = None
      \<and> tokens_of (snd (op_SaveToken ops (Some t) s)) = (tokens_of s)(TokenHash t \<mapsto> t)"
    and save_clients: "clients_of (snd (op_SaveToken ops tp s)) = clients_of s"
    and get_token: "fst (op_GetTokenByHash ops h s) =
      (case tokens_of s h of None \<Rightarrow> Inl (oauth_err ErrTokenNotFound) | Some t \<Rightarrow> Inr t)"
    and get_token_frame: "clients_of (snd (op_GetTokenByHash ops h s)) = clients_of s"
      "tokens_of (snd (op_GetTokenByHash ops h s)) = tokens_of s"
    and revoke_absent: "tokens_of s h = None \<Longrightarrow>
      fst (op_RevokeToken ops h s) = Some (oauth_err ErrTokenNotFound)
      \<and> tokens_of (snd (op_RevokeToken ops h s)) = tokens_of s"
    and revoke_present: "tokens_of s h = Some t \<Longrightarrow>
      fst (op_RevokeToken ops h s) = None
      \<and> (\<exists>when. tokens_of (snd (op_RevokeToken ops h s))
               = (tokens_of s)(h \<mapsto> t\<lparr>RevokedAt := Some when\<rparr>))"
    and revoke_clients: "clients_of (snd (op_RevokeToken ops h s)) = clients_of s"
begin

text \<open>Read after write, in the form the service proofs use.\<close>

lemma get_after_create:
  "ID c \<noteq> [] \<Longrightarrow> clients_of s (ID c) = None \<Longrightarrow>
   fst (op_GetClient ops (ID c) (snd (op_CreateClient ops (Some c) s))) = Inr c"
  using create_new [of c s] by (simp add: get_client)

lemma get_after_save:
  "TokenHash t \<noteq> [] \<Longrightarrow>
   fst (op_GetTokenByHash ops (TokenHash t) (snd (op_SaveToken ops (Some t) s))) = Inr t"
  using save_token [of t s] by (simp add: get_token)

lemma get_other_after_save:
  "TokenHash t \<noteq> [] \<Longrightarrow> h \<noteq> TokenHash t \<Longrightarrow>
   fst (op_GetTokenByHash ops h (snd (op_SaveToken ops (Some t) s)))
   = fst (op_GetTokenByHash ops h s)"
  using save_token [of t s] by (simp add: get_token)

lemma get_after_revoke:
  assumes "fst (op_GetTokenByHash ops h (snd (op_RevokeToken ops h s))) = Inr t"
  shows "IsRevoked t"
proof (cases "tokens_of s h")
  case None
  with assms revoke_absent [OF None] show ?thesis by (simp add: get_token)
next
  case (Some u)
  with assms revoke_present [OF Some] show ?thesis by (auto simp: get_token IsRevoked_def)
qed

lemma get_other_after_revoke:
  "h \<noteq> k \<Longrightarrow> fst (op_GetTokenByHash ops h (snd (op_RevokeToken ops k s)))
     = fst (op_GetTokenByHash ops h s)"
  using revoke_absent [of s k] revoke_present [of s k]
  by (cases "tokens_of s k") (auto simp: get_token)

end

section \<open>\<open>MemoryStore\<close>\<close>

text \<open>
  The two maps, guarded in Go by one \<open>sync.RWMutex\<close> held for the whole of every operation,
  so that each operation is one atomic step; and the clock \<open>RevokeToken\<close> reads. The maps hold
  copies of what callers pass and hand out copies, so values in them are shared with no caller.
\<close>

record MemoryStore =
  clients :: "string \<Rightarrow> Client option"
  tokens :: "string \<Rightarrow> Token option"
  store_clock :: clock

definition NewMemoryStore :: "clock \<Rightarrow> MemoryStore" where
  "NewMemoryStore clk = \<lparr>clients = Map.empty, tokens = Map.empty, store_clock = clk\<rparr>"

definition CreateClient :: "Client option \<Rightarrow> MemoryStore \<Rightarrow> go_error option \<times> MemoryStore" where
  "CreateClient cp m =
     (case cp of
        None \<Rightarrow> (Some (Wrapf [] (oauth_err ErrInvalidRequest) [Lit '': invalid client'']), m)
      | Some c \<Rightarrow>
          (if ID c = [] then
             (Some (Wrapf [] (oauth_err ErrInvalidRequest) [Lit '': invalid client'']), m)
           else if clients m (ID c) \<noteq> None then
             (Some (Wrapf [] (oauth_err ErrInvalidRequest) [Lit '': client already exists'']), m)
           else (None, m\<lparr>clients := (clients m)(ID c \<mapsto> c)\<rparr>)))"

definition GetClient :: "string \<Rightarrow> MemoryStore \<Rightarrow> (go_error + Client) \<times> MemoryStore" where
  "GetClient clientID m =
     (case clients m clientID of
        None \<Rightarrow> (Inl (oauth_err ErrInvalidClient), m)
      | Some c \<Rightarrow> (Inr c, m))"

definition SaveToken :: "Token option \<Rightarrow> MemoryStore \<Rightarrow> go_error option \<times> MemoryStore" where
  "SaveToken tp m =
     (case tp of
        None \<Rightarrow> (Some (Wrapf [] (oauth_err ErrInvalidRequest) [Lit '': invalid token'']), m)
      | Some t \<Rightarrow>
          (if TokenHash t = [] then
             (Some (Wrapf [] (oauth_err ErrInvalidRequest) [Lit '': invalid token'']), m)
           else (None, m\<lparr>tokens := (tokens m)(TokenHash t \<mapsto> t)\<rparr>)))"

definition GetTokenByHash :: "string \<Rightarrow> MemoryStore \<Rightarrow> (go_error + Token) \<times> MemoryStore" where
  "GetTokenByHash tokenHash m =
     (case tokens m tokenHash of
        None \<Rightarrow> (Inl (oauth_err ErrTokenNotFound), m)
      | Some t \<Rightarrow> (Inr t, m))"

definition store_RevokeToken :: "string \<Rightarrow> MemoryStore \<Rightarrow> go_error option \<times> MemoryStore" where
  "store_RevokeToken tokenHash m =
     (case tokens m tokenHash of
        None \<Rightarrow> (Some (oauth_err ErrTokenNotFound), m)
      | Some t \<Rightarrow>
          (case now (store_clock m) of
             (time, clk) \<Rightarrow>
               (None, m\<lparr>store_clock := clk,
                        tokens := (tokens m)(tokenHash \<mapsto> t\<lparr>RevokedAt := Some time\<rparr>)\<rparr>)))"

definition memory_ops :: "MemoryStore StoreOps" where
  "memory_ops =
     \<lparr>op_CreateClient = CreateClient, op_GetClient = GetClient, op_SaveToken = SaveToken,
      op_GetTokenByHash = GetTokenByHash, op_RevokeToken = store_RevokeToken\<rparr>"

lemmas memory_defs [op_defs] =
  CreateClient_def GetClient_def SaveToken_def GetTokenByHash_def store_RevokeToken_def

lemma memory_ops_simps [simp]:
  "op_CreateClient memory_ops = CreateClient"
  "op_GetClient memory_ops = GetClient"
  "op_SaveToken memory_ops = SaveToken"
  "op_GetTokenByHash memory_ops = GetTokenByHash"
  "op_RevokeToken memory_ops = store_RevokeToken"
  by (simp_all add: memory_ops_def)

interpretation mem: oauth_store memory_ops clients tokens
  by unfold_locales (auto simp: memory_defs now_def split: option.splits)

section \<open>The invariant of the store\<close>

text \<open>
  Every entry is filed under its own key and no key is empty; the keys in use are finitely many.
\<close>

definition store_wf :: "MemoryStore \<Rightarrow> bool" where
  "store_wf m \<longleftrightarrow>
     (\<forall>k c. clients m k = Some c \<longrightarrow> ID c = k \<and> k \<noteq> [])
   \<and> (\<forall>h t. tokens m h = Some t \<longrightarrow> TokenHash t = h \<and> h \<noteq> [])
   \<and> finite (dom (clients m)) \<and> finite (dom (tokens m))"

text \<open>An invariant-keeping operation, whatever it returns.\<close>

definition keeps_wf :: "(MemoryStore \<Rightarrow> 'r \<times> MemoryStore) \<Rightarrow> bool" where
  "keeps_wf f \<longleftrightarrow> (\<forall>m. store_wf m \<longrightarrow> store_wf (snd (f m)))"

lemma store_wf_new: "store_wf (NewMemoryStore clk)"
  by (simp add: store_wf_def NewMemoryStore_def)

lemma store_wf_ops:
  "keeps_wf (CreateClient cp)" "keeps_wf (GetClient k)" "keeps_wf (SaveToken tp)"
  "keeps_wf (GetTokenByHash h)" "keeps_wf (store_RevokeToken h)"
  by (auto simp: keeps_wf_def store_wf_def memory_defs now_def split: option.splits if_splits)

text \<open>
  A stored token never loses its revocation and never changes anything but its revocation time,
  unless it is saved anew.
\<close>

lemma revoked_stays_revoked:
  "tokens m h = Some t \<Longrightarrow> IsRevoked t \<Longrightarrow>
   \<exists>t'. tokens (snd (store_RevokeToken k m)) h = Some t' \<and> IsRevoked t'"
  by (auto simp: memory_defs now_def IsRevoked_def split: option.splits)

end
