(* ===== verification/Telemetry.thy ===== *)
theory Telemetry
  imports OAuthTypes
begin

text \<open>
  \<open>pkg/oauth2/telemetry.go\<close>. The OpenTelemetry SDK and \<open>slog\<close> receive calls; the model keeps
  the calls, in order, in the field \<open>emitted\<close>. A meter is a parameter: it returns an
  instrument (identified by its name) or nil, and perhaps an error. Whether the span of the
  request records is part of the context.
\<close>

section \<open>What telemetry emits\<close>

datatype attr_value = AStr string | AText rendered | AFloat rat

type_synonym attrs = "(string \<times> attr_value) list"

datatype level = LevelInfo | LevelWarn

datatype span_code = CodeOk | CodeError

datatype tel_event =
    CounterAdd string int attrs
  | HistogramRecord string rat attrs
  | SpanSetAttributes attrs
  | SpanRecordError go_error
  | SpanSetStatus span_code rendered
  | LogEntry string level string attrs  \<comment> \<open>logger, level, message, attributes\<close>

record Context =
  span_recording :: bool

record Meter =
  meter_Int64Counter :: "string \<Rightarrow> string option \<times> go_error option"
  meter_Float64Histogram :: "string \<Rightarrow> string option \<times> go_error option"

record Telemetry =
  tracer :: string
  meter :: Meter
  tokenRequestsTotal :: "string option"
  authChecksTotal :: "string option"
  tokenDurationSecs :: "string option"
  logger :: string
  emitted :: "tel_event list"

definition emit :: "tel_event list \<Rightarrow> Telemetry \<Rightarrow> Telemetry" where
  "emit evs t = t\<lparr>emitted := emitted t @ evs\<rparr>"

lemma emitted_emit [simp]: "emitted (emit evs t) = emitted t @ evs"
  by (simp add: emit_def)

lemma emit_frame [simp]:
  "tokenRequestsTotal (emit evs t) = tokenRequestsTotal t"
  "authChecksTotal (emit evs t) = authChecksTotal t"
  "tokenDurationSecs (emit evs t) = tokenDurationSecs t"
  by (simp_all add: emit_def)

section \<open>Construction\<close>

text \<open>An option with a nil argument leaves the field alone.\<close>

datatype TelemetryOption =
    WithTracer "string option" | WithMeter "Meter option" | WithLogger "string option"

fun apply_telemetry_option :: "TelemetryOption \<Rightarrow> Telemetry \<Rightarrow> Telemetry" where
  "apply_telemetry_option (WithTracer tr) t =
     (case tr of None \<Rightarrow> t | Some x \<Rightarrow> t\<lparr>tracer := x\<rparr>)"
| "apply_telemetry_option (WithMeter m) t =
     (case m of None \<Rightarrow> t | Some x \<Rightarrow> t\<lparr>meter := x\<rparr>)"
| "apply_telemetry_option (WithLogger l) t =
     (case l of None \<Rightarrow> t | Some x \<Rightarrow> t\<lparr>logger := x\<rparr>)"

text \<open>These warnings go to the default logger, whatever \<open>WithLogger\<close> says.\<close>

definition warn_metric :: "string \<Rightarrow> string \<Rightarrow> go_error option \<Rightarrow> tel_event list" where
  "warn_metric default_logger name err =
     (case err of
        None \<Rightarrow> []
      | Some e \<Rightarrow>
          [LogEntry default_logger LevelWarn (''Failed to create '' @ name @ '' metric'')
             [(''error'', AText (error_text e))]])"

definition NewTelemetry ::
  "string \<Rightarrow> Meter \<Rightarrow> string \<Rightarrow> TelemetryOption list \<Rightarrow> Telemetry" where
  "NewTelemetry global_tracer global_meter default_logger opts =
     (let t = fold apply_telemetry_option opts
                \<lparr>tracer = global_tracer, meter = global_meter, tokenRequestsTotal = None,
                 authChecksTotal = None, tokenDurationSecs = None, logger = default_logger,
                 emitted = []\<rparr>
      in case meter_Int64Counter (meter t) ''oauth2_token_requests_total'' of (c1, e1) \<Rightarrow>
         case meter_Int64Counter (meter t) ''oauth2_auth_checks_total'' of (c2, e2) \<Rightarrow>
         case meter_Float64Histogram (meter t) ''oauth2_token_duration_seconds'' of (h, e3) \<Rightarrow>
           emit (warn_metric default_logger ''oauth2_token_requests_total'' e1
                 @ warn_metric default_logger ''oauth2_auth_checks_total'' e2
                 @ warn_metric default_logger ''oauth2_token_duration_seconds'' e3)
             (t\<lparr>tokenRequestsTotal := c1, authChecksTotal := c2, tokenDurationSecs := h\<rparr>))"

section \<open>Recording\<close>

definition span_events :: "Context \<Rightarrow> attrs \<Rightarrow> string \<Rightarrow> go_error option \<Rightarrow> tel_event list" where
  "span_events ctx attributes ok_text err =
     (if span_recording ctx then
        SpanSetAttributes attributes
        # (case err of
             Some e \<Rightarrow> [SpanRecordError e, SpanSetStatus CodeError (error_text e)]
           | None \<Rightarrow> [SpanSetStatus CodeOk [Lit ok_text]])
      else [])"

definition err_string :: "go_error option \<Rightarrow> rendered" where
  "err_string err = (case err of None \<Rightarrow> [] | Some e \<Rightarrow> error_text e)"

definition RecordTokenRequest ::
  "Context \<Rightarrow> string \<Rightarrow> string \<Rightarrow> string \<Rightarrow> string \<Rightarrow> duration \<Rightarrow> go_error option
   \<Rightarrow> Telemetry \<Rightarrow> Telemetry" where
  "RecordTokenRequest ctx grantType status clientID resource dur err t =
     emit
       ((case tokenRequestsTotal t of
           Some c \<Rightarrow> [CounterAdd c 1 [(''grant_type'', AStr grantType), (''status'', AStr status)]]
         | None \<Rightarrow> [])
        @ (case tokenDurationSecs t of
             Some h \<Rightarrow> [HistogramRecord h (duration_Seconds dur) [(''operation'', AStr ''issue_token'')]]
           | None \<Rightarrow> [])
        @ span_events ctx
            [(''oauth2.status'', AStr status), (''oauth2.grant_type'', AStr grantType),
             (''oauth2.client_id'', AStr clientID), (''oauth2.resource'', AStr resource)]
            ''token issued'' err
        @ (if status = ''ok'' then
             [LogEntry (logger t) LevelInfo ''OAuth2 token issued successfully''
                [(''log_type'', AStr ''audit''), (''event'', AStr ''oauth2_token_issued''),
                 (''client_id'', AStr clientID), (''resource'', AStr resource),
                 (''grant_type'', AStr grantType), (''duration_ms'', AFloat (duration_millis dur))]]
           else
             [LogEntry (logger t) LevelWarn ''OAuth2 token issuance rejected''
                [(''log_type'', AStr ''audit''), (''event'', AStr ''oauth2_token_denied''),
                 (''status'', AStr status), (''client_id'', AStr clientID),
                 (''resource'', AStr resource), (''grant_type'', AStr grantType),
                 (''error'', AText (err_string err)),
                 (''duration_ms'', AFloat (duration_millis dur))]])) t"

definition RecordAuthCheck ::
  "Context \<Rightarrow> string \<Rightarrow> string \<Rightarrow> string \<Rightarrow> string \<Rightarrow> string \<Rightarrow> string \<Rightarrow> go_error option
   \<Rightarrow> Telemetry \<Rightarrow> Telemetry" where
  "RecordAuthCheck ctx status clientID targetResource reqResource path meth err t =
     emit
       ((case authChecksTotal t of
           Some c \<Rightarrow> [CounterAdd c 1 [(''status'', AStr status)]]
         | None \<Rightarrow> [])
        @ span_events ctx
            [(''oauth2.status'', AStr status), (''oauth2.client_id'', AStr clientID),
             (''oauth2.token_resource'', AStr targetResource),
             (''oauth2.request_resource'', AStr reqResource)]
            ''authorized'' err
        @ (if status = ''ok'' then
             [LogEntry (logger t) LevelInfo ''OAuth2 authorization granted''
                [(''log_type'', AStr ''audit''), (''event'', AStr ''oauth2_auth_granted''),
                 (''client_id'', AStr clientID), (''resource'', AStr targetResource),
                 (''http_path'', AStr path), (''http_method'', AStr meth)]]
           else
             [LogEntry (logger t) LevelWarn ''OAuth2 authorization denied''
                [(''log_type'', AStr ''audit''), (''event'', AStr ''oauth2_auth_denied''),
                 (''status'', AStr status), (''client_id'', AStr clientID),
                 (''token_resource'', AStr targetResource), (''request_resource'', AStr reqResource),
                 (''http_path'', AStr path), (''http_method'', AStr meth),
                 (''error'', AText (err_string err))]])) t"

section \<open>The audit trail\<close>

fun is_audit :: "tel_event \<Rightarrow> bool" where
  "is_audit (LogEntry l lvl msg as) = ((''log_type'', AStr ''audit'') \<in> set as)"
| "is_audit _ = False"

definition audit_log :: "Telemetry \<Rightarrow> tel_event list" where
  "audit_log t = filter is_audit (emitted t)"

lemma span_events_no_audit [simp]: "filter is_audit (span_events ctx as okt err) = []"
  by (auto simp: span_events_def split: option.splits)

lemma RecordTokenRequest_audit:
  "\<exists>e. audit_log (RecordTokenRequest ctx g st cid res d err t) = audit_log t @ [e]"
  by (auto simp: audit_log_def RecordTokenRequest_def split: option.splits)

lemma RecordAuthCheck_audit:
  "\<exists>e. audit_log (RecordAuthCheck ctx st cid tr rr p m err t) = audit_log t @ [e]"
  by (auto simp: audit_log_def RecordAuthCheck_def split: option.splits)

end
