(* ===== verification/GoSha256.thy ===== *)
theory GoSha256
  imports GoEncoding
begin

text \<open>
  \<open>crypto/sha256.Sum256\<close> (FIPS 180-4) on byte slices, as \<open>ComputeTokenHash\<close> calls it, with
  \<open>32 word\<close> arithmetic as the standard has it. The fact the token
  store needs is that the digest always has 32 bytes.
\<close>

unbundle bit_operations_syntax

type_synonym w32 = "32 word"

definition rotr32 :: "nat \<Rightarrow> w32 \<Rightarrow> w32" where
  "rotr32 n x = (drop_bit n x) OR (push_bit (32 - n) x)"

text \<open>The 64 round constants and the initial state of FIPS 180-4, in decimal.\<close>

definition sha_K :: "w32 list" where
  "sha_K = [
     1116352408, 1899447441, 3049323471, 3921009573, 961987163, 1508970993, 2453635748,
     2870763221, 3624381080, 310598401, 607225278, 1426881987, 1925078388, 2162078206,
     2614888103, 3248222580, 3835390401, 4022224774, 264347078, 604807628, 770255983,
     1249150122, 1555081692, 1996064986, 2554220882, 2821834349, 2952996808, 3210313671,
     3336571891, 3584528711, 113926993, 338241895, 666307205, 773529912, 1294757372,
     1396182291, 1695183700, 1986661051, 2177026350, 2456956037, 2730485921, 2820302411,
     3259730800, 3345764771, 3516065817, 3600352804, 4094571909, 275423344, 430227734,
     506948616, 659060556, 883997877, 958139571, 1322822218, 1537002063, 1747873779,
     1955562222, 2024104815, 2227730452, 2361852424, 2428436474, 2756734187, 3204031479,
     3329325298]"

datatype sha_state = Regs w32 w32 w32 w32 w32 w32 w32 w32

definition sha_init :: sha_state where
  "sha_init = Regs 1779033703 3144134277 1013904242 2773480762
                   1359893119 2600822924 528734635 1541459225"

text \<open>The six functions of the standard, and one round as an update of the eight registers.\<close>

definition sha_Ch :: "w32 \<Rightarrow> w32 \<Rightarrow> w32 \<Rightarrow> w32" where
  "sha_Ch x y z = (x AND y) XOR (NOT x AND z)"

definition sha_Maj :: "w32 \<Rightarrow> w32 \<Rightarrow> w32 \<Rightarrow> w32" where
  "sha_Maj x y z = (x AND y) XOR (x AND z) XOR (y AND z)"

definition sha_S0 :: "w32 \<Rightarrow> w32" where
  "sha_S0 x = rotr32 2 x XOR rotr32 13 x XOR rotr32 22 x"

definition sha_S1 :: "w32 \<Rightarrow> w32" where
  "sha_S1 x = rotr32 6 x XOR rotr32 11 x XOR rotr32 25 x"

definition sha_s0 :: "w32 \<Rightarrow> w32" where
  "sha_s0 x = rotr32 7 x XOR rotr32 18 x XOR drop_bit 3 x"

definition sha_s1 :: "w32 \<Rightarrow> w32" where
  "sha_s1 x = rotr32 17 x XOR rotr32 19 x XOR drop_bit 10 x"

definition sha_mix :: "w32 \<Rightarrow> w32 \<Rightarrow> sha_state \<Rightarrow> sha_state" where
  "sha_mix t1 t2 st = (case st of Regs a b c d e f g h \<Rightarrow> Regs (t1 + t2) a b c (d + t1) e f g)"

text \<open>The message schedule, the latest word first while it is extended.\<close>

fun sha_schedule :: "nat \<Rightarrow> w32 list \<Rightarrow> w32 list" where
  "sha_schedule 0 ws = rev ws"
| "sha_schedule (Suc n) ws =
     sha_schedule n ((sha_s1 (ws ! 1) + ws ! 6 + sha_s0 (ws ! 14) + ws ! 15) # ws)"

fun sha_round :: "sha_state \<Rightarrow> w32 \<times> w32 \<Rightarrow> sha_state" where
  "sha_round (Regs a b c d e f g h) (k, w) =
     sha_mix (h + sha_S1 e + sha_Ch e f g + k + w) (sha_S0 a + sha_Maj a b c)
       (Regs a b c d e f g h)"

fun sha_add :: "sha_state \<Rightarrow> sha_state \<Rightarrow> sha_state" where
  "sha_add (Regs a b c d e f g h) (Regs a' b' c' d' e' f' g' h') =
     Regs (a + a') (b + b') (c + c') (d + d') (e + e') (f + f') (g + g') (h + h')"

fun be_words :: "bytes \<Rightarrow> w32 list" where
  "be_words (p # q # r # s # bs) =
     of_nat (((byte_val p * 256 + byte_val q) * 256 + byte_val r) * 256 + byte_val s) # be_words bs"
| "be_words bs = []"

definition sha_block :: "sha_state \<Rightarrow> bytes \<Rightarrow> sha_state" where
  "sha_block st blk =
     sha_add st (foldl sha_round st (zip sha_K (sha_schedule 48 (rev (be_words blk)))))"

text \<open>Padding: \<open>0x80\<close>, zeros, and the bit length as eight big-endian bytes.\<close>

definition be_bytes :: "nat \<Rightarrow> nat \<Rightarrow> bytes" where
  "be_bytes k n = map (\<lambda>i. char_of (n div 256 ^ i)) (rev [0..<k])"

definition sha_pad :: "bytes \<Rightarrow> bytes" where
  "sha_pad m =
     m @ char_of (0x80 :: nat) # replicate ((119 - length m mod 64) mod 64) (char_of (0 :: nat))
       @ be_bytes 8 (8 * length m)"

fun sha_blocks :: "sha_state \<Rightarrow> nat \<Rightarrow> bytes \<Rightarrow> sha_state" where
  "sha_blocks st 0 m = st"
| "sha_blocks st (Suc n) m = sha_blocks (sha_block st (take 64 m)) n (drop 64 m)"

definition word_bytes :: "w32 \<Rightarrow> bytes" where
  "word_bytes w = be_bytes 4 (unat w)"

fun sha_digest :: "sha_state \<Rightarrow> bytes" where
  "sha_digest (Regs a b c d e f g h) = concat (map word_bytes [a, b, c, d, e, f, g, h])"

definition Sum256 :: "bytes \<Rightarrow> bytes" where
  "Sum256 m = (let p = sha_pad m in sha_digest (sha_blocks sha_init (length p div 64) p))"

lemma length_be_bytes [simp]: "length (be_bytes k n) = k"
  by (simp add: be_bytes_def)

text \<open>Padding fills whole blocks.\<close>

lemma pad_arith:
  fixes q r :: nat
  assumes "r < 64"
  shows "(q * 64 + r + 9 + (119 - r) mod 64) mod 64 = 0"
proof (cases "r \<le> 55")
  case True
  then have "(119 - r) mod 64 = 55 - r" by (simp add: mod_if)
  with True have "q * 64 + r + 9 + (119 - r) mod 64 = (q + 1) * 64" by simp
  then show ?thesis by (metis mod_mult_self2_is_0)
next
  case False
  with assms have "(119 - r) mod 64 = 119 - r" by simp
  with assms have "q * 64 + r + 9 + (119 - r) mod 64 = (q + 2) * 64" by simp
  then show ?thesis by (metis mod_mult_self2_is_0)
qed

lemma sha_pad_whole_blocks: "length (sha_pad m) mod 64 = 0"
proof -
  have "length (sha_pad m)
      = length m div 64 * 64 + length m mod 64 + 9 + (119 - length m mod 64) mod 64"
    by (simp add: sha_pad_def)
  also have "\<dots> mod 64 = 0" by (rule pad_arith) simp
  finally show ?thesis .
qed

lemma length_sha_digest: "length (sha_digest st) = 32"
  by (cases st) (simp add: word_bytes_def)

lemma length_Sum256: "length (Sum256 m) = 32"
  by (simp add: Sum256_def Let_def length_sha_digest)

text \<open>A message of at most 55 bytes is one block.\<close>

lemma Sum256_one_block:
  assumes "length m \<le> 55"
  shows "Sum256 m = sha_digest (sha_block sha_init (sha_pad m))"
proof -
  have "119 - length m = (55 - length m) + 64" using assms by simp
  then have "(119 - length m) mod 64 = 55 - length m" using assms by (simp only: mod_add_self2) simp
  with assms have "length (sha_pad m) = 64" by (simp add: sha_pad_def)
  then show ?thesis by (simp add: Sum256_def Let_def)
qed

end
