(* ===== verification/Service.thy ===== *)
theory Service
  imports OAuthStore Telemetry GoSha256
begin

text \<open>
  \<open>pkg/oauth2/service.go\<close>: registration, token issuance, validation, introspection and
  revocation, over any store. A method takes the service and returns its result with the
  changed service: the store, the random reader, the clocks and the emitted telemetry move.
  Third-party code is the record \<open>Lib\<close>: bcrypt (its \<open>n\<close>-th call may draw a different salt,
  so hashing takes the number of the call) and the IP-literal rule of \<open>net/url\<close>.
\<close>

section \<open>The service and its options\<close>

record Lib =
  ip_literal :: "string \<Rightarrow> rendered option"
  bcrypt_GenerateFromPassword :: "nat \<Rightarrow> bytes \<Rightarrow> int \<Rightarrow> go_error + bytes"
  bcrypt_CompareHashAndPassword :: "bytes \<Rightarrow> bytes \<Rightarrow> go_error option"
  bcrypt_DefaultCost :: int

record 'st Service =
  store :: 'st
  telemetry :: Telemetry
  tokenTTL :: duration
  bcryptCost :: int
  randReader :: reader
  nowFunc :: clock
  wallClock :: clock  \<comment> \<open>\<open>time.Now\<close>, read by \<open>time.Since\<close>\<close>
  bcryptCalls :: nat  \<comment> \<open>hashes computed so far\<close>

definition defaultTokenTTL :: duration where
  "defaultTokenTTL = 3600 * Second"

definition tokenEntropyLen :: nat where
  "tokenEntropyLen = 32"

datatype ServiceOption =
    WithRandReader "reader option"
  | WithBcryptCost int
  | WithTokenTTL duration
  | WithTelemetry "Telemetry option"
  | WithNowFunc "clock option"

fun apply_service_option :: "ServiceOption \<Rightarrow> 'st Service \<Rightarrow> 'st Service" where
  "apply_service_option (WithRandReader r) s =
     (case r of None \<Rightarrow> s | Some x \<Rightarrow> s\<lparr>randReader := x\<rparr>)"
| "apply_service_option (WithBcryptCost c) s = (if c > 0 then s\<lparr>bcryptCost := c\<rparr> else s)"
| "apply_service_option (WithTokenTTL d) s = (if sint d > 0 then s\<lparr>tokenTTL := d\<rparr> else s)"
| "apply_service_option (WithTelemetry t) s =
     (case t of None \<Rightarrow> s | Some x \<Rightarrow> s\<lparr>telemetry := x\<rparr>)"
| "apply_service_option (WithNowFunc f) s =
     (case f of None \<Rightarrow> s | Some x \<Rightarrow> s\<lparr>nowFunc := x\<rparr>)"

text \<open>\<open>NewService\<close>: \<open>crypto/rand\<close>, \<open>time.Now\<close> and the global telemetry are given.\<close>

definition NewService ::
  "Lib \<Rightarrow> reader \<Rightarrow> clock \<Rightarrow> Telemetry \<Rightarrow> 'st \<Rightarrow> ServiceOption list \<Rightarrow> 'st Service" where
  "NewService lib crypto_rand time_now new_telemetry st opts =
     fold apply_service_option opts
       \<lparr>store = st, telemetry = new_telemetry, tokenTTL = defaultTokenTTL,
        bcryptCost = bcrypt_DefaultCost lib, randReader = crypto_rand, nowFunc = time_now,
        wallClock = time_now, bcryptCalls = 0\<rparr>"

section \<open>Helpers\<close>

definition ComputeTokenHash :: "string \<Rightarrow> string" where
  "ComputeTokenHash rawToken = hex_encode (Sum256 rawToken)"

definition generateRandomHex :: "nat \<Rightarrow> 'st Service \<Rightarrow> (go_error + string) \<times> 'st Service" where
  "generateRandomHex nBytes s =
     (case ReadFull [] nBytes (randReader s) of
        (Inl e, r) \<Rightarrow> (Inl e, s\<lparr>randReader := r\<rparr>)
      | (Inr b, r) \<Rightarrow> (Inr (hex_encode b), s\<lparr>randReader := r\<rparr>))"

definition generateRandomBase64 :: "nat \<Rightarrow> 'st Service \<Rightarrow> (go_error + string) \<times> 'st Service" where
  "generateRandomBase64 nBytes s =
     (case ReadFull [] nBytes (randReader s) of
        (Inl e, r) \<Rightarrow> (Inl e, s\<lparr>randReader := r\<rparr>)
      | (Inr b, r) \<Rightarrow> (Inr (RawURLEncoding b), s\<lparr>randReader := r\<rparr>))"

fun containsString :: "string list \<Rightarrow> string \<Rightarrow> bool" where
  "containsString [] s = False"
| "containsString (item # items) s = (if item = s then True else containsString items s)"

lemma containsString_iff [simp]: "containsString xs s \<longleftrightarrow> s \<in> set xs"
  by (induction xs) auto

text \<open>\<open>s.nowFunc()\<close>\<close>

definition service_now :: "'st Service \<Rightarrow> time \<times> 'st Service" where
  "service_now s = (case now (nowFunc s) of (t, c) \<Rightarrow> (t, s\<lparr>nowFunc := c\<rparr>))"

section \<open>Registration\<close>

text \<open>The loop over the allowed resources: the first that is not valid, with its error.\<close>

fun first_invalid :: "(string \<Rightarrow> rendered option) \<Rightarrow> string list \<Rightarrow> (string \<times> go_error) option" where
  "first_invalid ip [] = None"
| "first_invalid ip (res # rs) =
     (case ValidateAbsoluteURI ip res of Some e \<Rightarrow> Some (res, e) | None \<Rightarrow> first_invalid ip rs)"

lemma first_invalid_None: "first_invalid ip rs = None \<longleftrightarrow> (\<forall>r \<in> set rs. ValidateAbsoluteURI ip r = None)"
  by (induction rs) (auto split: option.splits)

definition RegisterClient ::
  "'st StoreOps \<Rightarrow> Lib \<Rightarrow> RegisterClientRequest option \<Rightarrow> 'st Service
   \<Rightarrow> (go_error + RegisterClientResponse) \<times> 'st Service" where
  "RegisterClient ops lib reqp s =
     (case reqp of
        None \<Rightarrow> (Inl (Wrapf [] (oauth_err ErrInvalidRequest) [Lit '': name is required'']), s)
      | Some req \<Rightarrow>
       if TrimSpace (reg_Name req) = [] then
         (Inl (Wrapf [] (oauth_err ErrInvalidRequest) [Lit '': name is required'']), s)
       else case first_invalid (ip_literal lib) (reg_AllowedResources req) of
        Some (res, e) \<Rightarrow>
          (Inl (Wrapf [] (oauth_err ErrInvalidTarget)
             ([Lit '': invalid allowed_resource '', Quoted res, Lit '': ''] @ error_text e)), s)
      | None \<Rightarrow>
       (case generateRandomHex 16 s of
          (Inl e, s) \<Rightarrow> (Inl (Wrapf [Lit ''failed to generate client_id: ''] e []), s)
        | (Inr clientID, s) \<Rightarrow>
       (case generateRandomBase64 32 s of
          (Inl e, s) \<Rightarrow> (Inl (Wrapf [Lit ''failed to generate client_secret: ''] e []), s)
        | (Inr rawSecret, s) \<Rightarrow>
       (let hashed = bcrypt_GenerateFromPassword lib (bcryptCalls s) rawSecret (bcryptCost s);
            s = s\<lparr>bcryptCalls := Suc (bcryptCalls s)\<rparr>
        in case hashed of
          Inl e \<Rightarrow> (Inl (Wrapf [Lit ''failed to hash secret: ''] e []), s)
        | Inr hashedSecret \<Rightarrow>
       (case service_now s of (now_time, s) \<Rightarrow>
        let client = \<lparr>ID = clientID, SecretHash = hashedSecret, Name = reg_Name req,
                      AllowedResources = reg_AllowedResources req,
                      AllowedScopes = reg_AllowedScopes req, CreatedAt = now_time\<rparr>
        in case op_CreateClient ops (Some client) (store s) of
             (Some e, st) \<Rightarrow> (Inl (Wrapf [Lit ''failed to store client: ''] e []), s\<lparr>store := st\<rparr>)
           | (None, st) \<Rightarrow>
               (Inr \<lparr>resp_ClientID = clientID, resp_ClientSecret = rawSecret,
                     resp_Name = Name client, resp_AllowedResources = AllowedResources client,
                     resp_AllowedScopes = AllowedScopes client,
                     resp_CreatedAt = CreatedAt client\<rparr>, s\<lparr>store := st\<rparr>))))))"

section \<open>Issuing tokens\<close>

text \<open>\<open>s.telemetry.RecordTokenRequest(..., time.Since(start), err)\<close>\<close>

definition record_token_request ::
  "Context \<Rightarrow> string \<Rightarrow> string \<Rightarrow> string \<Rightarrow> string \<Rightarrow> time \<Rightarrow> go_error option
   \<Rightarrow> 'st Service \<Rightarrow> 'st Service" where
  "record_token_request ctx grant status cid res start err s =
     (case now (wallClock s) of
        (t, c) \<Rightarrow>
          s\<lparr>wallClock := c,
            telemetry := RecordTokenRequest ctx grant status cid res (time_Sub t start) err
                           (telemetry s)\<rparr>)"

text \<open>
  The checks of \<open>IssueToken\<close> before a token is made, in the code's order. A rejection carries
  the status tag of the telemetry and the error, which is both recorded and returned.
\<close>

definition authorize_request ::
  "'st StoreOps \<Rightarrow> Lib \<Rightarrow> TokenRequest \<Rightarrow> 'st \<Rightarrow> ((string \<times> go_error) + Client) \<times> 'st" where
  "authorize_request ops lib req st =
     (if req_GrantType req \<noteq> ''client_credentials'' then
        (Inl (''invalid_grant'', oauth_err ErrInvalidGrant), st)
      else case (if req_Resource req \<noteq> []
                 then ValidateAbsoluteURI (ip_literal lib) (req_Resource req) else None) of
        Some e \<Rightarrow> (Inl (''invalid_resource'', e), st)
      | None \<Rightarrow>
     (case op_GetClient ops (req_ClientID req) st of
        (Inl e, st) \<Rightarrow> (Inl (''invalid_client'', oauth_err ErrInvalidClient), st)
      | (Inr client, st) \<Rightarrow>
      if bcrypt_CompareHashAndPassword lib (SecretHash client) (req_ClientSecret req) \<noteq> None then
        (Inl (''invalid_client'', oauth_err ErrInvalidClient), st)
      else if AllowedResources client \<noteq> []
          \<and> (req_Resource req = [] \<or> \<not> containsString (AllowedResources client) (req_Resource req)) then
        (Inl (''unauthorized_resource'', oauth_err ErrInvalidTarget), st)
      else if AllowedScopes client \<noteq> [] \<and> req_Scope req \<noteq> []
          \<and> \<not> list_all (containsString (AllowedScopes client)) (Fields (req_Scope req)) then
        (Inl (''unauthorized_scope'', oauth_err ErrScopeMismatch), st)
      else (Inr client, st)))"

text \<open>Making, storing and recording the token of an authorized request.\<close>

definition issue_authorized ::
  "'st StoreOps \<Rightarrow> Context \<Rightarrow> time \<Rightarrow> TokenRequest \<Rightarrow> Client \<Rightarrow> 'st Service
   \<Rightarrow> (go_error + TokenResponse) \<times> 'st Service" where
  "issue_authorized ops ctx start req client s =
     (let rec = (\<lambda>status err. record_token_request ctx (req_GrantType req) status
                   (req_ClientID req) (req_Resource req) start err)
      in case generateRandomBase64 tokenEntropyLen s of
        (Inl e, s) \<Rightarrow>
          (Inl (Wrapf [Lit ''failed to generate token: ''] e []), rec ''internal_error'' (Some e) s)
      | (Inr rawToken, s) \<Rightarrow>
     (let opaqueToken = ''opq_'' @ rawToken;
          tokenHash = ComputeTokenHash opaqueToken
      in case service_now s of (now_time, s) \<Rightarrow>
      let token = \<lparr>TokenHash = tokenHash, ClientID = ID client, Resource = req_Resource req,
                   Scope = req_Scope req, ExpiresAt = time_Add now_time (tokenTTL s),
                   IssuedAt = now_time, RevokedAt = None\<rparr>
      in case op_SaveToken ops (Some token) (store s) of
           (Some e, st) \<Rightarrow>
             (Inl (Wrapf [Lit ''failed to store token: ''] e []),
              rec ''internal_error'' (Some e) (s\<lparr>store := st\<rparr>))
         | (None, st) \<Rightarrow>
             (Inr \<lparr>AccessToken = opaqueToken, TokenType = ''Bearer'',
                   ExpiresIn = float_to_int64 (duration_Seconds (tokenTTL s)),
                   tresp_Resource = req_Resource req, tresp_Scope = req_Scope req\<rparr>,
              rec ''ok'' None (s\<lparr>store := st\<rparr>))))"

definition IssueToken ::
  "'st StoreOps \<Rightarrow> Lib \<Rightarrow> Context \<Rightarrow> TokenRequest option \<Rightarrow> 'st Service
   \<Rightarrow> (go_error + TokenResponse) \<times> 'st Service" where
  "IssueToken ops lib ctx reqp s =
     (case service_now s of (start, s) \<Rightarrow>
      case reqp of
        None \<Rightarrow>
          (Inl (oauth_err ErrInvalidRequest),
           record_token_request ctx [] ''invalid_request'' [] [] start
             (Some (oauth_err ErrInvalidRequest)) s)
      | Some req \<Rightarrow>
     (case authorize_request ops lib req (store s) of
        (Inl (status, e), st) \<Rightarrow>
          (Inl e, record_token_request ctx (req_GrantType req) status (req_ClientID req)
                    (req_Resource req) start (Some e) (s\<lparr>store := st\<rparr>))
      | (Inr client, st) \<Rightarrow> issue_authorized ops ctx start req client (s\<lparr>store := st\<rparr>)))"

section \<open>Validation, introspection, revocation\<close>

definition ValidateToken ::
  "'st StoreOps \<Rightarrow> string \<Rightarrow> 'st Service \<Rightarrow> (go_error + Token) \<times> 'st Service" where
  "ValidateToken ops rawToken s =
     (if rawToken = [] then (Inl (oauth_err ErrInvalidRequest), s)
      else case op_GetTokenByHash ops (ComputeTokenHash rawToken) (store s) of
        (Inl e, st) \<Rightarrow>
          (if errors_Is e (OAuthErr ErrTokenNotFound) then
             (Inl (oauth_err ErrTokenNotFound), s\<lparr>store := st\<rparr>)
           else (Inl (Wrapf [Lit ''failed to retrieve token: ''] e []), s\<lparr>store := st\<rparr>))
      | (Inr token, st) \<Rightarrow>
          (case service_now (s\<lparr>store := st\<rparr>) of (now_time, s) \<Rightarrow>
           if IsRevoked token then (Inl (oauth_err ErrTokenRevoked), s)
           else if IsExpired token now_time then (Inl (oauth_err ErrTokenExpired), s)
           else (Inr token, s)))"

definition IntrospectToken ::
  "'st StoreOps \<Rightarrow> string \<Rightarrow> 'st Service \<Rightarrow> (go_error + IntrospectResponse) \<times> 'st Service" where
  "IntrospectToken ops rawToken s =
     (case ValidateToken ops rawToken s of
        (Inl e, s) \<Rightarrow>
          (if errors_Is e (OAuthErr ErrTokenNotFound) \<or> errors_Is e (OAuthErr ErrTokenExpired)
              \<or> errors_Is e (OAuthErr ErrTokenRevoked) \<or> errors_Is e (OAuthErr ErrInvalidRequest)
           then (Inr inactive_response, s)
           else (Inl e, s))
      | (Inr token, s) \<Rightarrow>
          (Inr \<lparr>Active = True, intro_ClientID = ClientID token, intro_Resource = Resource token,
                intro_Scope = Scope token, Exp = time_Unix (ExpiresAt token),
                intro_TokenType = ''Bearer''\<rparr>, s))"

definition RevokeToken ::
  "'st StoreOps \<Rightarrow> string \<Rightarrow> 'st Service \<Rightarrow> go_error option \<times> 'st Service" where
  "RevokeToken ops rawToken s =
     (if rawToken = [] then (None, s)
      else case op_RevokeToken ops (ComputeTokenHash rawToken) (store s) of
        (err, st) \<Rightarrow>
          (case err of
             Some e \<Rightarrow>
               (if \<not> errors_Is e (OAuthErr ErrTokenNotFound)
                then (Some (Wrapf [Lit ''failed to revoke token: ''] e []), s\<lparr>store := st\<rparr>)
                else (None, s\<lparr>store := st\<rparr>))
           | None \<Rightarrow> (None, s\<lparr>store := st\<rparr>)))"

end
