(* ===== verification/Service_Correct.thy ===== *)
theory Service_Correct
  imports Service
begin

text \<open>
  What \<open>pkg/oauth2/service.go\<close> guarantees. The lemmas on the service over any store that
  keeps the contract \<open>oauth_store\<close> are proved inside that locale; the properties at the end
  are their instances for \<open>MemoryStore\<close>.
\<close>

section \<open>Frames\<close>

lemma record_token_request_frame [simp, frame]:
  "store (record_token_request ctx g st cid res start err s) = store s"
  "tokenTTL (record_token_request ctx g st cid res start err s) = tokenTTL s"
  "bcryptCost (record_token_request ctx g st cid res start err s) = bcryptCost s"
  "randReader (record_token_request ctx g st cid res start err s) = randReader s"
  "nowFunc (record_token_request ctx g st cid res start err s) = nowFunc s"
  "bcryptCalls (record_token_request ctx g st cid res start err s) = bcryptCalls s"
  by (simp_all add: record_token_request_def now_def)

lemma service_now_eq:
  "service_now s = (next_reading (nowFunc s), s\<lparr>nowFunc := snd (now (nowFunc s))\<rparr>)"
  by (simp add: service_now_def now_def)

lemma generateRandomBase64_cases:
  obtains (fail) e r where "generateRandomBase64 n s = (Inl e, s\<lparr>randReader := r\<rparr>)"
  | (ok) b r where "ReadFull [] n (randReader s) = (Inr b, r)" "length b = n"
      "generateRandomBase64 n s = (Inr (RawURLEncoding b), s\<lparr>randReader := r\<rparr>)"
proof (cases "ReadFull [] n (randReader s)")
  case (Pair res r)
  show ?thesis
  proof (cases res)
    case (Inl e)
    with Pair show ?thesis by (intro fail) (simp add: generateRandomBase64_def)
  next
    case (Inr b)
    with Pair show ?thesis
      by (intro ok) (auto simp: generateRandomBase64_def dest: ReadFull_length)
  qed
qed

lemma generateRandomHex_cases:
  obtains (fail) e r where "generateRandomHex n s = (Inl e, s\<lparr>randReader := r\<rparr>)"
  | (ok) b r where "ReadFull [] n (randReader s) = (Inr b, r)" "length b = n"
      "generateRandomHex n s = (Inr (hex_encode b), s\<lparr>randReader := r\<rparr>)"
proof (cases "ReadFull [] n (randReader s)")
  case (Pair res r)
  show ?thesis
  proof (cases res)
    case (Inl e)
    with Pair show ?thesis by (intro fail) (simp add: generateRandomHex_def)
  next
    case (Inr b)
    with Pair show ?thesis
      by (intro ok) (auto simp: generateRandomHex_def dest: ReadFull_length)
  qed
qed

lemma ComputeTokenHash_nonempty [simp]: "ComputeTokenHash t \<noteq> []"
  using length_hex_encode [of "Sum256 t"] by (auto simp: ComputeTokenHash_def length_Sum256)

section \<open>The policy of the token endpoint\<close>

definition client_may :: "Lib \<Rightarrow> TokenRequest \<Rightarrow> Client \<Rightarrow> bool" where
  "client_may lib req c \<longleftrightarrow>
     req_GrantType req = ''client_credentials''
   \<and> (req_Resource req = [] \<or> ValidateAbsoluteURI (ip_literal lib) (req_Resource req) = None)
   \<and> bcrypt_CompareHashAndPassword lib (SecretHash c) (req_ClientSecret req) = None
   \<and> (AllowedResources c = []
        \<or> req_Resource req \<noteq> [] \<and> req_Resource req \<in> set (AllowedResources c))
   \<and> (AllowedScopes c = [] \<or> set (Fields (req_Scope req)) \<subseteq> set (AllowedScopes c))"

lemma list_all_contains: "list_all (containsString xs) ys \<longleftrightarrow> set ys \<subseteq> set xs"
  by (auto simp: list_all_iff)

lemma Fields_Nil [simp]: "Fields [] = []"
  by (simp add: Fields_def flush_def)

text \<open>
  What \<open>IssueToken\<close> returns and stores for an authorized request: the token text made of the
  random bytes, the record under its hash, and the time on it, the second reading of \<open>nowFunc\<close>.
\<close>

definition opaque_token :: "bytes \<Rightarrow> string" where
  "opaque_token b = ''opq_'' @ RawURLEncoding b"

definition issue_time :: "'st Service \<Rightarrow> time" where
  "issue_time s = reading (nowFunc s) (Suc (readings_taken (nowFunc s)))"

definition new_token :: "string \<Rightarrow> TokenRequest \<Rightarrow> Client \<Rightarrow> time \<Rightarrow> duration \<Rightarrow> Token" where
  "new_token opaque req c t ttl =
     \<lparr>TokenHash = ComputeTokenHash opaque, ClientID = ID c, Resource = req_Resource req,
      Scope = req_Scope req, ExpiresAt = time_Add t ttl, IssuedAt = t, RevokedAt = None\<rparr>"

definition new_response :: "string \<Rightarrow> TokenRequest \<Rightarrow> duration \<Rightarrow> TokenResponse" where
  "new_response opaque req ttl =
     \<lparr>AccessToken = opaque, TokenType = ''Bearer'',
      ExpiresIn = float_to_int64 (duration_Seconds ttl),
      tresp_Resource = req_Resource req, tresp_Scope = req_Scope req\<rparr>"

text \<open>What \<open>RegisterClient\<close> stores and returns.\<close>

definition registered_client :: "RegisterClientRequest \<Rightarrow> string \<Rightarrow> bytes \<Rightarrow> time \<Rightarrow> Client" where
  "registered_client req cid h t =
     \<lparr>ID = cid, SecretHash = h, Name = reg_Name req,
      AllowedResources = reg_AllowedResources req, AllowedScopes = reg_AllowedScopes req,
      CreatedAt = t\<rparr>"

definition register_response ::
  "RegisterClientRequest \<Rightarrow> string \<Rightarrow> string \<Rightarrow> time \<Rightarrow> RegisterClientResponse" where
  "register_response req cid secret t =
     \<lparr>resp_ClientID = cid, resp_ClientSecret = secret, resp_Name = reg_Name req,
      resp_AllowedResources = reg_AllowedResources req,
      resp_AllowedScopes = reg_AllowedScopes req, resp_CreatedAt = t\<rparr>"

lemma new_token_lifetime:
  "ExpiresAt (new_token op req c t ttl) = time_Add (IssuedAt (new_token op req c t ttl)) ttl"
  by (simp add: new_token_def)

lemma TokenHash_new_token [simp]: "TokenHash (new_token op req c t ttl) = ComputeTokenHash op"
  by (simp add: new_token_def)

lemma ID_registered_client [simp]: "ID (registered_client req cid h t) = cid"
  by (simp add: registered_client_def)

context oauth_store
begin

lemma GetClient_pair:
  "op_GetClient ops k s = (r, s') \<Longrightarrow>
   r = (case clients_of s k of None \<Rightarrow> Inl (oauth_err ErrInvalidClient) | Some c \<Rightarrow> Inr c)
   \<and> clients_of s' = clients_of s \<and> tokens_of s' = tokens_of s"
  using get_client [of k s] get_client_frame [of k s] by simp

lemma GetToken_pair:
  "op_GetTokenByHash ops h s = (r, s') \<Longrightarrow>
   r = (case tokens_of s h of None \<Rightarrow> Inl (oauth_err ErrTokenNotFound) | Some t \<Rightarrow> Inr t)
   \<and> clients_of s' = clients_of s \<and> tokens_of s' = tokens_of s"
  using get_token [of h s] get_token_frame [of h s] by simp

lemma authorize_frame:
  "authorize_request ops lib req st = (r, st') \<Longrightarrow>
   clients_of st' = clients_of st \<and> tokens_of st' = tokens_of st"
  by (auto simp: authorize_request_def dest!: GetClient_pair
      split: if_splits option.splits prod.splits sum.splits)

lemma authorize_ok:
  "(\<exists>st'. authorize_request ops lib req st = (Inr c, st')) \<longleftrightarrow>
   clients_of st (req_ClientID req) = Some c \<and> client_may lib req c"
proof (cases "op_GetClient ops (req_ClientID req) st")
  case (Pair r st1)
  note g = GetClient_pair [OF Pair]
  show ?thesis
    by (cases "clients_of st (req_ClientID req)")
      (auto simp: authorize_request_def client_may_def Pair g list_all_contains
        simp del: containsString_iff
        split: if_splits option.splits, auto)
qed

text \<open>The states and results of issuing, over any store.\<close>

lemma issue_authorized_cases:
  assumes "issue_authorized ops ctx start req c s = (r, s')"
  obtains (no_entropy) e e' rd where "ReadFull [] tokenEntropyLen (randReader s) = (Inl e', rd)"
      "r = Inl e" "store s' = store s" "tokenTTL s' = tokenTTL s"
  | (issued) b rd where "ReadFull [] tokenEntropyLen (randReader s) = (Inr b, rd)"
      "r = Inr (new_response (opaque_token b) req (tokenTTL s))"
      "clients_of (store s') = clients_of (store s)"
      "tokens_of (store s') = (tokens_of (store s))(ComputeTokenHash (opaque_token b) \<mapsto>
         new_token (opaque_token b) req c (next_reading (nowFunc s)) (tokenTTL s))"
      "randReader s' = rd" "tokenTTL s' = tokenTTL s"
proof (cases "ReadFull [] tokenEntropyLen (randReader s)")
  case (Pair res rd)
  show ?thesis
  proof (cases res)
    case (Inl e)
    with Pair assms show ?thesis
      by (intro no_entropy) (auto simp: issue_authorized_def generateRandomBase64_def Let_def)
  next
    case (Inr b)
    define t where "t = new_token (opaque_token b) req c (next_reading (nowFunc s)) (tokenTTL s)"
    obtain e st where sv: "op_SaveToken ops (Some t) (store s) = (e, st)" by fastforce
    have "TokenHash t \<noteq> []" by (simp add: t_def)
    from save_token [OF this, of "store s"] save_clients [of "Some t" "store s"] sv
    have "e = None" "tokens_of st = (tokens_of (store s))(TokenHash t \<mapsto> t)"
        "clients_of st = clients_of (store s)"
      by simp_all
    with Pair Inr assms sv show ?thesis
      by (intro issued)
        (auto simp: issue_authorized_def generateRandomBase64_def Let_def service_now_eq t_def
          new_response_def opaque_token_def new_token_def)
  qed
qed

lemma IssueToken_cases:
  assumes "IssueToken ops lib ctx reqp s = (r, s')"
  obtains (rejected) e where "r = Inl e"
      "clients_of (store s') = clients_of (store s)" "tokens_of (store s') = tokens_of (store s)"
      "tokenTTL s' = tokenTTL s"
  | (granted) req c b rd where "reqp = Some req"
      "clients_of (store s) (req_ClientID req) = Some c" "client_may lib req c"
      "ReadFull [] tokenEntropyLen (randReader s) = (Inr b, rd)"
      "r = Inr (new_response (opaque_token b) req (tokenTTL s))"
      "clients_of (store s') = clients_of (store s)"
      "tokens_of (store s') = (tokens_of (store s))(ComputeTokenHash (opaque_token b) \<mapsto>
         new_token (opaque_token b) req c (issue_time s) (tokenTTL s))"
      "randReader s' = rd" "tokenTTL s' = tokenTTL s"
proof (cases reqp)
  case None
  with assms show ?thesis by (intro rejected) (auto simp: IssueToken_def service_now_eq)
next
  case (Some req)
  obtain res st where a: "authorize_request ops lib req (store s) = (res, st)" by fastforce
  note fr = authorize_frame [OF a]
  show ?thesis
  proof (cases res)
    case (Inl x)
    with assms Some a fr show ?thesis
      by (cases x) (intro rejected, auto simp: IssueToken_def service_now_eq)
  next
    case (Inr c)
    let ?s = "s\<lparr>nowFunc := snd (now (nowFunc s)), store := st\<rparr>"
    have i: "issue_authorized ops ctx (next_reading (nowFunc s)) req c ?s = (r, s')"
      using assms Some a Inr by (simp add: IssueToken_def service_now_eq)
    from a Inr authorize_ok [of lib req "store s" c]
    have ok: "clients_of (store s) (req_ClientID req) = Some c" "client_may lib req c" by auto
    from i show ?thesis
    proof (cases rule: issue_authorized_cases)
      case no_entropy
      with fr show ?thesis by (intro rejected) auto
    next
      case (issued b rd)
      with fr ok Some show ?thesis
        by (intro granted) (auto simp: issue_time_def now_def)
    qed
  qed
qed

lemma IssueToken_complete:
  assumes "clients_of (store s) (req_ClientID req) = Some c" "client_may lib req c"
    and "ReadFull [] tokenEntropyLen (randReader s) = (Inr b, rd)"
  shows "fst (IssueToken ops lib ctx (Some req) s)
    = Inr (new_response (opaque_token b) req (tokenTTL s))"
proof -
  from assms(1,2) authorize_ok [of lib req "store s" c] obtain st where
    a: "authorize_request ops lib req (store s) = (Inr c, st)" by auto
  let ?s = "s\<lparr>nowFunc := snd (now (nowFunc s)), store := st\<rparr>"
  obtain r s' where i: "issue_authorized ops ctx (next_reading (nowFunc s)) req c ?s = (r, s')"
    by fastforce
  from i assms(3) have "r = Inr (new_response (opaque_token b) req (tokenTTL s))"
    by (cases rule: issue_authorized_cases) auto
  with a i show ?thesis by (simp add: IssueToken_def service_now_eq)
qed

text \<open>Validation reads the token, revocation before expiry, and changes no view of the store.\<close>

lemma ValidateToken_result:
  "fst (ValidateToken ops tok s) =
     (if tok = [] then Inl (oauth_err ErrInvalidRequest)
      else case tokens_of (store s) (ComputeTokenHash tok) of
        None \<Rightarrow> Inl (oauth_err ErrTokenNotFound)
      | Some t \<Rightarrow>
          if IsRevoked t then Inl (oauth_err ErrTokenRevoked)
          else if IsExpired t (next_reading (nowFunc s)) then Inl (oauth_err ErrTokenExpired)
          else Inr t)"
  using get_token [of "ComputeTokenHash tok" "store s"]
  by (cases "op_GetTokenByHash ops (ComputeTokenHash tok) (store s)")
    (auto simp: ValidateToken_def service_now_eq split: option.splits)

lemma ValidateToken_frame:
  "clients_of (store (snd (ValidateToken ops tok s))) = clients_of (store s)"
  "tokens_of (store (snd (ValidateToken ops tok s))) = tokens_of (store s)"
  "tokenTTL (snd (ValidateToken ops tok s)) = tokenTTL s"
  "randReader (snd (ValidateToken ops tok s)) = randReader s"
  using get_token_frame [of "ComputeTokenHash tok" "store s"]
  by (cases "op_GetTokenByHash ops (ComputeTokenHash tok) (store s)";
      auto simp: ValidateToken_def service_now_eq split: sum.splits)+

lemma IntrospectToken_frame:
  "clients_of (store (snd (IntrospectToken ops tok s))) = clients_of (store s)"
  "tokens_of (store (snd (IntrospectToken ops tok s))) = tokens_of (store s)"
  "tokenTTL (snd (IntrospectToken ops tok s)) = tokenTTL s"
  using ValidateToken_frame [of tok s]
  by (cases "ValidateToken ops tok s"; auto simp: IntrospectToken_def split: sum.splits)+

lemma IntrospectToken_result:
  "fst (IntrospectToken ops tok s) =
     (case fst (ValidateToken ops tok s) of
        Inl e \<Rightarrow> Inr inactive_response
      | Inr t \<Rightarrow> Inr \<lparr>Active = True, intro_ClientID = ClientID t, intro_Resource = Resource t,
                   intro_Scope = Scope t, Exp = time_Unix (ExpiresAt t),
                   intro_TokenType = ''Bearer''\<rparr>)"
  using ValidateToken_result [of tok s]
  by (cases "ValidateToken ops tok s")
    (auto simp: IntrospectToken_def split: sum.splits option.splits if_splits)

lemma RevokeToken_result:
  "fst (RevokeToken ops tok s) = None"
  using revoke_absent [of "store s" "ComputeTokenHash tok"]
    revoke_present [of "store s" "ComputeTokenHash tok"]
  by (cases "op_RevokeToken ops (ComputeTokenHash tok) (store s)";
      cases "tokens_of (store s) (ComputeTokenHash tok)")
    (auto simp: RevokeToken_def)

lemma RevokeToken_tokens:
  "tokens_of (store (snd (RevokeToken ops tok s))) = tokens_of (store s)
   \<or> tok \<noteq> [] \<and> (\<exists>t when. tokens_of (store s) (ComputeTokenHash tok) = Some t
      \<and> tokens_of (store (snd (RevokeToken ops tok s)))
        = (tokens_of (store s))(ComputeTokenHash tok \<mapsto> t\<lparr>RevokedAt := Some when\<rparr>))"
  using revoke_absent [of "store s" "ComputeTokenHash tok"]
    revoke_present [of "store s" "ComputeTokenHash tok"]
  by (cases "op_RevokeToken ops (ComputeTokenHash tok) (store s)";
      cases "tokens_of (store s) (ComputeTokenHash tok)")
    (auto simp: RevokeToken_def split: option.splits)

lemma RevokeToken_frame:
  "clients_of (store (snd (RevokeToken ops tok s))) = clients_of (store s)"
  "tokenTTL (snd (RevokeToken ops tok s)) = tokenTTL s"
  using revoke_clients [of "ComputeTokenHash tok" "store s"]
  by (cases "op_RevokeToken ops (ComputeTokenHash tok) (store s)";
      auto simp: RevokeToken_def split: option.splits)+

lemma RevokeToken_revokes:
  assumes "tok \<noteq> []" "tokens_of (store (snd (RevokeToken ops tok s))) (ComputeTokenHash tok) = Some t"
  shows "IsRevoked t"
  using get_after_revoke [of "ComputeTokenHash tok" "store s" t] assms
  by (cases "op_RevokeToken ops (ComputeTokenHash tok) (store s)")
    (auto simp: RevokeToken_def get_token split: option.splits if_splits)


text \<open>Registration stores a fresh client with a hashed secret, or changes no view.\<close>

lemma RegisterClient_cases:
  assumes "RegisterClient ops lib reqp s = (r, s')"
  obtains (rejected) e where "r = Inl e"
      "clients_of (store s') = clients_of (store s)" "tokens_of (store s') = tokens_of (store s)"
      "tokenTTL s' = tokenTTL s"
  | (registered) req b1 b2 rd rd' h where "reqp = Some req" "TrimSpace (reg_Name req) \<noteq> []"
      "first_invalid (ip_literal lib) (reg_AllowedResources req) = None"
      "ReadFull [] 16 (randReader s) = (Inr b1, rd')" "ReadFull [] 32 rd' = (Inr b2, rd)"
      "bcrypt_GenerateFromPassword lib (bcryptCalls s) (RawURLEncoding b2) (bcryptCost s) = Inr h"
      "clients_of (store s) (hex_encode b1) = None"
      "r = Inr (register_response req (hex_encode b1) (RawURLEncoding b2) (next_reading (nowFunc s)))"
      "clients_of (store s') = (clients_of (store s))(hex_encode b1 \<mapsto>
         registered_client req (hex_encode b1) h (next_reading (nowFunc s)))"
      "tokens_of (store s') = tokens_of (store s)" "tokenTTL s' = tokenTTL s" "randReader s' = rd"
proof -
  consider (bad) e where "r = Inl e" "s' = s"
    | (go) req where "reqp = Some req" "TrimSpace (reg_Name req) \<noteq> []"
        "first_invalid (ip_literal lib) (reg_AllowedResources req) = None"
    using assms by (auto simp: RegisterClient_def split: option.splits if_splits)
  then show ?thesis
  proof cases
    case bad
    then show ?thesis by (intro rejected) auto
  next
    case (go req)
    show ?thesis
    proof (cases rule: generateRandomHex_cases [of 16 s])
      case (fail e rd)
      with go assms show ?thesis by (intro rejected) (auto simp: RegisterClient_def)
    next
      case ok1: (ok b1 rd1)
      show ?thesis
      proof (cases rule: generateRandomBase64_cases [of 32 "s\<lparr>randReader := rd1\<rparr>"])
        case (fail e rd)
        with go ok1 assms show ?thesis by (intro rejected) (auto simp: RegisterClient_def)
      next
        case ok2: (ok b2 rd2)
        show ?thesis
        proof (cases "bcrypt_GenerateFromPassword lib (bcryptCalls s) (RawURLEncoding b2) (bcryptCost s)")
          case (Inl e)
          with go ok1 ok2 assms show ?thesis
            by (intro rejected) (auto simp: RegisterClient_def Let_def)
        next
          case (Inr h)
          define c where
            "c = registered_client req (hex_encode b1) h (next_reading (nowFunc s))"
          have id: "ID c = hex_encode b1" "ID c \<noteq> []"
            using length_hex_encode [of b1] ok1(2) by (auto simp: c_def registered_client_def)
          obtain e st where cr: "op_CreateClient ops (Some c) (store s) = (e, st)" by fastforce
          have run: "(r, s') = (case e of
              Some e \<Rightarrow> (Inl (Wrapf [Lit ''failed to store client: ''] e []),
                s\<lparr>randReader := rd2, bcryptCalls := Suc (bcryptCalls s),
                  nowFunc := snd (now (nowFunc s)), store := st\<rparr>)
            | None \<Rightarrow> (Inr (register_response req (hex_encode b1) (RawURLEncoding b2)
                        (next_reading (nowFunc s))),
                s\<lparr>randReader := rd2, bcryptCalls := Suc (bcryptCalls s),
                  nowFunc := snd (now (nowFunc s)), store := st\<rparr>))"
            using go ok1 ok2 Inr assms cr
            by (auto simp: RegisterClient_def Let_def service_now_eq c_def registered_client_def
                register_response_def split: option.splits)
          note fr = create_tokens [of "Some c" "store s", unfolded cr snd_conv]
          show ?thesis
          proof (cases "clients_of (store s) (ID c)")
            case None
            from create_new [OF id(2) None, unfolded cr] run fr None id go ok1 ok2 Inr
            show ?thesis by (intro registered) (auto simp: c_def)
          next
            case (Some d)
            then have "clients_of (store s) (ID c) \<noteq> None" by simp
            from create_duplicate [OF this, unfolded cr] run fr
            show ?thesis by (auto intro: rejected)
          qed
        qed
      qed
    qed
  qed
qed

end

end
