(* ===== verification/Service_Runs.thy ===== *)
theory Service_Runs
  imports Service_Correct
begin

text \<open>
  Runs of the service: the requests it serves one after another, each an atomic step that
  changes the state and leaves an event. What a run can never do is proved by rule induction,
  once over any store that keeps the contract; the properties are its instances for
  \<open>MemoryStore\<close>.
\<close>

section \<open>Steps and runs\<close>

datatype service_event =
    Registered "go_error + RegisterClientResponse"
  | Issued "go_error + TokenResponse"
  | Validated string "go_error + Token"
  | Introspected string "go_error + IntrospectResponse"
  | Revoked string "go_error option"

inductive service_step ::
  "'st StoreOps \<Rightarrow> Lib \<Rightarrow> 'st Service \<Rightarrow> service_event \<Rightarrow> 'st Service \<Rightarrow> bool"
  for ops lib where
  register: "RegisterClient ops lib reqp s = (r, s') \<Longrightarrow> service_step ops lib s (Registered r) s'"
| issue: "IssueToken ops lib ctx treq s = (r, s') \<Longrightarrow> service_step ops lib s (Issued r) s'"
| validate: "ValidateToken ops tok s = (r, s') \<Longrightarrow> service_step ops lib s (Validated tok r) s'"
| introspect: "IntrospectToken ops tok s = (r, s') \<Longrightarrow>
    service_step ops lib s (Introspected tok r) s'"
| revoke: "RevokeToken ops tok s = (r, s') \<Longrightarrow> service_step ops lib s (Revoked tok r) s'"

inductive_cases registered_stepE [elim!]: "service_step ops lib s (Registered r) s'"
inductive_cases issued_stepE [elim!]: "service_step ops lib s (Issued r) s'"
inductive_cases validated_stepE [elim!]: "service_step ops lib s (Validated tok r) s'"
inductive_cases revoked_stepE [elim!]: "service_step ops lib s (Revoked tok r) s'"

inductive service_run ::
  "'st StoreOps \<Rightarrow> Lib \<Rightarrow> 'st Service \<Rightarrow> service_event list \<Rightarrow> 'st Service \<Rightarrow> bool"
  for ops lib s where
  run_none: "service_run ops lib s [] s"
| run_step: "service_run ops lib s evs s1 \<Longrightarrow> service_step ops lib s1 e s2 \<Longrightarrow>
    service_run ops lib s (evs @ [e]) s2"

text \<open>The hashes under which a run has stored new tokens.\<close>

definition issued_hashes :: "service_event list \<Rightarrow> string set" where
  "issued_hashes evs = {ComputeTokenHash (AccessToken resp) | resp. Issued (Inr resp) \<in> set evs}"

lemma issued_hashes_append [simp]:
  "issued_hashes (evs @ [e]) = issued_hashes evs \<union> issued_hashes [e]"
  by (auto simp: issued_hashes_def)

section \<open>The invariant\<close>

definition client_valid :: "Lib \<Rightarrow> Client \<Rightarrow> bool" where
  "client_valid lib c \<longleftrightarrow>
     TrimSpace (Name c) \<noteq> []
   \<and> (\<forall>r \<in> set (AllowedResources c). ValidateAbsoluteURI (ip_literal lib) r = None)"

text \<open>The token belongs to a registered client and stays within what that client may ask for.\<close>

definition token_within :: "(string \<Rightarrow> Client option) \<Rightarrow> Token \<Rightarrow> bool" where
  "token_within cs t \<longleftrightarrow>
     (\<exists>c. cs (ClientID t) = Some c
        \<and> (AllowedResources c = [] \<or> Resource t \<in> set (AllowedResources c))
        \<and> (AllowedScopes c = [] \<or> set (Fields (Scope t)) \<subseteq> set (AllowedScopes c)))"

definition views_ok ::
  "Lib \<Rightarrow> duration \<Rightarrow> (string \<Rightarrow> Client option) \<Rightarrow> (string \<Rightarrow> Token option) \<Rightarrow> bool" where
  "views_ok lib ttl cs ts \<longleftrightarrow>
     (\<forall>k c. cs k = Some c \<longrightarrow> ID c = k \<and> client_valid lib c)
   \<and> (\<forall>h t. ts h = Some t \<longrightarrow> TokenHash t = h \<and> token_within cs t
        \<and> ExpiresAt t = time_Add (IssuedAt t) ttl)"

lemma token_within_mono:
  "token_within cs t \<Longrightarrow> cs k = None \<Longrightarrow> token_within (cs(k \<mapsto> c)) t"
  by (auto simp: token_within_def)

lemma views_ok_register:
  assumes "views_ok lib ttl cs ts" "cs k = None" "ID c = k" "client_valid lib c"
  shows "views_ok lib ttl (cs(k \<mapsto> c)) ts"
  using assms by (auto simp: views_ok_def intro: token_within_mono)

lemma views_ok_issue:
  assumes "views_ok lib ttl cs ts" "TokenHash t = h" "token_within cs t"
    and "ExpiresAt t = time_Add (IssuedAt t) ttl"
  shows "views_ok lib ttl cs (ts(h \<mapsto> t))"
  using assms by (auto simp: views_ok_def)

lemma views_ok_revoke:
  assumes "views_ok lib ttl cs ts" "ts h = Some t"
  shows "views_ok lib ttl cs (ts(h \<mapsto> t\<lparr>RevokedAt := w\<rparr>))"
  using assms by (intro views_ok_issue) (auto simp: views_ok_def token_within_def)

lemma client_valid_registered:
  assumes "TrimSpace (reg_Name req) \<noteq> []"
    and "first_invalid (ip_literal lib) (reg_AllowedResources req) = None"
  shows "client_valid lib (registered_client req cid h t)"
  using assms by (simp add: client_valid_def registered_client_def first_invalid_None)

lemma token_within_new:
  assumes "cs (req_ClientID req) = Some c" "ID c = req_ClientID req" "client_may lib req c"
  shows "token_within cs (new_token op req c t ttl)"
  using assms by (auto simp: token_within_def new_token_def client_may_def)

text \<open>No token under this hash can be used: it is absent or revoked.\<close>

definition dead :: "(string \<Rightarrow> Token option) \<Rightarrow> string \<Rightarrow> bool" where
  "dead ts h \<longleftrightarrow> (\<forall>t. ts h = Some t \<longrightarrow> IsRevoked t)"

section \<open>Over any store\<close>

context oauth_store
begin

text \<open>What one step does to the two views.\<close>

lemma service_step_views:
  assumes "service_step ops lib s e s'"
  obtains (quiet) "clients_of (store s') = clients_of (store s)"
      "tokens_of (store s') = tokens_of (store s)" "issued_hashes [e] = {}" "tokenTTL s' = tokenTTL s"
  | (register) req cid h t where "clients_of (store s) cid = None"
      "TrimSpace (reg_Name req) \<noteq> []"
      "first_invalid (ip_literal lib) (reg_AllowedResources req) = None"
      "clients_of (store s') = (clients_of (store s))(cid \<mapsto> registered_client req cid h t)"
      "tokens_of (store s') = tokens_of (store s)" "issued_hashes [e] = {}" "tokenTTL s' = tokenTTL s"
  | (issue) req c opq t where "clients_of (store s) (req_ClientID req) = Some c"
      "client_may lib req c" "clients_of (store s') = clients_of (store s)"
      "tokens_of (store s') = (tokens_of (store s))(ComputeTokenHash opq \<mapsto>
         new_token opq req c t (tokenTTL s))"
      "issued_hashes [e] = {ComputeTokenHash opq}" "tokenTTL s' = tokenTTL s"
  | (revoke) h t w where "tokens_of (store s) h = Some t"
      "clients_of (store s') = clients_of (store s)"
      "tokens_of (store s') = (tokens_of (store s))(h \<mapsto> t\<lparr>RevokedAt := Some w\<rparr>)"
      "issued_hashes [e] = {}" "tokenTTL s' = tokenTTL s"
  using assms
proof cases
  case (register reqp r)
  from this(2) show ?thesis
  proof (cases rule: RegisterClient_cases)
    case rejected
    with register show ?thesis by (intro that(1)) (auto simp: issued_hashes_def)
  next
    case (registered req b1 b2 rd rd' h)
    with register show ?thesis by (intro that(2)) (auto simp: issued_hashes_def)
  qed
next
  case (issue ctx treq r)
  from this(2) show ?thesis
  proof (cases rule: IssueToken_cases)
    case rejected
    with issue show ?thesis by (intro that(1)) (auto simp: issued_hashes_def)
  next
    case (granted req c b rd)
    with issue show ?thesis
      by (intro that(3)) (auto simp: issued_hashes_def new_response_def)
  qed
next
  case (validate tok r)
  with ValidateToken_frame [of tok s] show ?thesis
    by (intro that(1)) (auto simp: issued_hashes_def)
next
  case (introspect tok r)
  with IntrospectToken_frame [of tok s] show ?thesis
    by (intro that(1)) (auto simp: issued_hashes_def)
next
  case (revoke tok r)
  from RevokeToken_tokens [of tok s] show ?thesis
  proof
    assume "tokens_of (store (snd (RevokeToken ops tok s))) = tokens_of (store s)"
    with revoke RevokeToken_frame [of tok s] show ?thesis
      by (intro that(1)) (auto simp: issued_hashes_def)
  next
    assume "tok \<noteq> [] \<and> (\<exists>t w. tokens_of (store s) (ComputeTokenHash tok) = Some t
      \<and> tokens_of (store (snd (RevokeToken ops tok s)))
        = (tokens_of (store s))(ComputeTokenHash tok \<mapsto> t\<lparr>RevokedAt := Some w\<rparr>))"
    then obtain t w where "tokens_of (store s) (ComputeTokenHash tok) = Some t"
      "tokens_of (store (snd (RevokeToken ops tok s)))
        = (tokens_of (store s))(ComputeTokenHash tok \<mapsto> t\<lparr>RevokedAt := Some w\<rparr>)" by blast
    with revoke RevokeToken_frame [of tok s] show ?thesis
      by (intro that(4)) (auto simp: issued_hashes_def)
  qed
qed

lemma service_step_views_ok:
  assumes "service_step ops lib s e s'"
    and "views_ok lib (tokenTTL s) (clients_of (store s)) (tokens_of (store s))"
  shows "views_ok lib (tokenTTL s') (clients_of (store s')) (tokens_of (store s'))"
  using assms(1)
proof (cases rule: service_step_views)
  case quiet
  with assms(2) show ?thesis by simp
next
  case (register req cid h t)
  with assms(2) show ?thesis
    by (auto intro!: views_ok_register client_valid_registered)
next
  case (issue req c opq t)
  with assms(2) have "ID c = req_ClientID req" by (auto simp: views_ok_def)
  with issue have "token_within (clients_of (store s)) (new_token opq req c t (tokenTTL s))"
    by (intro token_within_new)
  from views_ok_issue [OF assms(2) TokenHash_new_token this new_token_lifetime] issue
  show ?thesis by simp
next
  case (revoke h t w)
  with assms(2) show ?thesis by (simp add: views_ok_revoke)
qed

lemma service_run_views_ok:
  assumes "service_run ops lib s evs s'"
    and "views_ok lib (tokenTTL s) (clients_of (store s)) (tokens_of (store s))"
  shows "views_ok lib (tokenTTL s') (clients_of (store s')) (tokens_of (store s'))"
  using assms by (induction rule: service_run.induct) (auto intro: service_step_views_ok)

text \<open>A client is never overwritten and never removed.\<close>

lemma service_run_clients:
  assumes "service_run ops lib s evs s'" "clients_of (store s) k = Some c"
  shows "clients_of (store s') k = Some c"
  using assms
proof (induction rule: service_run.induct)
  case (run_step evs s1 e s2)
  from run_step.hyps(2) run_step.IH [OF run_step.prems] show ?case
    by (cases rule: service_step_views) auto
qed

lemma service_run_dead:
  assumes "service_run ops lib s evs s'" "dead (tokens_of (store s)) h" "h \<notin> issued_hashes evs"
  shows "dead (tokens_of (store s')) h"
  using assms
proof (induction rule: service_run.induct)
  case (run_step evs s1 e s2)
  then have d: "dead (tokens_of (store s1)) h" and e: "h \<notin> issued_hashes [e]" by auto
  from run_step.hyps(2) d e show ?case
    by (cases rule: service_step_views) (auto simp: dead_def IsRevoked_def)
qed

lemma dead_rejected:
  "dead (tokens_of (store s)) (ComputeTokenHash tok) \<Longrightarrow> \<exists>e. fst (ValidateToken ops tok s) = Inl e"
  using ValidateToken_result [of tok s] by (auto simp: dead_def split: option.splits)

lemma revoked_dead: "tok \<noteq> [] \<Longrightarrow> dead (tokens_of (store (snd (RevokeToken ops tok s)))) (ComputeTokenHash tok)"
  using RevokeToken_revokes [of tok s] by (auto simp: dead_def)

end

end
