(* ===== verification/Service_Properties.thy ===== *)
theory Service_Properties
  imports Service_Runs
begin

text \<open>
  The properties of the authorization service over \<open>MemoryStore\<close>, each the instance for that
  store of the lemmas proved over any store, and a small concrete server that their witnesses
  run.
\<close>

lemma IssueToken_reading:
  "reading (nowFunc (snd (IssueToken ops lib ctx reqp s))) = reading (nowFunc s)"
  by (cases reqp; cases "randReader s")
    (auto simp: IssueToken_def issue_authorized_def service_now_eq Let_def generateRandomBase64_def
      split: prod.splits sum.splits option.splits)

lemma sint_defaultTTL [simp]: "sint (3600 * Second) = 3600000000000"
  by (simp add: Second_def nanos_per_second_def)

lemma RecordTokenRequest_audit_level:
  "st = ''ok'' \<Longrightarrow> \<exists>msg as. audit_log (RecordTokenRequest ctx g st cid res d err t)
     = audit_log t @ [LogEntry (logger t) LevelInfo msg as]"
  "st \<noteq> ''ok'' \<Longrightarrow> \<exists>msg as. audit_log (RecordTokenRequest ctx g st cid res d err t)
     = audit_log t @ [LogEntry (logger t) LevelWarn msg as]"
  by (auto simp: audit_log_def RecordTokenRequest_def split: option.splits)

lemma authorize_status:
  "authorize_request ops lib req st = (Inl (status, e), st') \<Longrightarrow> status \<noteq> ''ok''"
  by (auto simp: authorize_request_def split: if_splits option.splits prod.splits sum.splits)

section \<open>A concrete server\<close>

text \<open>
  A stand-in for bcrypt with its documented relation: a hash compares equal to the password it
  was made from, and to no other. IP literals in URLs are accepted.
\<close>

definition demo_lib :: Lib where
  "demo_lib =
     \<lparr>ip_literal = (\<lambda>_. None),
      bcrypt_GenerateFromPassword = (\<lambda>_ pw _. Inr (''$2a$'' @ pw)),
      bcrypt_CompareHashAndPassword =
        (\<lambda>h pw. if h = ''$2a$'' @ pw then None else Some (NewError [Lit ''mismatch''])),
      bcrypt_DefaultCost = 10\<rparr>"

definition no_meter :: Meter where
  "no_meter = \<lparr>meter_Int64Counter = (\<lambda>_. (None, None)),
     meter_Float64Histogram = (\<lambda>_. (None, None))\<rparr>"

definition demo_bytes :: bytes where
  "demo_bytes = replicate 32 (CHR 0x01)"

definition demo_ctx :: Context where
  "demo_ctx = \<lparr>span_recording = False\<rparr>"

definition demo_client :: Client where
  "demo_client = \<lparr>ID = ''c1'', SecretHash = ''$2a$pw'', Name = ''n'', AllowedResources = [],
     AllowedScopes = [''read''], CreatedAt = 0\<rparr>"

definition demo_request :: TokenRequest where
  "demo_request = \<lparr>req_GrantType = ''client_credentials'', req_ClientID = ''c1'',
     req_ClientSecret = ''pw'', req_Resource = [], req_Scope = ''read''\<rparr>"

text \<open>The new server, its random reader delivering the given chunks.\<close>

definition demo_new :: "reader \<Rightarrow> MemoryStore Service" where
  "demo_new rd = NewService demo_lib rd (fixed_clock 0) (NewTelemetry [] no_meter [] [])
     (NewMemoryStore (fixed_clock 0)) []"

text \<open>The same server with one client registered.\<close>

definition demo_server :: "MemoryStore Service" where
  "demo_server = (demo_new [Data demo_bytes])
     \<lparr>store := (NewMemoryStore (fixed_clock 0))\<lparr>clients := [''c1'' \<mapsto> demo_client]\<rparr>\<rparr>"

lemma demo_server_simps [simp]:
  "store demo_server = (NewMemoryStore (fixed_clock 0))\<lparr>clients := [''c1'' \<mapsto> demo_client]\<rparr>"
  "randReader demo_server = [Data demo_bytes]" "tokenTTL demo_server = 3600 * Second"
  "nowFunc demo_server = fixed_clock 0"
  by (simp_all add: demo_server_def demo_new_def NewService_def defaultTokenTTL_def)

lemma demo_read: "ReadFull [] tokenEntropyLen [Data demo_bytes] = (Inr demo_bytes, [])"
  by (simp add: tokenEntropyLen_def demo_bytes_def numeral_eq_Suc)

lemma demo_may: "client_may demo_lib demo_request demo_client"
  by code_simp

definition demo_token :: string where
  "demo_token = opaque_token demo_bytes"

lemma demo_issue:
  "fst (IssueToken memory_ops demo_lib ctx (Some demo_request) demo_server)
   = Inr (new_response demo_token demo_request (3600 * Second))"
  using mem.IssueToken_complete [of demo_server demo_request demo_client demo_lib demo_bytes "[]" ctx]
    demo_may demo_read
  by (simp add: demo_token_def demo_request_def)

text \<open>The server after it has issued that token.\<close>

definition demo_issued :: "MemoryStore Service" where
  "demo_issued = snd (IssueToken memory_ops demo_lib demo_ctx (Some demo_request) demo_server)"

lemma demo_issue_pair:
  "IssueToken memory_ops demo_lib demo_ctx (Some demo_request) demo_server
   = (Inr (new_response demo_token demo_request (3600 * Second)), demo_issued)"
  using demo_issue [of demo_ctx] by (simp add: demo_issued_def prod_eq_iff)

section \<open>Issuing\<close>

text \<open>C1: the token endpoint issues a token exactly when the client is registered, the request
  is within the client's policy (grant type, secret, resource, scopes) and 32 random bytes can be
  read.\<close>

theorem IssueToken_iff:
  "(\<exists>resp. fst (IssueToken memory_ops lib ctx (Some req) s) = Inr resp) \<longleftrightarrow>
     (\<exists>c. clients (store s) (req_ClientID req) = Some c \<and> client_may lib req c)
   \<and> (\<exists>b rd. ReadFull [] tokenEntropyLen (randReader s) = (Inr b, rd))"
proof
  assume "\<exists>resp. fst (IssueToken memory_ops lib ctx (Some req) s) = Inr resp"
  then obtain resp s' where "IssueToken memory_ops lib ctx (Some req) s = (Inr resp, s')"
    by (metis prod.collapse)
  then show "(\<exists>c. clients (store s) (req_ClientID req) = Some c \<and> client_may lib req c)
   \<and> (\<exists>b rd. ReadFull [] tokenEntropyLen (randReader s) = (Inr b, rd))"
    by (cases rule: mem.IssueToken_cases) auto
qed (auto simp: mem.IssueToken_complete)

text \<open>C2: an issued token is stored under the hash of the returned text only, with the client,
  resource and scope of the request and the configured lifetime; no client and no other token
  changes.\<close>

theorem IssueToken_sound:
  assumes "IssueToken memory_ops lib ctx (Some req) s = (Inr resp, s')"
  shows "\<exists>c t. clients (store s) (req_ClientID req) = Some c \<and> client_may lib req c
     \<and> clients (store s') = clients (store s)
     \<and> tokens (store s') = (tokens (store s))(ComputeTokenHash (AccessToken resp) \<mapsto> t)
     \<and> ClientID t = ID c \<and> Resource t = req_Resource req \<and> Scope t = req_Scope req
     \<and> ExpiresAt t = IssuedAt t + sint (tokenTTL s) \<and> \<not> IsRevoked t"
  using assms
proof (cases rule: mem.IssueToken_cases)
  case (granted req' c b rd)
  then show ?thesis
    by (auto simp: new_token_def new_response_def time_Add_def IsRevoked_def)
qed auto

theorem IssueToken_sound_witness:
  "\<exists>c. clients (store demo_server) ''c1'' = Some c \<and> client_may demo_lib demo_request c"
  using IssueToken_sound [OF demo_issue_pair] by (auto simp: demo_request_def)

text \<open>A refused token request changes neither the clients nor the tokens.\<close>

theorem IssueToken_refused_keeps:
  assumes "IssueToken memory_ops lib ctx reqp s = (Inl e, s')"
  shows "clients (store s') = clients (store s) \<and> tokens (store s') = tokens (store s)"
  using assms by (cases rule: mem.IssueToken_cases) auto

theorem IssueToken_refused_keeps_witness:
  "tokens (store (snd (IssueToken memory_ops demo_lib demo_ctx None demo_server))) = Map.empty"
proof -
  have "fst (IssueToken memory_ops demo_lib demo_ctx None demo_server)
      = Inl (oauth_err ErrInvalidRequest)"
    by (simp add: IssueToken_def service_now_eq)
  then have "IssueToken memory_ops demo_lib demo_ctx None demo_server
      = (Inl (oauth_err ErrInvalidRequest),
         snd (IssueToken memory_ops demo_lib demo_ctx None demo_server))"
    by (simp add: prod_eq_iff)
  from IssueToken_refused_keeps [OF this] show ?thesis
    by (simp add: NewMemoryStore_def)
qed

text \<open>For a request of the right grant type and a valid resource, an unknown client and a
  wrong secret get the same answer, so the endpoint does not reveal which clients exist.\<close>

theorem IssueToken_unknown_like_wrong_secret:
  assumes "req_GrantType req = ''client_credentials''"
    and "req_Resource req = [] \<or> ValidateAbsoluteURI (ip_literal lib) (req_Resource req) = None"
    and "case clients (store s) (req_ClientID req) of None \<Rightarrow> True
         | Some c \<Rightarrow> bcrypt_CompareHashAndPassword lib (SecretHash c) (req_ClientSecret req) \<noteq> None"
  shows "fst (IssueToken memory_ops lib ctx (Some req) s) = Inl (oauth_err ErrInvalidClient)"
  using assms
  by (auto simp: IssueToken_def service_now_eq authorize_request_def GetClient_def
      split: option.splits)

theorem IssueToken_unknown_like_wrong_secret_witness:
  "fst (IssueToken memory_ops demo_lib demo_ctx (Some (demo_request\<lparr>req_ClientID := ''x''\<rparr>)) demo_server)
   = fst (IssueToken memory_ops demo_lib demo_ctx (Some (demo_request\<lparr>req_ClientSecret := ''x''\<rparr>)) demo_server)"
  using IssueToken_unknown_like_wrong_secret
      [of "demo_request\<lparr>req_ClientID := ''x''\<rparr>" demo_lib demo_server demo_ctx]
    IssueToken_unknown_like_wrong_secret
      [of "demo_request\<lparr>req_ClientSecret := ''x''\<rparr>" demo_lib demo_server demo_ctx]
  by (simp add: demo_request_def demo_client_def demo_lib_def)

text \<open>C13: a token just issued validates, as the record that was stored, exactly up to and
  including its expiry instant, and is reported expired after it.\<close>

theorem issue_then_validate:
  assumes "IssueToken memory_ops lib ctx (Some req) s = (Inr resp, s')"
  shows "fst (ValidateToken memory_ops (AccessToken resp) s') =
     (case tokens (store s') (ComputeTokenHash (AccessToken resp)) of
        None \<Rightarrow> Inl (oauth_err ErrTokenNotFound)
      | Some t \<Rightarrow> if next_reading (nowFunc s') \<le> issue_time s + sint (tokenTTL s) then Inr t
                 else Inl (oauth_err ErrTokenExpired))
     \<and> tokens (store s') (ComputeTokenHash (AccessToken resp)) \<noteq> None"
  using assms
proof (cases rule: mem.IssueToken_cases)
  case (granted req' c b rd)
  then show ?thesis
    by (simp add: mem.ValidateToken_result new_response_def opaque_token_def new_token_def
        IsRevoked_def IsExpired_def time_After_def time_Add_def)
qed auto

theorem issue_then_validate_witness:
  "\<exists>t. fst (ValidateToken memory_ops demo_token demo_issued) = Inr t"
  using issue_then_validate [OF demo_issue_pair] IssueToken_reading
      [of memory_ops demo_lib demo_ctx "Some demo_request" demo_server]
  by (auto simp: new_response_def issue_time_def fixed_clock_def demo_issued_def)

section \<open>Revocation\<close>

text \<open>C11: after a revocation, no later run of requests makes that token validate again, as long
  as the server issues no token with the same hash.\<close>

theorem revoked_never_validates:
  assumes "RevokeToken memory_ops tok s = (r, s1)"
    and "service_run memory_ops lib s1 evs s2"
    and "ComputeTokenHash tok \<notin> issued_hashes evs"
  shows "\<exists>e. fst (ValidateToken memory_ops tok s2) = Inl e"
proof (cases "tok = []")
  case True
  then show ?thesis by (simp add: mem.ValidateToken_result)
next
  case False
  from mem.revoked_dead [OF False, of s] assms(1) have "dead (tokens (store s1)) (ComputeTokenHash tok)"
    by simp
  from mem.dead_rejected [OF mem.service_run_dead [OF assms(2) this assms(3)]] show ?thesis .
qed

theorem revoked_never_validates_witness:
  "\<exists>e. fst (ValidateToken memory_ops demo_token
     (snd (IssueToken memory_ops demo_lib demo_ctx None
       (snd (RevokeToken memory_ops demo_token demo_issued))))) = Inl e"
proof (rule revoked_never_validates)
  let ?s = "snd (RevokeToken memory_ops demo_token demo_issued)"
  show "RevokeToken memory_ops demo_token demo_issued
      = (fst (RevokeToken memory_ops demo_token demo_issued), ?s)" by simp
  let ?e = "Issued (fst (IssueToken memory_ops demo_lib demo_ctx None ?s))"
  have "service_step memory_ops demo_lib ?s ?e (snd (IssueToken memory_ops demo_lib demo_ctx None ?s))"
    by (rule service_step.issue [of _ _ demo_ctx None]) simp
  from service_run.run_step [OF service_run.run_none this]
  show "service_run memory_ops demo_lib ?s [?e] (snd (IssueToken memory_ops demo_lib demo_ctx None ?s))"
    by simp
  show "ComputeTokenHash demo_token \<notin> issued_hashes [?e]"
    by (simp add: issued_hashes_def IssueToken_def service_now_eq)
qed

text \<open>Revocation never fails and tells the caller nothing about the token; it stamps the
  token it names, if there is one, and leaves every client and every other token as it was.\<close>

theorem RevokeToken_effect:
  "fst (RevokeToken memory_ops tok s) = None
   \<and> clients (store (snd (RevokeToken memory_ops tok s))) = clients (store s)
   \<and> (\<forall>h. h \<noteq> ComputeTokenHash tok \<or> tok = [] \<longrightarrow>
        tokens (store (snd (RevokeToken memory_ops tok s))) h = tokens (store s) h)
   \<and> (\<forall>t. tok \<noteq> [] \<and> tokens (store s) (ComputeTokenHash tok) = Some t \<longrightarrow>
        tokens (store (snd (RevokeToken memory_ops tok s))) (ComputeTokenHash tok)
        = Some (t\<lparr>RevokedAt := Some (next_reading (store_clock (store s)))\<rparr>))"
  by (auto simp: RevokeToken_def store_RevokeToken_def now_def split: option.splits)

theorem RevokeToken_effect_witness:
  "tokens (store (snd (RevokeToken memory_ops ''other'' demo_issued))) (ComputeTokenHash [])
   = tokens (store demo_issued) (ComputeTokenHash [])
   \<or> ComputeTokenHash ''other'' = ComputeTokenHash []"
  using RevokeToken_effect [of "''other''" demo_issued] by auto

section \<open>Introspection\<close>

text \<open>Introspection never fails; it answers active, with the data of the stored token,
  exactly when the token validates, and otherwise with the bare inactive response, which is
  the same for unknown, expired, revoked and empty tokens.\<close>

theorem IntrospectToken_active_iff:
  "(\<exists>resp. fst (IntrospectToken memory_ops tok s) = Inr resp
      \<and> (Active resp \<longleftrightarrow> (\<exists>t. fst (ValidateToken memory_ops tok s) = Inr t))
      \<and> (\<not> Active resp \<longrightarrow> resp = inactive_response)
      \<and> (Active resp \<longrightarrow> (\<exists>t. tokens (store s) (ComputeTokenHash tok) = Some t
           \<and> \<not> IsRevoked t \<and> \<not> IsExpired t (next_reading (nowFunc s))
           \<and> resp = \<lparr>Active = True, intro_ClientID = ClientID t, intro_Resource = Resource t,
               intro_Scope = Scope t, Exp = ExpiresAt t div 1000000000,
               intro_TokenType = ''Bearer''\<rparr>)))"
  by (auto simp: mem.IntrospectToken_result mem.ValidateToken_result inactive_response_def
      time_Unix_def nanos_per_second_def split: option.splits)

theorem IntrospectToken_active_iff_witness:
  "fst (IntrospectToken memory_ops ''x'' demo_server) = Inr inactive_response"
proof -
  have "\<not> (\<exists>t. fst (ValidateToken memory_ops ''x'' demo_server) = Inr t)"
    by (simp add: mem.ValidateToken_result NewMemoryStore_def)
  with IntrospectToken_active_iff [of "''x''" demo_server] show ?thesis by auto
qed

section \<open>Registration\<close>


text \<open>The registration the witnesses run.\<close>

definition demo_registration :: RegisterClientRequest where
  "demo_registration =
     \<lparr>reg_Name = ''n'', reg_AllowedResources = [], reg_AllowedScopes = [''read'']\<rparr>"

definition demo_entropy :: reader where
  "demo_entropy = [Data (replicate 16 (CHR 0x02)), Data demo_bytes, Data demo_bytes]"

lemma demo_registered:
  "\<exists>s'. RegisterClient memory_ops demo_lib (Some demo_registration) (demo_new demo_entropy)
     = (Inr (register_response demo_registration (hex_encode (replicate 16 (CHR 0x02)))
          (RawURLEncoding demo_bytes) 0), s')
   \<and> randReader s' = [Data demo_bytes] \<and> tokenTTL s' = 3600 * Second"
proof -
  have "TrimSpace ''n'' = ''n''" by (rule TrimSpace_graphic) code_simp
  moreover have "ReadFull [] 16 demo_entropy
      = (Inr (replicate 16 (CHR 0x02)), [Data demo_bytes, Data demo_bytes])"
    by (simp add: demo_entropy_def numeral_eq_Suc)
  moreover have "ReadFull [] 32 [Data demo_bytes, Data demo_bytes] = (Inr demo_bytes, [Data demo_bytes])"
    by (simp add: demo_bytes_def numeral_eq_Suc)
  moreover have "hex_encode (replicate 16 (CHR 0x02)) \<noteq> []"
    using length_hex_encode [of "replicate 16 (CHR 0x02)"] by auto
  ultimately show ?thesis
    by (simp add: RegisterClient_def demo_registration_def demo_new_def NewService_def
        generateRandomHex_def generateRandomBase64_def demo_lib_def service_now_eq Let_def
        CreateClient_def NewMemoryStore_def register_response_def fixed_clock_def
        defaultTokenTTL_def)
qed


lemma registered_client_may:
  assumes bcrypt: "\<And>n pw cost h. bcrypt_GenerateFromPassword lib n pw cost = Inr h \<Longrightarrow>
      bcrypt_CompareHashAndPassword lib h pw = None"
    and reg: "RegisterClient memory_ops lib (Some req) s = (Inr resp, s1)"
    and res: "if reg_AllowedResources req = []
        then resource = [] \<or> ValidateAbsoluteURI (ip_literal lib) resource = None
        else resource \<in> set (reg_AllowedResources req)"
    and scope: "reg_AllowedScopes req = [] \<or> set (Fields scope) \<subseteq> set (reg_AllowedScopes req)"
  shows "\<exists>c. clients (store s1) (resp_ClientID resp) = Some c
    \<and> client_may lib \<lparr>req_GrantType = ''client_credentials'', req_ClientID = resp_ClientID resp,
             req_ClientSecret = resp_ClientSecret resp, req_Resource = resource, req_Scope = scope\<rparr> c
    \<and> ID c = resp_ClientID resp"
  using reg
proof (cases rule: mem.RegisterClient_cases)
  case (registered req' b1 b2 rd2 rd' h)
  let ?c = "registered_client req (hex_encode b1) h (next_reading (nowFunc s))"
  have valid: "resource \<noteq> [] \<Longrightarrow> ValidateAbsoluteURI (ip_literal lib) resource = None"
    using res registered(1,3) by (auto simp: first_invalid_None split: if_splits)
  have nonempty: "reg_AllowedResources req \<noteq> [] \<Longrightarrow> resource \<noteq> []"
    using res registered(1,3) by (auto simp: first_invalid_None ValidateAbsoluteURI_def split: if_splits)
  show ?thesis
    using registered bcrypt [OF registered(6)] valid nonempty res scope
    by (intro exI [of _ ?c]) (auto simp: client_may_def registered_client_def register_response_def split: if_splits)
qed auto

text \<open>With a password hash that accepts the password it was made from, the ID and secret a
  registration returns are at once good for a token on any allowed resource and scopes, given
  32 random bytes.\<close>

theorem register_then_issue:
  assumes bcrypt: "\<And>n pw cost h. bcrypt_GenerateFromPassword lib n pw cost = Inr h \<Longrightarrow>
      bcrypt_CompareHashAndPassword lib h pw = None"
    and reg: "RegisterClient memory_ops lib (Some req) s = (Inr resp, s1)"
    and res: "if reg_AllowedResources req = []
        then resource = [] \<or> ValidateAbsoluteURI (ip_literal lib) resource = None
        else resource \<in> set (reg_AllowedResources req)"
    and scope: "reg_AllowedScopes req = [] \<or> set (Fields scope) \<subseteq> set (reg_AllowedScopes req)"
    and random: "ReadFull [] tokenEntropyLen (randReader s1) = (Inr b, rd)"
  shows "fst (IssueToken memory_ops lib ctx
      (Some \<lparr>req_GrantType = ''client_credentials'', req_ClientID = resp_ClientID resp,
             req_ClientSecret = resp_ClientSecret resp, req_Resource = resource,
             req_Scope = scope\<rparr>) s1)
    = Inr \<lparr>AccessToken = ''opq_'' @ RawURLEncoding b, TokenType = ''Bearer'',
           ExpiresIn = float_to_int64 (duration_Seconds (tokenTTL s1)),
           tresp_Resource = resource, tresp_Scope = scope\<rparr>"
proof -
  have "\<exists>c. clients (store s1) (resp_ClientID resp) = Some c
    \<and> client_may lib \<lparr>req_GrantType = ''client_credentials'', req_ClientID = resp_ClientID resp,
             req_ClientSecret = resp_ClientSecret resp, req_Resource = resource, req_Scope = scope\<rparr> c
    \<and> ID c = resp_ClientID resp"
    by (rule registered_client_may [OF _ reg res scope]) (rule bcrypt)
  with mem.IssueToken_complete [OF _ _ random] show ?thesis by (auto simp: new_response_def opaque_token_def)
qed

theorem register_then_issue_witness:
  "\<exists>resp s1 tok. RegisterClient memory_ops demo_lib (Some demo_registration) (demo_new demo_entropy)
       = (Inr resp, s1)
     \<and> fst (IssueToken memory_ops demo_lib demo_ctx
      (Some \<lparr>req_GrantType = ''client_credentials'', req_ClientID = resp_ClientID resp,
             req_ClientSecret = resp_ClientSecret resp, req_Resource = [], req_Scope = ''read''\<rparr>) s1)
    = Inr tok \<and> AccessToken tok = demo_token"
proof -
  from demo_registered obtain resp s1 where r:
    "RegisterClient memory_ops demo_lib (Some demo_registration) (demo_new demo_entropy) = (Inr resp, s1)"
    and rd: "randReader s1 = [Data demo_bytes]" by blast
  have f: "Fields ''read'' = [''read'']" by code_simp
  have "fst (IssueToken memory_ops demo_lib demo_ctx
      (Some \<lparr>req_GrantType = ''client_credentials'', req_ClientID = resp_ClientID resp,
             req_ClientSecret = resp_ClientSecret resp, req_Resource = [], req_Scope = ''read''\<rparr>) s1)
    = Inr \<lparr>AccessToken = ''opq_'' @ RawURLEncoding demo_bytes, TokenType = ''Bearer'',
           ExpiresIn = float_to_int64 (duration_Seconds (tokenTTL s1)),
           tresp_Resource = [], tresp_Scope = ''read''\<rparr>"
  proof (rule register_then_issue [OF _ r])
    show "bcrypt_CompareHashAndPassword demo_lib h pw = None"
      if "bcrypt_GenerateFromPassword demo_lib n pw cost = Inr h" for n pw cost h
      using that by (auto simp: demo_lib_def)
    show "ReadFull [] tokenEntropyLen (randReader s1) = (Inr demo_bytes, [])"
      by (simp add: rd demo_read)
  qed (simp_all add: demo_registration_def f)
  with r show ?thesis by (auto simp: demo_token_def opaque_token_def)
qed

section \<open>Runs\<close>

text \<open>C14: whatever requests a new server has served, in any order, every stored token belongs
  to a registered client, is filed under its own hash, names a resource and scopes that client
  may ask for, and expires exactly the configured lifetime after it was issued; every client is
  filed under its own ID, has a name, and lists only valid resources.\<close>

theorem run_keeps_policy:
  assumes "service_run memory_ops lib
      (NewService lib crypto_rand time_now tel (NewMemoryStore clk) opts) evs s"
  shows "views_ok lib (tokenTTL s) (clients (store s)) (tokens (store s))"
proof -
  have "store (fold apply_service_option opts x) = store x" for x :: "MemoryStore Service"
  proof (induction opts arbitrary: x)
    case (Cons a opts)
    then show ?case by (cases a) (auto split: option.splits)
  qed simp
  then have "store (NewService lib crypto_rand time_now tel (NewMemoryStore clk) opts)
      = NewMemoryStore clk" by (simp add: NewService_def)
  then show ?thesis
    by (intro mem.service_run_views_ok [OF assms]) (simp add: views_ok_def NewMemoryStore_def)
qed

theorem run_keeps_policy_witness:
  "views_ok demo_lib (3600 * Second)
     (clients (store (snd (RegisterClient memory_ops demo_lib (Some demo_registration) (demo_new demo_entropy)))))
     (tokens (store (snd (RegisterClient memory_ops demo_lib (Some demo_registration) (demo_new demo_entropy)))))"
proof -
  from demo_registered obtain resp s1 where r:
    "RegisterClient memory_ops demo_lib (Some demo_registration) (demo_new demo_entropy) = (Inr resp, s1)"
    and t: "tokenTTL s1 = 3600 * Second" by blast
  from service_step.register [OF r] have
    "service_step memory_ops demo_lib (demo_new demo_entropy) (Registered (Inr resp)) s1" .
  from run_keeps_policy [OF service_run.run_step [OF service_run.run_none this, unfolded demo_new_def]]
  show ?thesis by (simp add: r t)
qed

text \<open>A registered client is never changed or removed by any later request.\<close>

theorem run_keeps_clients:
  assumes "service_run memory_ops lib s evs s'" "clients (store s) k = Some c"
  shows "clients (store s') k = Some c"
  using assms by (rule mem.service_run_clients)

theorem run_keeps_clients_witness:
  "clients (store demo_issued) ''c1'' = Some demo_client"
proof -
  from service_step.issue [OF demo_issue_pair] have "service_step memory_ops demo_lib demo_server
      (Issued (Inr (new_response demo_token demo_request (3600 * Second)))) demo_issued" .
  from run_keeps_clients [OF service_run.run_step [OF service_run.run_none this], of "''c1''"]
  show ?thesis by simp
qed

section \<open>Token texts and lifetimes\<close>

text \<open>An issued token is \<open>opq_\<close> followed by 43 graphic characters, and two issued tokens
  are the same text only if the same 32 random bytes were drawn for both.\<close>

theorem token_text_injective:
  assumes "IssueToken memory_ops lib ctx reqp s = (Inr resp, s')"
    and "IssueToken memory_ops lib2 ctx2 reqp2 s2 = (Inr resp2, s2')"
    and "ReadFull [] tokenEntropyLen (randReader s) = (Inr b, rd)"
    and "ReadFull [] tokenEntropyLen (randReader s2) = (Inr b2, rd2)"
  shows "(AccessToken resp = AccessToken resp2 \<longleftrightarrow> b = b2) \<and> length b = 32
     \<and> HasPrefix (AccessToken resp) ''opq_'' \<and> length (AccessToken resp) = 47
     \<and> graphics (AccessToken resp)"
proof -
  have len: "length b = 32" "length b2 = 32"
    using assms(3,4) ReadFull_length by (fastforce simp: tokenEntropyLen_def)+
  have t: "AccessToken resp = opaque_token b"
    using assms(1) by (cases rule: mem.IssueToken_cases) (use assms(3) in \<open>auto simp: new_response_def\<close>)
  have t2: "AccessToken resp2 = opaque_token b2"
    using assms(2) by (cases rule: mem.IssueToken_cases) (use assms(4) in \<open>auto simp: new_response_def\<close>)
  have pre: "graphics ''opq_''" by code_simp
  show ?thesis
    using RawURLEncoding_inject [of b b2] RawURLEncoding_graphic [of b] len pre
    by (auto simp: t t2 opaque_token_def length_RawURLEncoding HasPrefix_def)
qed

theorem token_text_injective_witness:
  "length demo_token = 47"
  using token_text_injective [OF demo_issue_pair demo_issue_pair, of demo_bytes "[]" demo_bytes "[]"]
  by (simp add: demo_read new_response_def)

text \<open>C40: \<open>expires_in\<close> is the configured lifetime in seconds, rounded down, for every lifetime
  below \<open>2 ^ 20\<close> seconds and every lifetime of whole seconds; beyond that the conversion through
  \<open>float64\<close> may round up to the next second.\<close>

theorem expires_in_seconds:
  assumes "IssueToken memory_ops lib ctx reqp s = (Inr resp, s')" and "0 \<le> sint (tokenTTL s)"
  shows "(sint (tokenTTL s) div 1000000000 < 2 ^ 20 \<or> sint (tokenTTL s) mod 1000000000 = 0 \<longrightarrow>
      ExpiresIn resp = word_of_int (sint (tokenTTL s) div 1000000000))
    \<and> ExpiresIn resp \<in> {word_of_int (sint (tokenTTL s) div 1000000000),
                        word_of_int (sint (tokenTTL s) div 1000000000 + 1)}"
proof -
  have e: "ExpiresIn resp = float_to_int64 (duration_Seconds (tokenTTL s))"
    using assms(1) by (cases rule: mem.IssueToken_cases) (auto simp: new_response_def)
  show ?thesis
    using int_seconds_cases [OF assms(2)] int_seconds_small [OF assms(2)] int_seconds_whole [OF assms(2)]
    unfolding e by (auto simp: whole_seconds_def nanos_per_second_def)
qed

theorem expires_in_seconds_witness:
  "fst (IssueToken memory_ops demo_lib demo_ctx (Some demo_request) demo_server)
   = Inr \<lparr>AccessToken = demo_token, TokenType = ''Bearer'', ExpiresIn = 3600, tresp_Resource = [],
          tresp_Scope = ''read''\<rparr>"
  using expires_in_seconds [OF demo_issue_pair] demo_issue [of demo_ctx]
  by (simp add: new_response_def demo_request_def)

section \<open>Telemetry\<close>

text \<open>Every call of \<open>IssueToken\<close> appends exactly one entry to the audit trail, an
  information entry when a token was issued and a warning when the request was refused.\<close>

theorem IssueToken_audited:
  "\<exists>msg as. audit_log (telemetry (snd (IssueToken memory_ops lib ctx reqp s)))
     = audit_log (telemetry s) @
       [LogEntry (logger (telemetry s)) (case fst (IssueToken memory_ops lib ctx reqp s) of Inr r \<Rightarrow> LevelInfo
                  | Inl e \<Rightarrow> LevelWarn) msg as]"
  by (cases "ReadFull [] tokenEntropyLen (randReader s)")
    (auto simp: IssueToken_def issue_authorized_def service_now_eq Let_def generateRandomBase64_def
      record_token_request_def now_def SaveToken_def
      split: prod.splits sum.splits option.splits
      intro: RecordTokenRequest_audit_level dest: authorize_status)

text \<open>C39: what telemetry emits does not depend on the secret presented, beyond whether bcrypt
  accepts it, nor on the random bytes of the token: neither can leak into metrics, spans or the
  audit log.\<close>

theorem IssueToken_telemetry_no_secrets:
  assumes "\<And>c. clients (store s) (req_ClientID req) = Some c \<Longrightarrow>
      bcrypt_CompareHashAndPassword lib (SecretHash c) x1 = None \<longleftrightarrow>
      bcrypt_CompareHashAndPassword lib (SecretHash c) x2 = None"
    and "ReadFull [] tokenEntropyLen rd1 = (Inr b1, rd1')"
    and "ReadFull [] tokenEntropyLen rd2 = (Inr b2, rd2')"
  shows "telemetry (snd (IssueToken memory_ops lib ctx (Some (req\<lparr>req_ClientSecret := x1\<rparr>))
      (s\<lparr>randReader := rd1\<rparr>)))
    = telemetry (snd (IssueToken memory_ops lib ctx (Some (req\<lparr>req_ClientSecret := x2\<rparr>))
      (s\<lparr>randReader := rd2\<rparr>)))"
proof -
  have auth: "authorize_request memory_ops lib (req\<lparr>req_ClientSecret := x1\<rparr>) (store s)
      = authorize_request memory_ops lib (req\<lparr>req_ClientSecret := x2\<rparr>) (store s)"
  proof (cases "clients (store s) (req_ClientID req)")
    case (Some c)
    have "bcrypt_CompareHashAndPassword lib (SecretHash c) x1 \<noteq> None \<longleftrightarrow>
        bcrypt_CompareHashAndPassword lib (SecretHash c) x2 \<noteq> None"
      by (simp only: assms(1) [OF Some])
    with Some show ?thesis
      by (cases "ValidateAbsoluteURI (ip_literal lib) (req_Resource req)")
        (simp_all add: authorize_request_def GetClient_def del: not_None_eq)
  next
    case None
    then show ?thesis
      by (cases "ValidateAbsoluteURI (ip_literal lib) (req_Resource req)")
        (simp_all add: authorize_request_def GetClient_def)
  qed
  have read: "generateRandomBase64 tokenEntropyLen (s\<lparr>randReader := rd1, nowFunc := c, store := st\<rparr>)
      = (Inr (RawURLEncoding b1), s\<lparr>randReader := rd1', nowFunc := c, store := st\<rparr>)"
    "generateRandomBase64 tokenEntropyLen (s\<lparr>randReader := rd2, nowFunc := c, store := st\<rparr>)
      = (Inr (RawURLEncoding b2), s\<lparr>randReader := rd2', nowFunc := c, store := st\<rparr>)" for c st
    using assms(2,3) by (simp_all add: generateRandomBase64_def)
  obtain res st where a: "authorize_request memory_ops lib (req\<lparr>req_ClientSecret := x2\<rparr>) (store s)
      = (res, st)" by fastforce
  show ?thesis
  proof (cases res)
    case (Inl x)
    with a show ?thesis
      by (cases x) (simp add: IssueToken_def auth service_now_eq record_token_request_def now_def)
  next
    case (Inr c)
    have "TokenHash t \<noteq> [] \<Longrightarrow> SaveToken (Some t) st = (None, st\<lparr>tokens := (tokens st)(TokenHash t \<mapsto> t)\<rparr>)" for t
      by (simp add: SaveToken_def)
    with Inr a show ?thesis
      by (simp add: IssueToken_def auth service_now_eq issue_authorized_def read Let_def
          record_token_request_def now_def)
  qed
qed

theorem IssueToken_telemetry_no_secrets_witness:
  "telemetry (snd (IssueToken memory_ops demo_lib demo_ctx
      (Some (demo_request\<lparr>req_ClientSecret := ''a''\<rparr>)) (demo_server\<lparr>randReader := [Data demo_bytes]\<rparr>)))
   = telemetry (snd (IssueToken memory_ops demo_lib demo_ctx
      (Some (demo_request\<lparr>req_ClientSecret := ''b''\<rparr>)) (demo_server\<lparr>randReader := [Data demo_bytes]\<rparr>)))"
proof (rule IssueToken_telemetry_no_secrets [OF _ demo_read demo_read])
  fix c
  assume "clients (store demo_server) (req_ClientID demo_request) = Some c"
  then show "bcrypt_CompareHashAndPassword demo_lib (SecretHash c) ''a'' = None \<longleftrightarrow>
      bcrypt_CompareHashAndPassword demo_lib (SecretHash c) ''b'' = None"
    by (auto simp: demo_request_def demo_client_def demo_lib_def)
qed

end
