(* ===== verification/Service_Refinement.thy ===== *)
theory Service_Refinement
  imports Service_Properties
begin

text \<open>
  What an authorization server promises, without hashing, stores, randomness or telemetry: a
  register of clients and a table of grants, and which events each allows. The service over any
  store that keeps its contract refines it: each step of the service is a step of the
  specification with the same event, so every trace of the service is one of the specification.
\<close>

section \<open>The specification\<close>

text \<open>A grant is held under the fingerprint of its token; it can be used while it is live and not past
  its end.\<close>

record Grant =
  grant_client :: string
  grant_resource :: string
  grant_scope :: string
  grant_until :: time
  grant_live :: bool

record AuthSpec =
  registered :: "string \<Rightarrow> Client option"
  grants :: "string \<Rightarrow> Grant option"

definition spec_init :: AuthSpec where
  "spec_init = \<lparr>registered = Map.empty, grants = Map.empty\<rparr>"

definition usable :: "AuthSpec \<Rightarrow> string \<Rightarrow> time \<Rightarrow> Grant option" where
  "usable A tok t =
     (if tok = [] then None
      else case grants A (ComputeTokenHash tok) of
        None \<Rightarrow> None
      | Some g \<Rightarrow> (if grant_live g \<and> t \<le> grant_until g then Some g else None))"

text \<open>After revocation of a token its grant, if any, is dead.\<close>

definition kill :: "string \<Rightarrow> AuthSpec \<Rightarrow> AuthSpec" where
  "kill tok A =
     (if tok = [] then A
      else A\<lparr>grants := (grants A)(ComputeTokenHash tok :=
             map_option (\<lambda>g. g\<lparr>grant_live := False\<rparr>) (grants A (ComputeTokenHash tok)))\<rparr>)"

definition grant_of :: "Token \<Rightarrow> Grant" where
  "grant_of t = \<lparr>grant_client = ClientID t, grant_resource = Resource t, grant_scope = Scope t,
     grant_until = ExpiresAt t, grant_live = (\<not> IsRevoked t)\<rparr>"

text \<open>One event at time \<open>t\<close>, with tokens that live for \<open>ttl\<close>. What a refusal says is not fixed here.\<close>

inductive spec_step :: "Lib \<Rightarrow> duration \<Rightarrow> time \<Rightarrow> AuthSpec \<Rightarrow> service_event \<Rightarrow> AuthSpec \<Rightarrow> bool"
  for lib ttl t A where
  spec_register: "registered A (resp_ClientID resp) = None \<Longrightarrow> ID k = resp_ClientID resp \<Longrightarrow>
     client_valid lib k \<Longrightarrow>
     bcrypt_GenerateFromPassword lib n (resp_ClientSecret resp) cost = Inr (SecretHash k) \<Longrightarrow>
     spec_step lib ttl t A (Registered (Inr resp))
       (A\<lparr>registered := (registered A)(resp_ClientID resp \<mapsto> k)\<rparr>)"
| spec_no_register: "spec_step lib ttl t A (Registered (Inl e)) A"
| spec_issue: "registered A (req_ClientID req) = Some k \<Longrightarrow> client_may lib req k \<Longrightarrow>
     spec_step lib ttl t A (Issued (Inr resp))
       (A\<lparr>grants := (grants A)(ComputeTokenHash (AccessToken resp) \<mapsto>
          \<lparr>grant_client = req_ClientID req, grant_resource = req_Resource req, grant_scope = req_Scope req,
           grant_until = time_Add t ttl, grant_live = True\<rparr>)\<rparr>)"
| spec_no_issue: "spec_step lib ttl t A (Issued (Inl e)) A"
| spec_valid: "usable A tok t = Some (grant_of k) \<Longrightarrow> spec_step lib ttl t A (Validated tok (Inr k)) A"
| spec_invalid: "usable A tok t = None \<Longrightarrow> spec_step lib ttl t A (Validated tok (Inl e)) A"
| spec_active: "usable A tok t = Some g \<Longrightarrow> Active resp \<Longrightarrow> intro_ClientID resp = grant_client g \<Longrightarrow>
     intro_Resource resp = grant_resource g \<Longrightarrow> intro_Scope resp = grant_scope g \<Longrightarrow>
     spec_step lib ttl t A (Introspected tok (Inr resp)) A"
| spec_inactive: "usable A tok t = None \<Longrightarrow>
     spec_step lib ttl t A (Introspected tok (Inr inactive_response)) A"
| spec_revoke: "spec_step lib ttl t A (Revoked tok None) (kill tok A)"

text \<open>A run is at times from a given set.\<close>

inductive spec_run ::
  "Lib \<Rightarrow> duration \<Rightarrow> time set \<Rightarrow> AuthSpec \<Rightarrow> service_event list \<Rightarrow> AuthSpec \<Rightarrow> bool"
  for lib ttl T A where
  spec_none: "spec_run lib ttl T A [] A"
| spec_more: "spec_run lib ttl T A evs B \<Longrightarrow> t \<in> T \<Longrightarrow> spec_step lib ttl t B e C \<Longrightarrow>
    spec_run lib ttl T A (evs @ [e]) C"

inductive_cases spec_validated [elim!]: "spec_step lib ttl t A (Validated tok r) B"
inductive_cases spec_revoked [elim!]: "spec_step lib ttl t A (Revoked tok r) B"

section \<open>The clock of the service\<close>

lemma RegisterClient_reading:
  "reading (nowFunc (snd (RegisterClient ops lib reqp s))) = reading (nowFunc s)"
  by (auto simp: RegisterClient_def generateRandomHex_def generateRandomBase64_def service_now_eq Let_def
      split: option.split prod.split sum.split)

lemma ValidateToken_reading: "reading (nowFunc (snd (ValidateToken ops tok s))) = reading (nowFunc s)"
  by (auto simp: ValidateToken_def service_now_eq split: prod.split sum.split)

lemma IntrospectToken_reading: "reading (nowFunc (snd (IntrospectToken ops tok s))) = reading (nowFunc s)"
  using ValidateToken_reading [of ops tok s]
  by (auto simp: IntrospectToken_def split: prod.split sum.split)

lemma RevokeToken_reading: "reading (nowFunc (snd (RevokeToken ops tok s))) = reading (nowFunc s)"
  by (auto simp: RevokeToken_def split: prod.split option.split)

lemma service_step_reading:
  "service_step ops lib s e s' \<Longrightarrow> reading (nowFunc s') = reading (nowFunc s)"
  by (erule service_step.cases)
    (metis snd_conv IssueToken_reading RegisterClient_reading ValidateToken_reading IntrospectToken_reading
      RevokeToken_reading)+

section \<open>Refinement\<close>

definition abs_views :: "(string \<Rightarrow> Client option) \<Rightarrow> (string \<Rightarrow> Token option) \<Rightarrow> AuthSpec" where
  "abs_views cs ts = \<lparr>registered = cs, grants = (\<lambda>h. map_option grant_of (ts h))\<rparr>"

lemma abs_views_upd:
  "(abs_views cs ts)\<lparr>registered := (registered (abs_views cs ts))(k \<mapsto> c)\<rparr> = abs_views (cs(k \<mapsto> c)) ts"
  "(abs_views cs ts)\<lparr>grants := (grants (abs_views cs ts))(h \<mapsto> grant_of x)\<rparr> = abs_views cs (ts(h \<mapsto> x))"
  by (auto simp: abs_views_def)

context oauth_store
begin

abbreviation abs_of :: "'st Service \<Rightarrow> AuthSpec" where
  "abs_of s \<equiv> abs_views (clients_of (store s)) (tokens_of (store s))"

lemma ValidateToken_usable:
  "case fst (ValidateToken ops tok s) of
     Inr k \<Rightarrow> usable (abs_of s) tok (next_reading (nowFunc s)) = Some (grant_of k)
   | Inl e \<Rightarrow> usable (abs_of s) tok (next_reading (nowFunc s)) = None"
  by (auto simp: ValidateToken_result usable_def abs_views_def grant_of_def IsExpired_def time_After_def
      split: option.splits)

lemma abs_of_validate: "abs_of (snd (ValidateToken ops tok s)) = abs_of s"
  by (simp add: ValidateToken_frame)

lemma abs_of_introspect: "abs_of (snd (IntrospectToken ops tok s)) = abs_of s"
  by (simp add: IntrospectToken_frame)

text \<open>Revocation kills the grant; a token already revoked is stamped again.\<close>

lemma abs_of_revoke: "abs_of (snd (RevokeToken ops tok s)) = kill tok (abs_of s)"
proof (cases "tok = []")
  case True
  then show ?thesis by (simp add: RevokeToken_def kill_def)
next
  case False
  obtain e st where r: "op_RevokeToken ops (ComputeTokenHash tok) (store s) = (e, st)" by fastforce
  have st: "store (snd (RevokeToken ops tok s)) = st"
    using False r by (auto simp: RevokeToken_def split: option.split)
  have cl: "clients_of st = clients_of (store s)"
    using revoke_clients [of "ComputeTokenHash tok" "store s"] r by simp
  show ?thesis
  proof (cases "tokens_of (store s) (ComputeTokenHash tok)")
    case None
    from revoke_absent [OF None] r st cl None False show ?thesis
      by (auto simp: kill_def abs_views_def)
  next
    case (Some t)
    from revoke_present [OF Some] r st cl Some False show ?thesis
      by (auto simp: kill_def abs_views_def grant_of_def IsRevoked_def)
  qed
qed

lemma service_step_refines:
  assumes "service_step ops lib s e s'"
    and ok: "views_ok lib (tokenTTL s) (clients_of (store s)) (tokens_of (store s))"
  shows "\<exists>t \<in> range (reading (nowFunc s)). spec_step lib (tokenTTL s) t (abs_of s) e (abs_of s')"
  using assms(1)
proof cases
  case (register reqp r)
  from register(2) have "spec_step lib (tokenTTL s) (next_reading (nowFunc s)) (abs_of s) e (abs_of s')"
  proof (cases rule: RegisterClient_cases)
    case (rejected err)
    with register(1) show ?thesis by (simp add: spec_no_register)
  next
    case (registered req b1 b2 rd rd' h)
    let ?k = "registered_client req (hex_encode b1) h (next_reading (nowFunc s))"
    have "spec_step lib (tokenTTL s) (next_reading (nowFunc s)) (abs_of s) (Registered r)
      ((abs_of s)\<lparr>AuthSpec.registered := (AuthSpec.registered (abs_of s))(hex_encode b1 \<mapsto> ?k)\<rparr>)"
      unfolding registered(8)
      using spec_register [of "abs_of s" "register_response req (hex_encode b1) (RawURLEncoding b2)
          (next_reading (nowFunc s))" ?k lib "bcryptCalls s" "bcryptCost s"]
        registered(6,7) client_valid_registered [OF registered(2,3)]
      by (simp add: register_response_def abs_views_def) (simp add: registered_client_def)
    then show ?thesis unfolding abs_views_upd using registered register(1) by simp
  qed
  then show ?thesis by blast
next
  case (issue ctx treq r)
  from issue(2) show ?thesis
  proof (cases rule: IssueToken_cases)
    case (rejected err)
    with issue(1) show ?thesis by (auto simp: spec_no_issue)
  next
    case (granted req k b rd)
    let ?t = "new_token (opaque_token b) req k (issue_time s) (tokenTTL s)"
    have "ID k = req_ClientID req" using ok granted(2) by (auto simp: views_ok_def)
    then have g: "grant_of ?t = \<lparr>grant_client = req_ClientID req, grant_resource = req_Resource req,
        grant_scope = req_Scope req, grant_until = time_Add (issue_time s) (tokenTTL s), grant_live = True\<rparr>"
      by (simp add: grant_of_def new_token_def IsRevoked_def)
    have "spec_step lib (tokenTTL s) (issue_time s) (abs_of s) (Issued r)
        ((abs_of s)\<lparr>grants := (grants (abs_of s))(ComputeTokenHash (opaque_token b) \<mapsto> grant_of ?t)\<rparr>)"
      unfolding g granted(5)
      using spec_issue [of "abs_of s" req k lib "tokenTTL s" "issue_time s" "new_response (opaque_token b) req (tokenTTL s)"]
        granted(2,3)
      by (simp add: abs_views_def new_response_def)
    then have "spec_step lib (tokenTTL s) (issue_time s) (abs_of s) e (abs_of s')"
      unfolding abs_views_upd using granted issue(1) by simp
    then show ?thesis by (auto simp: issue_time_def)
  qed
next
  case (validate tok r)
  from ValidateToken_usable [where tok = tok and s = s] validate(2) abs_of_validate [where tok = tok and s = s] validate(1) show ?thesis
    by (cases r) (auto intro: spec_valid spec_invalid)
next
  case (introspect tok r)
  have r: "r = fst (IntrospectToken ops tok s)" "abs_of s' = abs_of s"
    using introspect(2) abs_of_introspect [where tok = tok and s = s] by simp_all
  show ?thesis
  proof (cases "fst (ValidateToken ops tok s)")
    case (Inl err)
    with ValidateToken_usable [where tok = tok and s = s] r introspect(1) show ?thesis
      by (auto simp: IntrospectToken_result intro: spec_inactive)
  next
    case (Inr k)
    with ValidateToken_usable [where tok = tok and s = s] have
      "usable (abs_of s) tok (next_reading (nowFunc s)) = Some (grant_of k)" by simp
    with Inr r introspect(1) have
      "spec_step lib (tokenTTL s) (next_reading (nowFunc s)) (abs_of s) e (abs_of s')"
      by (auto simp: IntrospectToken_result grant_of_def intro!: spec_active)
    then show ?thesis by blast
  qed
next
  case (revoke tok r)
  with RevokeToken_result [where tok = tok and s = s] abs_of_revoke [where tok = tok and s = s] show ?thesis
    by (auto intro: spec_revoke)
qed

lemma service_run_refines:
  assumes "service_run ops lib s evs s'"
    and "views_ok lib (tokenTTL s) (clients_of (store s)) (tokens_of (store s))"
  shows "spec_run lib (tokenTTL s) (range (reading (nowFunc s))) (abs_of s) evs (abs_of s')
    \<and> tokenTTL s' = tokenTTL s \<and> reading (nowFunc s') = reading (nowFunc s)"
  using assms
proof (induction rule: service_run.induct)
  case run_none
  show ?case by (simp add: spec_none)
next
  case (run_step evs s1 e s2)
  note IH = run_step.IH [OF run_step.prems]
  from service_run_views_ok [OF run_step.hyps(1) run_step.prems] IH have
    "views_ok lib (tokenTTL s1) (clients_of (store s1)) (tokens_of (store s1))" by simp
  from service_step_refines [OF run_step.hyps(2) this] IH obtain t where
    "t \<in> range (reading (nowFunc s))" "spec_step lib (tokenTTL s) t (abs_of s1) e (abs_of s2)" by auto
  from spec_more [OF _ this] IH have
    "spec_run lib (tokenTTL s) (range (reading (nowFunc s))) (abs_of s) (evs @ [e]) (abs_of s2)" by blast
  moreover have "tokenTTL s2 = tokenTTL s1"
    using run_step.hyps(2) by (cases rule: service_step_views) auto
  ultimately show ?case using IH service_step_reading [OF run_step.hyps(2)] by simp
qed

end

section \<open>The specification is what one expects\<close>

text \<open>A dead grant stays dead until the same fingerprint is granted again.\<close>

lemma spec_run_dead:
  assumes "spec_run lib ttl T A evs B" "\<And>g. grants A h = Some g \<Longrightarrow> \<not> grant_live g" "h \<notin> issued_hashes evs"
  shows "\<forall>g. grants B h = Some g \<longrightarrow> \<not> grant_live g"
  using assms
proof (induction rule: spec_run.induct)
  case (spec_more evs B t e C)
  then have d: "\<forall>g. grants B h = Some g \<longrightarrow> \<not> grant_live g" and e: "h \<notin> issued_hashes [e]" by auto
  from spec_more.hyps(3) d e show ?case
    by cases (auto simp: kill_def issued_hashes_def)
qed simp

lemma fold_options_store: "store (fold apply_service_option opts s) = store s"
proof (induction opts arbitrary: s)
  case (Cons opt opts)
  have "store (apply_service_option opt s) = store s" by (cases opt) (auto split: option.split)
  with Cons show ?case by simp
qed simp



end
