(* ===== verification/Service_Concurrency.thy ===== *)
theory Service_Concurrency
  imports Service_Refinement
begin

text \<open>
  The service under concurrent requests. An HTTP server runs each request in its own goroutine,
  and the goroutines share the store, the random source, the clocks and the telemetry. A call of
  the service is the sequence of its accesses to these, as \<open>service.go\<close> makes them; each access
  is atomic (every \<open>MemoryStore\<close> method holds its mutex, the random source and the clock are
  safe for concurrent use), and between two accesses of one call any number of accesses of the
  others may happen. Run alone, a call does what the functions of \<open>Service\<close> do.
\<close>

section \<open>Calls as sequences of accesses\<close>

datatype service_call =
    RegisterCall "RegisterClientRequest option"
  | IssueCall Context "TokenRequest option"
  | ValidateCall string
  | IntrospectCall string
  | RevokeCall string

text \<open>The whole call at once.\<close>

fun at_once ::
  "'st StoreOps \<Rightarrow> Lib \<Rightarrow> service_call \<Rightarrow> 'st Service \<Rightarrow> service_event \<times> 'st Service" where
  "at_once ops lib (RegisterCall reqp) s = apfst Registered (RegisterClient ops lib reqp s)"
| "at_once ops lib (IssueCall ctx reqp) s = apfst Issued (IssueToken ops lib ctx reqp s)"
| "at_once ops lib (ValidateCall tok) s = apfst (Validated tok) (ValidateToken ops tok s)"
| "at_once ops lib (IntrospectCall tok) s = apfst (Introspected tok) (IntrospectToken ops tok s)"
| "at_once ops lib (RevokeCall tok) s = apfst (Revoked tok) (RevokeToken ops tok s)"

lemma service_step_iff:
  "service_step ops lib s e s' \<longleftrightarrow> (\<exists>call. at_once ops lib call s = (e, s'))"
proof
  assume "service_step ops lib s e s'"
  then show "\<exists>call. at_once ops lib call s = (e, s')"
    by cases (metis apfst_conv at_once.simps)+
next
  assume "\<exists>call. at_once ops lib call s = (e, s')"
  then obtain call where "at_once ops lib call s = (e, s')" by blast
  then show "service_step ops lib s e s'"
    by (cases call) (auto simp: apfst_def map_prod_def split: prod.splits intro: service_step.intros)
qed

text \<open>
  Where a call stands, with the local variables that its remaining accesses use. \<open>Recording\<close> is a call of
  \<open>IssueToken\<close> that has its answer and still has to record it.
\<close>

datatype call_pc =
    Waiting
  | Invoked
  | Named RegisterClientRequest string
  | Secured RegisterClientRequest string string
  | Hashed RegisterClientRequest string string bytes
  | Creating Client string
  | Timed time
  | Allowed time TokenRequest Client
  | Drawn time TokenRequest Client string
  | Saving time TokenRequest string Token
  | Recording string string string string time "go_error option" "go_error + TokenResponse"
  | Looked Token
  | Returned service_event

text \<open>What \<open>ValidateToken\<close> answers with the token it read and the time it read afterwards, and what
  \<open>IntrospectToken\<close> makes of it.\<close>

definition validate_answer :: "Token \<Rightarrow> time \<Rightarrow> go_error + Token" where
  "validate_answer token t =
     (if IsRevoked token then Inl (oauth_err ErrTokenRevoked)
      else if IsExpired token t then Inl (oauth_err ErrTokenExpired)
      else Inr token)"

definition introspect_answer :: "go_error + Token \<Rightarrow> go_error + IntrospectResponse" where
  "introspect_answer r =
     (case r of
        Inl e \<Rightarrow>
          (if errors_Is e (OAuthErr ErrTokenNotFound) \<or> errors_Is e (OAuthErr ErrTokenExpired)
              \<or> errors_Is e (OAuthErr ErrTokenRevoked) \<or> errors_Is e (OAuthErr ErrInvalidRequest)
           then Inr inactive_response else Inl e)
      | Inr token \<Rightarrow>
          Inr \<lparr>Active = True, intro_ClientID = ClientID token, intro_Resource = Resource token,
               intro_Scope = Scope token, Exp = time_Unix (ExpiresAt token),
               intro_TokenType = ''Bearer''\<rparr>)"

section \<open>The accesses\<close>

definition register_next ::
  "'st StoreOps \<Rightarrow> Lib \<Rightarrow> RegisterClientRequest option \<Rightarrow> call_pc \<Rightarrow> 'st Service
   \<Rightarrow> call_pc \<times> 'st Service" where
  "register_next ops lib reqp p s =
     (case p of
        Invoked \<Rightarrow>
         (case reqp of
            None \<Rightarrow>
              (Returned (Registered (Inl (Wrapf [] (oauth_err ErrInvalidRequest) [Lit '': name is required'']))), s)
          | Some req \<Rightarrow>
           if TrimSpace (reg_Name req) = [] then
             (Returned (Registered (Inl (Wrapf [] (oauth_err ErrInvalidRequest) [Lit '': name is required'']))), s)
           else case first_invalid (ip_literal lib) (reg_AllowedResources req) of
             Some (res, e) \<Rightarrow>
               (Returned (Registered (Inl (Wrapf [] (oauth_err ErrInvalidTarget)
                  ([Lit '': invalid allowed_resource '', Quoted res, Lit '': ''] @ error_text e)))), s)
           | None \<Rightarrow>
            (case generateRandomHex 16 s of
               (Inl e, s) \<Rightarrow> (Returned (Registered (Inl (Wrapf [Lit ''failed to generate client_id: ''] e []))), s)
             | (Inr clientID, s) \<Rightarrow> (Named req clientID, s)))
      | Named req clientID \<Rightarrow>
         (case generateRandomBase64 32 s of
            (Inl e, s) \<Rightarrow> (Returned (Registered (Inl (Wrapf [Lit ''failed to generate client_secret: ''] e []))), s)
          | (Inr rawSecret, s) \<Rightarrow> (Secured req clientID rawSecret, s))
      | Secured req clientID rawSecret \<Rightarrow>
         (let hashed = bcrypt_GenerateFromPassword lib (bcryptCalls s) rawSecret (bcryptCost s);
              s = s\<lparr>bcryptCalls := Suc (bcryptCalls s)\<rparr>
          in case hashed of
            Inl e \<Rightarrow> (Returned (Registered (Inl (Wrapf [Lit ''failed to hash secret: ''] e []))), s)
          | Inr hashedSecret \<Rightarrow> (Hashed req clientID rawSecret hashedSecret, s))
      | Hashed req clientID rawSecret hashedSecret \<Rightarrow>
         (case service_now s of (now_time, s) \<Rightarrow>
            (Creating \<lparr>ID = clientID, SecretHash = hashedSecret, Name = reg_Name req,
                       AllowedResources = reg_AllowedResources req,
                       AllowedScopes = reg_AllowedScopes req, CreatedAt = now_time\<rparr> rawSecret, s))
      | Creating client rawSecret \<Rightarrow>
         (case op_CreateClient ops (Some client) (store s) of
            (Some e, st) \<Rightarrow>
              (Returned (Registered (Inl (Wrapf [Lit ''failed to store client: ''] e []))), s\<lparr>store := st\<rparr>)
          | (None, st) \<Rightarrow>
              (Returned (Registered (Inr \<lparr>resp_ClientID = ID client, resp_ClientSecret = rawSecret,
                 resp_Name = Name client, resp_AllowedResources = AllowedResources client,
                 resp_AllowedScopes = AllowedScopes client, resp_CreatedAt = CreatedAt client\<rparr>)),
               s\<lparr>store := st\<rparr>))
      | _ \<Rightarrow> (p, s))"

definition issue_next ::
  "'st StoreOps \<Rightarrow> Lib \<Rightarrow> Context \<Rightarrow> TokenRequest option \<Rightarrow> call_pc \<Rightarrow> 'st Service
   \<Rightarrow> call_pc \<times> 'st Service" where
  "issue_next ops lib ctx reqp p s =
     (case p of
        Invoked \<Rightarrow> (case service_now s of (start, s) \<Rightarrow> (Timed start, s))
      | Timed start \<Rightarrow>
         (case reqp of
            None \<Rightarrow>
              (Recording [] ''invalid_request'' [] [] start (Some (oauth_err ErrInvalidRequest))
                 (Inl (oauth_err ErrInvalidRequest)), s)
          | Some req \<Rightarrow>
             (case authorize_request ops lib req (store s) of
                (Inl (status, e), st) \<Rightarrow>
                  (Recording (req_GrantType req) status (req_ClientID req) (req_Resource req) start
                     (Some e) (Inl e), s\<lparr>store := st\<rparr>)
              | (Inr client, st) \<Rightarrow> (Allowed start req client, s\<lparr>store := st\<rparr>)))
      | Allowed start req client \<Rightarrow>
         (case generateRandomBase64 tokenEntropyLen s of
            (Inl e, s) \<Rightarrow>
              (Recording (req_GrantType req) ''internal_error'' (req_ClientID req) (req_Resource req)
                 start (Some e) (Inl (Wrapf [Lit ''failed to generate token: ''] e [])), s)
          | (Inr rawToken, s) \<Rightarrow> (Drawn start req client (''opq_'' @ rawToken), s))
      | Drawn start req client opaqueToken \<Rightarrow>
         (case service_now s of (now_time, s) \<Rightarrow>
            (Saving start req opaqueToken
               \<lparr>TokenHash = ComputeTokenHash opaqueToken, ClientID = ID client,
                Resource = req_Resource req, Scope = req_Scope req,
                ExpiresAt = time_Add now_time (tokenTTL s), IssuedAt = now_time, RevokedAt = None\<rparr>, s))
      | Saving start req opaqueToken token \<Rightarrow>
         (case op_SaveToken ops (Some token) (store s) of
            (Some e, st) \<Rightarrow>
              (Recording (req_GrantType req) ''internal_error'' (req_ClientID req) (req_Resource req)
                 start (Some e) (Inl (Wrapf [Lit ''failed to store token: ''] e [])), s\<lparr>store := st\<rparr>)
          | (None, st) \<Rightarrow>
              (Recording (req_GrantType req) ''ok'' (req_ClientID req) (req_Resource req) start None
                 (Inr \<lparr>AccessToken = opaqueToken, TokenType = ''Bearer'',
                       ExpiresIn = float_to_int64 (duration_Seconds (tokenTTL s)),
                       tresp_Resource = req_Resource req, tresp_Scope = req_Scope req\<rparr>),
               s\<lparr>store := st\<rparr>))
      | Recording grant status cid res start err r \<Rightarrow>
          (Returned (Issued r), record_token_request ctx grant status cid res start err s)
      | _ \<Rightarrow> (p, s))"

text \<open>\<open>ValidateToken\<close>, and \<open>IntrospectToken\<close> around it: \<open>answer\<close> makes the event of the result.\<close>

definition validate_next ::
  "'st StoreOps \<Rightarrow> string \<Rightarrow> (go_error + Token \<Rightarrow> service_event) \<Rightarrow> call_pc \<Rightarrow> 'st Service
   \<Rightarrow> call_pc \<times> 'st Service" where
  "validate_next ops rawToken answer p s =
     (case p of
        Invoked \<Rightarrow>
          (if rawToken = [] then (Returned (answer (Inl (oauth_err ErrInvalidRequest))), s)
           else case op_GetTokenByHash ops (ComputeTokenHash rawToken) (store s) of
             (Inl e, st) \<Rightarrow>
               (Returned (answer (Inl (if errors_Is e (OAuthErr ErrTokenNotFound)
                  then oauth_err ErrTokenNotFound
                  else Wrapf [Lit ''failed to retrieve token: ''] e []))), s\<lparr>store := st\<rparr>)
           | (Inr token, st) \<Rightarrow> (Looked token, s\<lparr>store := st\<rparr>))
      | Looked token \<Rightarrow>
         (case service_now s of (now_time, s) \<Rightarrow> (Returned (answer (validate_answer token now_time)), s))
      | _ \<Rightarrow> (p, s))"

definition revoke_next ::
  "'st StoreOps \<Rightarrow> string \<Rightarrow> call_pc \<Rightarrow> 'st Service \<Rightarrow> call_pc \<times> 'st Service" where
  "revoke_next ops rawToken p s =
     (case p of
        Invoked \<Rightarrow> (case RevokeToken ops rawToken s of (r, s) \<Rightarrow> (Returned (Revoked rawToken r), s))
      | _ \<Rightarrow> (p, s))"

text \<open>What makes the answer of a call that looks a token up.\<close>

fun lookup_answer :: "service_call \<Rightarrow> go_error + Token \<Rightarrow> service_event" where
  "lookup_answer (IntrospectCall tok) r = Introspected tok (introspect_answer r)"
| "lookup_answer (ValidateCall tok) r = Validated tok r"
| "lookup_answer _ r = Validated [] r"

definition call_next ::
  "'st StoreOps \<Rightarrow> Lib \<Rightarrow> service_call \<Rightarrow> call_pc \<Rightarrow> 'st Service \<Rightarrow> call_pc \<times> 'st Service" where
  "call_next ops lib call p s =
     (case p of
        Waiting \<Rightarrow> (Invoked, s)
      | _ \<Rightarrow>
         (case call of
            RegisterCall reqp \<Rightarrow> register_next ops lib reqp p s
          | IssueCall ctx reqp \<Rightarrow> issue_next ops lib ctx reqp p s
          | ValidateCall tok \<Rightarrow> validate_next ops tok (lookup_answer call) p s
          | IntrospectCall tok \<Rightarrow> validate_next ops tok (lookup_answer call) p s
          | RevokeCall tok \<Rightarrow> revoke_next ops tok p s))"

text \<open>A call left alone: its accesses follow each other.\<close>

fun alone ::
  "'st StoreOps \<Rightarrow> Lib \<Rightarrow> service_call \<Rightarrow> nat \<Rightarrow> call_pc \<Rightarrow> 'st Service \<Rightarrow> call_pc \<times> 'st Service" where
  "alone ops lib call 0 p s = (p, s)"
| "alone ops lib call (Suc n) p s = (case call_next ops lib call p s of (p, s) \<Rightarrow> alone ops lib call n p s)"

text \<open>The most accesses a call can still make.\<close>

fun accesses_left :: "call_pc \<Rightarrow> nat" where
  "accesses_left Waiting = 7"
| "accesses_left Invoked = 6"
| "accesses_left (Named _ _) = 4"
| "accesses_left (Secured _ _ _) = 3"
| "accesses_left (Hashed _ _ _ _) = 2"
| "accesses_left (Creating _ _) = 1"
| "accesses_left (Timed _) = 5"
| "accesses_left (Allowed _ _ _) = 4"
| "accesses_left (Drawn _ _ _ _) = 3"
| "accesses_left (Saving _ _ _ _) = 2"
| "accesses_left (Recording _ _ _ _ _ _ _) = 1"
| "accesses_left (Looked _) = 1"
| "accesses_left (Returned _) = 0"

text \<open>The points a call of each kind can be at.\<close>

definition fits :: "service_call \<Rightarrow> call_pc \<Rightarrow> bool" where
  "fits call p =
     (case p of
        Waiting \<Rightarrow> True
      | Invoked \<Rightarrow> True
      | Returned _ \<Rightarrow> True
      | Looked _ \<Rightarrow> (case call of ValidateCall _ \<Rightarrow> True | IntrospectCall _ \<Rightarrow> True | _ \<Rightarrow> False)
      | Named _ _ \<Rightarrow> (case call of RegisterCall _ \<Rightarrow> True | _ \<Rightarrow> False)
      | Secured _ _ _ \<Rightarrow> (case call of RegisterCall _ \<Rightarrow> True | _ \<Rightarrow> False)
      | Hashed _ _ _ _ \<Rightarrow> (case call of RegisterCall _ \<Rightarrow> True | _ \<Rightarrow> False)
      | Creating _ _ \<Rightarrow> (case call of RegisterCall _ \<Rightarrow> True | _ \<Rightarrow> False)
      | _ \<Rightarrow> (case call of IssueCall _ _ \<Rightarrow> True | _ \<Rightarrow> False))"

lemmas next_defs = call_next_def register_next_def issue_next_def validate_next_def revoke_next_def

lemma call_next_progress:
  assumes "fits call p" "call_next ops lib call p s = (p', s')"
  shows "fits call p' \<and> accesses_left p' \<le> accesses_left p - 1"
  using assms
  by (cases call; cases p)
    (auto simp: next_defs fits_def Let_def split: option.splits prod.splits sum.splits if_splits)

lemma call_next_pcs:
  assumes "call_next ops lib call p s = (p', s')"
  shows "p = Waiting \<Longrightarrow> p' = Invoked" "p \<noteq> Waiting \<Longrightarrow> p' \<noteq> Waiting" "p = Returned e \<Longrightarrow> p' = p"
  using assms
  by (cases p; cases call; auto simp: next_defs Let_def
      split: option.splits prod.splits sum.splits if_splits)+

lemma call_next_returned [simp]: "call_next ops lib call (Returned e) s = (Returned e, s)"
  by (cases call) (simp_all add: next_defs)

lemma alone_returned [simp]: "alone ops lib call n (Returned e) s = (Returned e, s)"
  by (induction n) simp_all

lemma accesses_left_0: "accesses_left p = 0 \<longleftrightarrow> (\<exists>e. p = Returned e)"
  by (cases p) simp_all

section \<open>A call alone is the function\<close>

lemma alone_Suc: "alone ops lib call (Suc n) p s
  = alone ops lib call n (fst (call_next ops lib call p s)) (snd (call_next ops lib call p s))"
  by (simp split: prod.split)

lemma alone_register:
  "alone ops lib (RegisterCall reqp) 7 Waiting s
   = (case RegisterClient ops lib reqp s of (r, s') \<Rightarrow> (Returned (Registered r), s'))"
  by (auto simp: numeral_eq_Suc call_next_def register_next_def RegisterClient_def Let_def split: option.split prod.split sum.split)


lemma alone_issue:
  "alone ops lib (IssueCall ctx reqp) 7 Waiting s
   = (case IssueToken ops lib ctx reqp s of (r, s') \<Rightarrow> (Returned (Issued r), s'))"
  by (auto simp: numeral_eq_Suc call_next_def issue_next_def IssueToken_def issue_authorized_def Let_def
      split: option.split prod.split sum.split)

lemma alone_validate:
  "alone ops lib (ValidateCall tok) 7 Waiting s
   = (case ValidateToken ops tok s of (r, s') \<Rightarrow> (Returned (Validated tok r), s'))"
  by (auto simp: numeral_eq_Suc call_next_def validate_next_def ValidateToken_def validate_answer_def
      split: prod.split sum.split)

lemma IntrospectToken_answer:
  "IntrospectToken ops tok s = apfst introspect_answer (ValidateToken ops tok s)"
  by (auto simp: IntrospectToken_def introspect_answer_def split: prod.split sum.split)

lemma alone_introspect:
  "alone ops lib (IntrospectCall tok) 7 Waiting s
   = (case IntrospectToken ops tok s of (r, s') \<Rightarrow> (Returned (Introspected tok r), s'))"
  unfolding IntrospectToken_answer
  by (auto simp: numeral_eq_Suc call_next_def validate_next_def ValidateToken_def validate_answer_def
      split: prod.split sum.split)

lemma alone_revoke:
  "alone ops lib (RevokeCall tok) 7 Waiting s
   = (case RevokeToken ops tok s of (r, s') \<Rightarrow> (Returned (Revoked tok r), s'))"
  by (auto simp: numeral_eq_Suc call_next_def revoke_next_def split: prod.split)

lemmas alone_calls = alone_register alone_issue alone_validate alone_introspect alone_revoke

lemma alone_at_once:
  "alone ops lib call 7 Waiting s = apfst Returned (at_once ops lib call s)"
  by (cases call) (simp_all add: alone_calls split: prod.split)

section \<open>Concurrent requests\<close>

text \<open>
  Request \<open>i\<close> is the call \<open>jobs i\<close>. Beside the service and where each request stands, the
  history tells in which order requests were invoked and returned. A schedule is the list of the
  requests in the order in which they get to make their next access.
\<close>

datatype call_mark = Invoke nat | Return nat service_event

record 'st Serving =
  serving :: "'st Service"
  requests :: "nat \<Rightarrow> call_pc"
  history :: "call_mark list"

definition serving_init :: "'st Service \<Rightarrow> 'st Serving" where
  "serving_init s = \<lparr>serving = s, requests = (\<lambda>_. Waiting), history = []\<rparr>"

definition marks :: "nat \<Rightarrow> call_pc \<Rightarrow> call_pc \<Rightarrow> call_mark list" where
  "marks i p p' =
     (case p of
        Waiting \<Rightarrow> [Invoke i]
      | Returned _ \<Rightarrow> []
      | _ \<Rightarrow> (case p' of Returned e \<Rightarrow> [Return i e] | _ \<Rightarrow> []))"

definition serve_next ::
  "'st StoreOps \<Rightarrow> Lib \<Rightarrow> (nat \<Rightarrow> service_call) \<Rightarrow> nat \<Rightarrow> 'st Serving \<Rightarrow> 'st Serving" where
  "serve_next ops lib jobs i c =
     (case call_next ops lib (jobs i) (requests c i) (serving c) of
        (p, s) \<Rightarrow>
          c\<lparr>serving := s, requests := (requests c)(i := p),
            history := history c @ marks i (requests c i) p\<rparr>)"

definition serve ::
  "'st StoreOps \<Rightarrow> Lib \<Rightarrow> (nat \<Rightarrow> service_call) \<Rightarrow> nat list \<Rightarrow> 'st Serving \<Rightarrow> 'st Serving" where
  "serve ops lib jobs sched c = fold (serve_next ops lib jobs) sched c"

lemma serve_simps [simp]:
  "serve ops lib jobs [] c = c"
  "serve ops lib jobs (i # sched) c = serve ops lib jobs sched (serve_next ops lib jobs i c)"
  "serve ops lib jobs (sched @ [i]) c = serve_next ops lib jobs i (serve ops lib jobs sched c)"
  by (simp_all add: serve_def)

lemma serve_next_simps [simp]:
  "serving (serve_next ops lib jobs i c) = snd (call_next ops lib (jobs i) (requests c i) (serving c))"
  "requests (serve_next ops lib jobs i c)
     = (requests c)(i := fst (call_next ops lib (jobs i) (requests c i) (serving c)))"
  "history (serve_next ops lib jobs i c)
     = history c @ marks i (requests c i) (fst (call_next ops lib (jobs i) (requests c i) (serving c)))"
  by (simp_all add: serve_next_def split: prod.split)

text \<open>A schedule that runs one request to its end is the function call.\<close>

lemma serve_replicate:
  "serving (serve ops lib jobs (replicate n i) c) = snd (alone ops lib (jobs i) n (requests c i) (serving c))
   \<and> requests (serve ops lib jobs (replicate n i) c)
       = (requests c)(i := fst (alone ops lib (jobs i) n (requests c i) (serving c)))"
proof (induction n arbitrary: c)
  case (Suc n)
  from Suc [of "serve_next ops lib jobs i c"] show ?case
    by (auto simp: alone_Suc fun_eq_iff simp del: alone.simps(2))
qed simp

lemma serve_append: "serve ops lib jobs (xs @ ys) c = serve ops lib jobs ys (serve ops lib jobs xs c)"
  by (simp add: serve_def)

lemma serve_replicate_history:
  "requests c i \<noteq> Waiting \<Longrightarrow> history (serve ops lib jobs (replicate n i) c) = history c @
     (case requests c i of
        Returned _ \<Rightarrow> []
      | _ \<Rightarrow> (case requests (serve ops lib jobs (replicate n i) c) i of Returned e \<Rightarrow> [Return i e] | _ \<Rightarrow> []))"
proof (induction n arbitrary: c)
  case 0
  then show ?case by (simp split: call_pc.splits)
next
  case (Suc n)
  let ?c = "serve_next ops lib jobs i c" and ?d = "serve ops lib jobs (replicate n i) (serve_next ops lib jobs i c)"
  have nw: "requests ?c i \<noteq> Waiting"
    using Suc.prems call_next_pcs(2) [of ops lib "jobs i" "requests c i" "serving c"]
    by (metis fun_upd_same prod.collapse serve_next_simps(2))
  have ret: "requests ?d i = requests ?c i" if "requests ?c i = Returned e" for e
    using serve_replicate [of ops lib jobs n i ?c] that by simp
  from Suc.IH [OF nw] Suc.prems ret show ?case
    by (cases "requests c i"; cases "requests ?c i") (simp_all add: marks_def)
qed

text \<open>A request that has not begun and runs to its end leaves the invocation and the return.\<close>

lemma serve_alone:
  assumes "requests c i = Waiting" "at_once ops lib (jobs i) (serving c) = (e, s)"
  shows "serve ops lib jobs (replicate 7 i) c =
    c\<lparr>serving := s, requests := (requests c)(i := Returned e), history := history c @ [Invoke i, Return i e]\<rparr>"
proof -
  let ?c = "serve_next ops lib jobs i c" and ?d = "serve ops lib jobs (replicate 7 i) c"
  have d: "?d = serve ops lib jobs (replicate 6 i) ?c" by (simp add: numeral_eq_Suc)
  have c: "requests ?c i = Invoked" using assms(1) by (simp add: call_next_def)
  have s: "serving ?d = s" "requests ?d = (requests c)(i := Returned e)"
    using assms serve_replicate [of ops lib jobs 7 i c] by (simp_all add: alone_at_once)
  have "history ?d = history ?c @ [Return i e]"
    using serve_replicate_history [of ?c i ops lib jobs 6] c s(2) unfolding d by simp
  also have "history ?c = history c @ [Invoke i]" using assms(1) by (simp add: marks_def)
  finally show ?thesis using s by simp
qed

text \<open>Whatever the others do, a request is answered once it has had its seven accesses.\<close>

lemma serve_fits: "\<forall>i. fits (jobs i) (requests c i) \<Longrightarrow>
    fits (jobs i) (requests (serve ops lib jobs sched c) i)
    \<and> accesses_left (requests (serve ops lib jobs sched c) i)
      \<le> accesses_left (requests c i) - count_list sched i"
proof (induction sched rule: rev_induct)
  case (snoc j sched)
  let ?c = "serve ops lib jobs sched c"
  obtain p s where n: "call_next ops lib (jobs j) (requests ?c j) (serving ?c) = (p, s)" by fastforce
  from snoc call_next_progress [OF _ n] show ?case
    by (cases "i = j") (auto simp: n)
qed simp

lemma serve_returns:
  assumes "7 \<le> count_list sched i"
  shows "\<exists>e. requests (serve ops lib jobs sched (serving_init s)) i = Returned e"
proof -
  have "fits (jobs j) (requests (serving_init s) j)" for j by (simp add: serving_init_def fits_def)
  with serve_fits [of jobs "serving_init s" i ops lib sched] assms have
    "accesses_left (requests (serve ops lib jobs sched (serving_init s)) i) = 0"
    by (auto simp: serving_init_def)
  then show ?thesis by (simp add: accesses_left_0)
qed

end
