(* ===== verification/Service_Linearizable.thy ===== *)
theory Service_Linearizable
  imports Service_Concurrency
begin

text \<open>
  Concurrent requests of the service are linearizable: whatever the interleaving of their
  accesses, the answers are those of the specification of \<open>Service_Refinement\<close> when it serves the
  requests one after another, in an order that respects which request returned before which was
  invoked. A request takes its place in that order at one of its own accesses: a registration at
  \<open>CreateClient\<close>, an issue at \<open>SaveToken\<close>, a refusal when it is decided, a revocation at
  \<open>RevokeToken\<close>, a validation when it reads the token, although its answer is only fixed later,
  when it reads the clock.
\<close>

section \<open>What a call has settled\<close>

definition outcome :: "call_pc \<Rightarrow> service_event option" where
  "outcome p =
     (case p of
        Returned e \<Rightarrow> Some e
      | Recording _ _ _ _ _ _ r \<Rightarrow> Some (Issued r)
      | _ \<Rightarrow> None)"

definition looked_at :: "service_call \<Rightarrow> call_pc \<Rightarrow> (string \<times> Token) option" where
  "looked_at call p =
     (case p of
        Looked k \<Rightarrow>
          (case call of ValidateCall tok \<Rightarrow> Some (tok, k) | IntrospectCall tok \<Rightarrow> Some (tok, k) | _ \<Rightarrow> None)
      | _ \<Rightarrow> None)"

text \<open>What is known of the local variables of a call.\<close>

definition pc_ok ::
  "Lib \<Rightarrow> duration \<Rightarrow> time set \<Rightarrow> (string \<Rightarrow> Client option) \<Rightarrow> call_pc \<Rightarrow> bool" where
  "pc_ok lib ttl T cs p =
     (let named = (\<lambda>req cid. TrimSpace (reg_Name req) \<noteq> [] \<and> cid \<noteq> []
            \<and> first_invalid (ip_literal lib) (reg_AllowedResources req) = None);
          allowed = (\<lambda>req k. cs (req_ClientID req) = Some k \<and> client_may lib req k \<and> ID k = req_ClientID req)
      in case p of
        Named req cid \<Rightarrow> named req cid
      | Secured req cid _ \<Rightarrow> named req cid
      | Hashed req cid secret h \<Rightarrow> named req cid
          \<and> (\<exists>n cost. bcrypt_GenerateFromPassword lib n secret cost = Inr h)
      | Creating k secret \<Rightarrow> ID k \<noteq> [] \<and> client_valid lib k
          \<and> (\<exists>n cost. bcrypt_GenerateFromPassword lib n secret cost = Inr (SecretHash k))
      | Allowed _ req k \<Rightarrow> allowed req k
      | Drawn _ req k _ \<Rightarrow> allowed req k
      | Saving _ req opq token \<Rightarrow> (\<exists>k. \<exists>t \<in> T. allowed req k \<and> token = new_token opq req k t ttl)
      | _ \<Rightarrow> True)"

lemma pc_ok_mono: "pc_ok lib ttl T cs p \<Longrightarrow> cs \<subseteq>\<^sub>m ds \<Longrightarrow> pc_ok lib ttl T ds p"
  by (cases p) (auto simp: pc_ok_def map_le_def dom_def)

text \<open>What one access does to the abstract state and to what the call has settled.\<close>

inductive access_effect ::
  "Lib \<Rightarrow> duration \<Rightarrow> time set \<Rightarrow> service_call \<Rightarrow> AuthSpec \<Rightarrow> call_pc \<Rightarrow> AuthSpec \<Rightarrow> call_pc \<Rightarrow> bool"
  for lib ttl T call A p where
  silent: "outcome p' = outcome p \<Longrightarrow> looked_at call p' = looked_at call p \<Longrightarrow>
    access_effect lib ttl T call A p A p'"
| decides: "outcome p = None \<Longrightarrow> looked_at call p = None \<Longrightarrow> looked_at call p' = None \<Longrightarrow>
    outcome p' = Some e \<Longrightarrow> t \<in> T \<Longrightarrow> spec_step lib ttl t A e B \<Longrightarrow>
    access_effect lib ttl T call A p B p'"
| looks: "outcome p = None \<Longrightarrow> looked_at call p = None \<Longrightarrow> outcome p' = None \<Longrightarrow>
    looked_at call p' = Some (tok, k) \<Longrightarrow> tok \<noteq> [] \<Longrightarrow>
    grants A (ComputeTokenHash tok) = Some (grant_of k) \<Longrightarrow>
    access_effect lib ttl T call A p A p'"
| answers: "outcome p = None \<Longrightarrow> looked_at call p = Some (tok, k) \<Longrightarrow> looked_at call p' = None \<Longrightarrow>
    t \<in> T \<Longrightarrow> outcome p' = Some (lookup_answer call (validate_answer k t)) \<Longrightarrow>
    access_effect lib ttl T call A p A p'"

text \<open>Answers that tell a caller of a registration or an issue that nothing was made.\<close>

fun refused :: "service_event \<Rightarrow> bool" where
  "refused (Registered (Inl _)) = True"
| "refused (Issued (Inl _)) = True"
| "refused _ = False"

lemma introspect_refused [simp]:
  "introspect_answer (Inl (oauth_err ErrTokenNotFound)) = Inr inactive_response"
  "introspect_answer (Inl (oauth_err ErrTokenExpired)) = Inr inactive_response"
  "introspect_answer (Inl (oauth_err ErrTokenRevoked)) = Inr inactive_response"
  "introspect_answer (Inl (oauth_err ErrInvalidRequest)) = Inr inactive_response"
  by (simp_all add: introspect_answer_def)

lemma lookup_found:
  assumes "looked_at call p = Some (tok, k)" "tok \<noteq> []"
    and "grants A (ComputeTokenHash tok) = Some (grant_of k)"
  shows "spec_step lib ttl t A (lookup_answer call (validate_answer k t)) A"
proof (cases "IsRevoked k \<or> IsExpired k t")
  case True
  with assms(2,3) have "usable A tok t = None"
    by (auto simp: usable_def grant_of_def IsExpired_def time_After_def)
  with True assms(1) show ?thesis
    by (auto simp: looked_at_def validate_answer_def intro: spec_invalid spec_inactive
        split: call_pc.splits service_call.splits)
next
  case False
  with assms(2,3) have "usable A tok t = Some (grant_of k)"
    by (auto simp: usable_def grant_of_def IsExpired_def time_After_def)
  with False assms(1) show ?thesis
    by (auto simp: looked_at_def validate_answer_def introspect_answer_def grant_of_def
        intro: spec_valid spec_active split: call_pc.splits service_call.splits)
qed

section \<open>Linearizations\<close>

text \<open>
  The order in which requests take their places: a slot of a request that is settled holds its
  event; the slot of a look-up holds the token that was read until the answer is known.
\<close>

datatype slot = Settled nat service_event | Pending nat string Token

fun slot_of :: "slot \<Rightarrow> nat" where
  "slot_of (Settled i e) = i"
| "slot_of (Pending i tok k) = i"

inductive slots_run ::
  "Lib \<Rightarrow> duration \<Rightarrow> time set \<Rightarrow> AuthSpec \<Rightarrow> slot list \<Rightarrow> AuthSpec \<Rightarrow> bool"
  for lib ttl T A where
  slots_none: "slots_run lib ttl T A [] A"
| slots_settled: "slots_run lib ttl T A S B \<Longrightarrow> t \<in> T \<Longrightarrow> spec_step lib ttl t B e C \<Longrightarrow>
    slots_run lib ttl T A (S @ [Settled i e]) C"
| slots_pending: "slots_run lib ttl T A S B \<Longrightarrow> tok \<noteq> [] \<Longrightarrow>
    grants B (ComputeTokenHash tok) = Some (grant_of k) \<Longrightarrow>
    slots_run lib ttl T A (S @ [Pending i tok k]) B"

inductive_simps slots_run_Nil [simp]: "slots_run lib ttl T A [] B"
inductive_simps slots_run_settled: "slots_run lib ttl T A (S @ [Settled i e]) B"
inductive_simps slots_run_pending: "slots_run lib ttl T A (S @ [Pending i tok k]) B"

lemma slots_run_append:
  "slots_run lib ttl T A (S @ S') C \<longleftrightarrow> (\<exists>B. slots_run lib ttl T A S B \<and> slots_run lib ttl T B S' C)"
proof (induction S' arbitrary: C rule: rev_induct)
  case (snoc x S')
  show ?case
    by (cases x; simp only: append_assoc [symmetric] slots_run_settled slots_run_pending snoc)
      (force simp: slots_run_settled slots_run_pending)+
qed simp

text \<open>An answer takes the place of the look-up it came from.\<close>

lemma slots_run_fill:
  assumes "slots_run lib ttl T A (S @ Pending i tok k # S') C" "t \<in> T" "looked_at call p = Some (tok, k)"
  shows "slots_run lib ttl T A (S @ Settled i (lookup_answer call (validate_answer k t)) # S') C"
proof -
  let ?e = "lookup_answer call (validate_answer k t)"
  from assms(1) have "slots_run lib ttl T A ((S @ [Pending i tok k]) @ S') C" by simp
  then obtain B where b: "slots_run lib ttl T A S B" "tok \<noteq> []"
      "grants B (ComputeTokenHash tok) = Some (grant_of k)" and c: "slots_run lib ttl T B S' C"
    unfolding slots_run_append [where S' = S'] slots_run_pending by blast
  from slots_settled [OF b(1) assms(2) lookup_found [OF assms(3) b(2,3)]] c
  have "slots_run lib ttl T A ((S @ [Settled i ?e]) @ S') C"
    unfolding slots_run_append [where S' = S'] by blast
  then show ?thesis by simp
qed

text \<open>The settled requests, in order.\<close>

fun settled :: "slot list \<Rightarrow> (nat \<times> service_event) list" where
  "settled [] = []"
| "settled (Settled i e # S) = (i, e) # settled S"
| "settled (Pending i tok k # S) = settled S"

lemma settled_append [simp]: "settled (S @ S') = settled S @ settled S'"
  by (induction S rule: settled.induct) auto

lemma set_settled: "(i, e) \<in> set (settled S) \<longleftrightarrow> Settled i e \<in> set S"
  by (induction S rule: settled.induct) auto

lemma fst_settled: "set (map fst (settled S)) \<subseteq> set (map slot_of S)"
  by (induction S rule: settled.induct) auto

lemma distinct_settled: "distinct (map slot_of S) \<Longrightarrow> distinct (map fst (settled S))"
  using fst_settled by (induction S rule: settled.induct) force+

lemma slots_spec_run: "slots_run lib ttl T A S B \<Longrightarrow> spec_run lib ttl T A (map snd (settled S)) B"
  by (induction rule: slots_run.induct) (auto intro: spec_none spec_more)

text \<open>\<open>i\<close> comes before \<open>j\<close>.\<close>

definition precedes :: "nat list \<Rightarrow> nat \<Rightarrow> nat \<Rightarrow> bool" where
  "precedes xs i j \<longleftrightarrow> (\<exists>ys zs. xs = ys @ zs \<and> i \<in> set ys \<and> j \<in> set zs)"

lemma precedes_snoc: "i \<in> set xs \<Longrightarrow> precedes (xs @ [j]) i j"
  unfolding precedes_def by force

lemma precedes_append: "precedes xs i j \<Longrightarrow> precedes (xs @ ys) i j"
  unfolding precedes_def by force

lemma precedes_settled:
  assumes "precedes (map slot_of S) i j" "Settled i e \<in> set S" "Settled j f \<in> set S" "distinct (map slot_of S)"
  shows "precedes (map fst (settled S)) i j"
proof -
  from assms(1) obtain Y Z where S: "S = Y @ Z" "i \<in> set (map slot_of Y)" "j \<in> set (map slot_of Z)"
    unfolding precedes_def by (metis map_eq_append_conv)
  with assms(4) have "i \<notin> slot_of ` set Z" "j \<notin> slot_of ` set Y" by auto
  then have "Settled i e \<notin> set Z" "Settled j f \<notin> set Y" by (metis image_eqI slot_of.simps(1))+
  with S(1) assms(2,3) have "Settled i e \<in> set Y" "Settled j f \<in> set Z" by auto
  then have "i \<in> set (map fst (settled Y))" "j \<in> set (map fst (settled Z))"
    unfolding set_map by (metis fst_conv image_eqI set_settled)+
  then show ?thesis unfolding precedes_def S(1) settled_append map_append by blast
qed

text \<open>A linearization respects the order in which requests were visibly served.\<close>

definition real_time :: "call_mark list \<Rightarrow> nat list \<Rightarrow> bool" where
  "real_time H xs \<longleftrightarrow>
     (\<forall>H1 i e H2 j. H = H1 @ Return i e # H2 \<and> Invoke j \<notin> set H1 \<and> j \<in> set xs \<longrightarrow> precedes xs i j)"

lemma real_time_place:
  assumes "real_time H xs" "\<And>i e. Return i e \<in> set H \<Longrightarrow> i \<in> set xs"
  shows "real_time H (xs @ [j])"
  unfolding real_time_def
proof (intro allI impI, elim conjE)
  fix H1 i e H2 k
  assume H: "H = H1 @ Return i e # H2" "Invoke k \<notin> set H1" and k: "k \<in> set (xs @ [j])"
  show "precedes (xs @ [j]) i k"
  proof (cases "k \<in> set xs")
    case True
    with assms(1) H have "precedes xs i k" unfolding real_time_def by blast
    then show ?thesis by (rule precedes_append)
  next
    case False
    with k assms(2) [of i e] H(1) show ?thesis by (auto intro: precedes_snoc)
  qed
qed

lemma real_time_snoc:
  assumes "real_time H xs" "\<And>j. j \<in> set xs \<Longrightarrow> Invoke j \<in> set H"
  shows "real_time (H @ [m]) xs"
  unfolding real_time_def
proof (intro allI impI, elim conjE)
  fix H1 i e H2 j
  assume H: "H @ [m] = H1 @ Return i e # H2" and j: "Invoke j \<notin> set H1" "j \<in> set xs"
  show "precedes xs i j"
  proof (cases H2 rule: rev_cases)
    case Nil
    with H j assms(2) show ?thesis by auto
  next
    case (snoc H3 x)
    with H have "H = H1 @ Return i e # H3" by auto
    with assms(1) j show ?thesis unfolding real_time_def by blast
  qed
qed

lemma real_time_marks:
  assumes "real_time H xs" "\<And>j. j \<in> set xs \<Longrightarrow> Invoke j \<in> set H"
  shows "real_time (H @ marks i p p') xs"
  using assms real_time_snoc [OF assms]
  by (auto simp: marks_def split: call_pc.splits)

lemma spec_run_snoc: "spec_run lib ttl T A (evs @ [e]) C \<longleftrightarrow>
    (\<exists>B. \<exists>t \<in> T. spec_run lib ttl T A evs B \<and> spec_step lib ttl t B e C)"
  by (subst spec_run.simps) auto

lemma spec_run_append: "spec_run lib ttl T A (evs @ evs') C \<longleftrightarrow>
    (\<exists>B. spec_run lib ttl T A evs B \<and> spec_run lib ttl T B evs' C)"
proof (induction evs' arbitrary: C rule: rev_induct)
  case Nil
  show ?case by (auto intro: spec_none elim: spec_run.cases)
next
  case (snoc e evs')
  then show ?case by (simp only: append_assoc [symmetric] spec_run_snoc) (auto simp: snoc)
qed

text \<open>A successful validation after a revocation in a run of the specification: it was granted anew.\<close>

lemma spec_revoked_reissued:
  assumes "spec_run lib ttl T A (X @ Revoked tok None # Y @ Validated tok (Inr k) # Z) B"
  shows "ComputeTokenHash tok \<in> issued_hashes Y"
proof (rule ccontr)
  assume n: "ComputeTokenHash tok \<notin> issued_hashes Y"
  from assms have "spec_run lib ttl T A ((((X @ [Revoked tok None]) @ Y) @ [Validated tok (Inr k)]) @ Z) B"
    by simp
  then obtain A1 A3 t where a: "spec_run lib ttl T (kill tok A1) Y A3" "usable A3 tok t \<noteq> None"
    unfolding spec_run_append [where evs' = Z] spec_run_snoc spec_run_append [where evs' = Y] by auto
  from a(2) have "tok \<noteq> []" by (auto simp: usable_def)
  then have "\<And>g. grants (kill tok A1) (ComputeTokenHash tok) = Some g \<Longrightarrow> \<not> grant_live g"
    by (auto simp: kill_def)
  from spec_run_dead [OF a(1) this n] a(2) show False
    by (auto simp: usable_def split: option.splits if_splits)
qed

lemma precedes_split:
  assumes "precedes (map fst xs) i j" "(i, e) \<in> set xs" "(j, f) \<in> set xs" "distinct (map fst xs)"
  obtains X Y Z where "xs = X @ (i, e) # Y @ (j, f) # Z"
proof -
  from assms(1) obtain U W where U: "xs = U @ W" "i \<in> fst ` set U" "j \<in> fst ` set W"
    unfolding precedes_def by (metis map_eq_append_conv set_map)
  with assms(4) have "i \<notin> fst ` set W" "j \<notin> fst ` set U" by auto
  then have "(i, e) \<notin> set W" "(j, f) \<notin> set U" by force+
  with U(1) assms(2,3) have "(i, e) \<in> set U" "(j, f) \<in> set W" by auto
  then obtain X Y1 Y2 Z where "U = X @ (i, e) # Y1" "W = Y2 @ (j, f) # Z" by (metis split_list)
  with U(1) that [of X "Y1 @ Y2" Z] show ?thesis by simp
qed

lemma precedes_antisym:
  assumes "distinct xs" "precedes xs i j"
  shows "\<not> precedes xs j i"
proof
  assume "precedes xs j i"
  with assms(2) obtain U V Y Z where "xs = U @ V" "i \<in> set U" "j \<in> set V"
    "xs = Y @ Z" "j \<in> set Y" "i \<in> set Z" unfolding precedes_def by blast
  with assms(1) show False by (auto simp: append_eq_append_conv2)
qed

section \<open>Slots and history against the requests\<close>

definition slots_match :: "(nat \<Rightarrow> service_call) \<Rightarrow> (nat \<Rightarrow> call_pc) \<Rightarrow> slot list \<Rightarrow> bool" where
  "slots_match jobs R S \<longleftrightarrow>
     distinct (map slot_of S)
   \<and> (\<forall>i e. Settled i e \<in> set S \<longleftrightarrow> outcome (R i) = Some e)
   \<and> (\<forall>i tok k. Pending i tok k \<in> set S \<longleftrightarrow> looked_at (jobs i) (R i) = Some (tok, k))"

definition marks_match :: "(nat \<Rightarrow> call_pc) \<Rightarrow> call_mark list \<Rightarrow> bool" where
  "marks_match R H \<longleftrightarrow>
     (\<forall>i. Invoke i \<in> set H \<longleftrightarrow> R i \<noteq> Waiting)
   \<and> (\<forall>i e. Return i e \<in> set H \<longleftrightarrow> R i = Returned e)"

lemma slots_match_in:
  "slots_match jobs R S \<Longrightarrow> i \<in> set (map slot_of S) \<longleftrightarrow> outcome (R i) \<noteq> None \<or> looked_at (jobs i) (R i) \<noteq> None"
  unfolding slots_match_def set_map image_iff
  by (metis (no_types, lifting) not_None_eq prod.collapse slot.exhaust slot_of.simps)

lemma slots_match_silent:
  assumes "slots_match jobs R S" "outcome p = outcome (R i)" "looked_at (jobs i) p = looked_at (jobs i) (R i)"
  shows "slots_match jobs (R(i := p)) S"
  using assms by (simp add: slots_match_def)

lemma slots_match_decides:
  assumes "slots_match jobs R S" "outcome (R i) = None" "looked_at (jobs i) (R i) = None"
    and "outcome p = Some e" "looked_at (jobs i) p = None"
  shows "slots_match jobs (R(i := p)) (S @ [Settled i e])"
  using assms slots_match_in [OF assms(1), of i] by (auto simp: slots_match_def)

lemma slots_match_looks:
  assumes "slots_match jobs R S" "outcome (R i) = None" "looked_at (jobs i) (R i) = None"
    and "outcome p = None" "looked_at (jobs i) p = Some (tok, k)"
  shows "slots_match jobs (R(i := p)) (S @ [Pending i tok k])"
  using assms slots_match_in [OF assms(1), of i] by (auto simp: slots_match_def)

lemma slots_match_answers:
  assumes "slots_match jobs R (S @ Pending i tok k # S')" "outcome (R i) = None"
    and "outcome p = Some e" "looked_at (jobs i) p = None"
  shows "slots_match jobs (R(i := p)) (S @ Settled i e # S')"
proof -
  from assms(1) have d: "i \<notin> slot_of ` set S" "i \<notin> slot_of ` set S'"
    "distinct (map slot_of (S @ Settled i e # S'))" by (auto simp: slots_match_def)
  then have "x \<in> set S \<or> x \<in> set S' \<Longrightarrow> slot_of x \<noteq> i" for x by auto
  from this [of "Settled i _"] this [of "Pending i _ _"] assms d(3) show ?thesis
    by (auto simp: slots_match_def) blast+
qed

lemma marks_match_step:
  assumes "marks_match R H" "call_next ops lib call (R i) s = (p', s')"
  shows "marks_match (R(i := p')) (H @ marks i (R i) p')"
  using assms(1) call_next_pcs [OF assms(2)]
  by (cases "R i"; cases p') (auto simp: marks_match_def marks_def)

section \<open>The accesses of each call\<close>

context oauth_store
begin

text \<open>What an access keeps: clients are only added, the lifetime and the clock are those of the service.\<close>

definition keeps_frame :: "'st Service \<Rightarrow> 'st Service \<Rightarrow> bool" where
  "keeps_frame s s' \<longleftrightarrow> clients_of (store s) \<subseteq>\<^sub>m clients_of (store s')
     \<and> tokenTTL s' = tokenTTL s \<and> reading (nowFunc s') = reading (nowFunc s)"

abbreviation service_ok :: "Lib \<Rightarrow> 'st Service \<Rightarrow> bool" where
  "service_ok lib s \<equiv> views_ok lib (tokenTTL s) (clients_of (store s)) (tokens_of (store s))"

abbreviation call_ok :: "Lib \<Rightarrow> 'st Service \<Rightarrow> call_pc \<Rightarrow> bool" where
  "call_ok lib s p \<equiv> pc_ok lib (tokenTTL s) (range (reading (nowFunc s))) (clients_of (store s)) p"

definition good_access :: "Lib \<Rightarrow> service_call \<Rightarrow> 'st Service \<Rightarrow> call_pc \<Rightarrow> 'st Service \<Rightarrow> call_pc \<Rightarrow> bool" where
  "good_access lib call s p s' p' \<longleftrightarrow>
     keeps_frame s s' \<and> service_ok lib s' \<and> call_ok lib s' p'
   \<and> access_effect lib (tokenTTL s) (range (reading (nowFunc s))) call (abs_of s) p (abs_of s') p'"

lemma good_quiet:
  assumes "clients_of (store s') = clients_of (store s)" "tokens_of (store s') = tokens_of (store s)"
    and "tokenTTL s' = tokenTTL s" "reading (nowFunc s') = reading (nowFunc s)"
    and "service_ok lib s" "call_ok lib s p'"
    and "access_effect lib (tokenTTL s) (range (reading (nowFunc s))) call (abs_of s) p (abs_of s) p'"
  shows "good_access lib call s p s' p'"
  using assms by (simp add: good_access_def keeps_frame_def)

lemma good_silent:
  assumes "service_ok lib s" "call_ok lib s p'" "outcome p' = outcome p" "looked_at call p' = looked_at call p"
  shows "good_access lib call s p s p'"
  using assms by (intro good_quiet) (auto intro: silent)

text \<open>Most accesses change nothing the specification sees, and settle nothing or a refusal.\<close>

lemma good_local:
  assumes "clients_of (store s') = clients_of (store s)" "tokens_of (store s') = tokens_of (store s)"
    and "tokenTTL s' = tokenTTL s" "reading (nowFunc s') = reading (nowFunc s)"
    and "service_ok lib s" "call_ok lib s p'"
    and p: "outcome p = None" "looked_at call p = None" "looked_at call p' = None"
    and refusal: "case outcome p' of None \<Rightarrow> True | Some e \<Rightarrow> refused e"
  shows "good_access lib call s p s' p'"
proof (rule good_quiet [OF assms(1-6)])
  let ?T = "range (reading (nowFunc s))"
  show "access_effect lib (tokenTTL s) ?T call (abs_of s) p (abs_of s) p'"
  proof (cases "outcome p'")
    case None
    with p show ?thesis by (intro silent) simp_all
  next
    case (Some e)
    with refusal have "spec_step lib (tokenTTL s) (reading (nowFunc s) 0) (abs_of s) e (abs_of s)"
      by (auto elim!: refused.elims intro: spec_no_register spec_no_issue)
    from decides [OF p Some _ this] show ?thesis by simp
  qed
qed

lemma generateRandomHex_call:
  obtains (fail) e r where "generateRandomHex n s = (Inl e, s\<lparr>randReader := r\<rparr>)"
  | (ok) b r where "length b = n" "generateRandomHex n s = (Inr (hex_encode b), s\<lparr>randReader := r\<rparr>)"
  by (metis generateRandomHex_cases)

lemma hex_encode_nonempty: "length b = n \<Longrightarrow> 0 < n \<Longrightarrow> hex_encode b \<noteq> []"
  using length_hex_encode [of b] by auto

lemma good_create:
  assumes "call_ok lib s (Creating k secret)" "service_ok lib s"
    and "op_CreateClient ops (Some k) (store s) = (None, st)"
  shows "good_access lib call s (Creating k secret) (s\<lparr>store := st\<rparr>)
    (Returned (Registered (Inr \<lparr>resp_ClientID = ID k, resp_ClientSecret = secret,
                 resp_Name = Name k, resp_AllowedResources = AllowedResources k,
                 resp_AllowedScopes = AllowedScopes k, resp_CreatedAt = CreatedAt k\<rparr>)))"
proof -
  from assms(1) obtain n cost where k: "ID k \<noteq> []" "client_valid lib k"
    "bcrypt_GenerateFromPassword lib n secret cost = Inr (SecretHash k)" by (auto simp: pc_ok_def)
  have new: "clients_of (store s) (ID k) = None"
    using create_duplicate [of "store s" k] assms(3) by (metis fst_conv option.distinct(1))
  from create_new [OF k(1) new] assms(3) create_tokens [of "Some k" "store s"] have
    st: "clients_of st = (clients_of (store s))(ID k \<mapsto> k)" "tokens_of st = tokens_of (store s)" by simp_all
  let ?r = "\<lparr>resp_ClientID = ID k, resp_ClientSecret = secret, resp_Name = Name k,
    resp_AllowedResources = AllowedResources k, resp_AllowedScopes = AllowedScopes k, resp_CreatedAt = CreatedAt k\<rparr>"
  have "spec_step lib (tokenTTL s) (reading (nowFunc s) 0) (abs_of s) (Registered (Inr ?r))
      ((abs_of s)\<lparr>registered := (registered (abs_of s))(resp_ClientID ?r \<mapsto> k)\<rparr>)"
    by (rule spec_register [of _ ?r]) (use new k in \<open>auto simp: abs_views_def\<close>)
  then have "spec_step lib (tokenTTL s) (reading (nowFunc s) 0) (abs_of s) (Registered (Inr ?r)) (abs_of (s\<lparr>store := st\<rparr>))"
    using st abs_views_upd(1) [of "clients_of (store s)" "tokens_of (store s)" "ID k" k] by simp
  then have "access_effect lib (tokenTTL s) (range (reading (nowFunc s))) call (abs_of s) (Creating k secret)
      (abs_of (s\<lparr>store := st\<rparr>)) (Returned (Registered (Inr ?r)))"
    by (intro decides) (auto simp: outcome_def looked_at_def)
  moreover have "clients_of (store s) \<subseteq>\<^sub>m (clients_of (store s))(ID k \<mapsto> k)"
    using new by (auto simp: map_le_def)
  ultimately show ?thesis
    using st new k(2) assms(2) by (simp add: good_access_def keeps_frame_def pc_ok_def views_ok_register)
qed

lemma good_register:
  assumes "register_next ops lib reqp p s = (p', s')" "fits (RegisterCall reqp) p"
    and "call_ok lib s p" "service_ok lib s"
  shows "good_access lib (RegisterCall reqp) s p s' p'"
proof (cases p)
  case Invoked
  show ?thesis
  proof (cases rule: generateRandomHex_call [of 16 s])
    case (fail e r)
    with Invoked assms show ?thesis
      by (auto simp: register_next_def pc_ok_def outcome_def looked_at_def
          intro!: good_local split: option.splits if_splits)
  next
    case (ok b r)
    with Invoked assms show ?thesis
      by (auto simp: register_next_def pc_ok_def outcome_def looked_at_def hex_encode_nonempty
          intro!: good_local split: option.splits if_splits)
  qed
next
  case (Named req cid)
  with assms show ?thesis
    by (cases rule: generateRandomBase64_cases [of 32 s])
      (auto simp: register_next_def pc_ok_def outcome_def looked_at_def intro!: good_local)
next
  case (Secured req cid secret)
  with assms show ?thesis
    by (auto simp: register_next_def pc_ok_def outcome_def looked_at_def Let_def
        intro!: good_local split: sum.splits) blast
next
  case (Hashed req cid secret h)
  with assms show ?thesis
    by (auto simp: register_next_def pc_ok_def outcome_def looked_at_def service_now_eq client_valid_def
        first_invalid_None intro!: good_local) blast
next
  case (Creating k secret)
  obtain e st where c: "op_CreateClient ops (Some k) (store s) = (e, st)" by fastforce
  show ?thesis
  proof (cases e)
    case None
    with good_create [of lib s k secret st] assms Creating c show ?thesis by (auto simp: register_next_def)
  next
    case (Some x)
    from assms(3) Creating have "ID k \<noteq> []" by (auto simp: pc_ok_def)
    with create_new [of k "store s"] create_duplicate [of "store s" k] create_tokens [of "Some k" "store s"] c Some
    have "clients_of st = clients_of (store s)" "tokens_of st = tokens_of (store s)" by force+
    with assms Creating c Some show ?thesis
      by (auto simp: register_next_def pc_ok_def outcome_def looked_at_def intro!: good_local)
  qed
qed (use assms in \<open>auto simp: register_next_def fits_def intro!: good_silent\<close>)

lemma good_save:
  assumes "call_ok lib s (Saving start req opq token)" "service_ok lib s"
    and sv: "op_SaveToken ops (Some token) (store s) = (err, st)"
    and r: "outcome p' = Some (Issued (Inr resp))" "AccessToken resp = opq" "\<And>ttl T ds. pc_ok lib ttl T ds p'"
      "looked_at call p' = None"
  shows "err = None \<and> good_access lib call s (Saving start req opq token) (s\<lparr>store := st\<rparr>) p'"
proof -
  from assms(1) obtain k t where k: "t \<in> range (reading (nowFunc s))" "clients_of (store s) (req_ClientID req) = Some k"
    "client_may lib req k" "ID k = req_ClientID req" "token = new_token opq req k t (tokenTTL s)"
    by (auto simp: pc_ok_def)
  let ?h = "ComputeTokenHash opq"
  have "TokenHash token \<noteq> []" using k(5) by simp
  from save_token [OF this, of "store s"] save_clients [of "Some token" "store s"] sv k(5) have
    st: "err = None" "tokens_of st = (tokens_of (store s))(?h \<mapsto> token)" "clients_of st = clients_of (store s)"
    by simp_all
  have g: "grant_of token = \<lparr>grant_client = req_ClientID req, grant_resource = req_Resource req,
      grant_scope = req_Scope req, grant_until = time_Add t (tokenTTL s), grant_live = True\<rparr>"
    using k(4,5) by (simp add: grant_of_def new_token_def IsRevoked_def)
  have "spec_step lib (tokenTTL s) t (abs_of s) (Issued (Inr resp))
      ((abs_of s)\<lparr>grants := (grants (abs_of s))(?h \<mapsto> grant_of token)\<rparr>)"
    unfolding g using spec_issue [of "abs_of s" req k lib "tokenTTL s" t resp] k(2,3) r(2)
    by (simp add: abs_views_def)
  then have "spec_step lib (tokenTTL s) t (abs_of s) (Issued (Inr resp)) (abs_of (s\<lparr>store := st\<rparr>))"
    unfolding abs_views_upd using st by simp
  then have "access_effect lib (tokenTTL s) (range (reading (nowFunc s))) call (abs_of s) (Saving start req opq token)
      (abs_of (s\<lparr>store := st\<rparr>)) p'"
    using r k(1) by (intro decides) (auto simp: outcome_def looked_at_def)
  moreover have "views_ok lib (tokenTTL s) (clients_of (store s)) ((tokens_of (store s))(?h \<mapsto> token))"
    using assms(2) k by (intro views_ok_issue) (auto intro: token_within_new simp: new_token_lifetime)
  ultimately show ?thesis
    using st r(3) by (simp add: good_access_def keeps_frame_def)
qed

lemma good_issue:
  assumes "issue_next ops lib ctx reqp p s = (p', s')" "fits (IssueCall ctx reqp) p"
    and "call_ok lib s p" "service_ok lib s"
  shows "good_access lib (IssueCall ctx reqp) s p s' p'"
proof (cases p)
  case Invoked
  with assms show ?thesis
    by (auto simp: issue_next_def pc_ok_def outcome_def looked_at_def service_now_eq intro!: good_local)
next
  case (Timed start)
  show ?thesis
  proof (cases reqp)
    case None
    with Timed assms show ?thesis
      by (auto simp: issue_next_def pc_ok_def outcome_def looked_at_def intro!: good_local)
  next
    case (Some req)
    obtain r st where a: "authorize_request ops lib req (store s) = (r, st)" by fastforce
    have "clients_of (store s) (req_ClientID req) = Some k \<and> client_may lib req k \<and> ID k = req_ClientID req"
      if "r = Inr k" for k
      using a that authorize_ok [of lib req "store s" k] assms(4) by (auto simp: views_ok_def)
    with Timed Some a authorize_frame [OF a] assms show ?thesis
      by (cases r) (auto simp: issue_next_def pc_ok_def outcome_def looked_at_def intro!: good_local)
  qed
next
  case (Allowed start req k)
  with assms show ?thesis
    by (cases rule: generateRandomBase64_cases [of tokenEntropyLen s])
      (auto simp: issue_next_def pc_ok_def outcome_def looked_at_def intro!: good_local)
next
  case (Drawn start req k opq)
  with assms show ?thesis
    by (auto simp: issue_next_def pc_ok_def outcome_def looked_at_def service_now_eq new_token_def
        intro!: good_local)
next
  case (Saving start req opq token)
  obtain err st where sv: "op_SaveToken ops (Some token) (store s) = (err, st)" by fastforce
  let ?resp = "\<lparr>AccessToken = opq, TokenType = ''Bearer'', ExpiresIn = float_to_int64 (duration_Seconds (tokenTTL s)),
     tresp_Resource = req_Resource req, tresp_Scope = req_Scope req\<rparr>"
  let ?p = "Recording (req_GrantType req) ''ok'' (req_ClientID req) (req_Resource req) start None (Inr ?resp)"
  have "err = None \<and> good_access lib (IssueCall ctx reqp) s p (s\<lparr>store := st\<rparr>) ?p"
    unfolding Saving
    by (rule good_save [OF _ assms(4) sv, of start req opq ?p ?resp])
      (use assms(3) Saving in \<open>auto simp: outcome_def looked_at_def pc_ok_def\<close>)
  with Saving sv assms(1) show ?thesis by (auto simp: issue_next_def)
next
  case (Recording grant status cid res start err r)
  with assms show ?thesis
    by (auto simp: issue_next_def pc_ok_def outcome_def looked_at_def intro!: good_quiet silent)
qed (use assms in \<open>auto simp: issue_next_def fits_def intro!: good_silent\<close>)

lemma good_validate:
  assumes "validate_next ops tok (lookup_answer call) p s = (p', s')"
    and call: "call = ValidateCall tok \<or> call = IntrospectCall tok"
    and "call_ok lib s p" "service_ok lib s"
  shows "good_access lib call s p s' p'"
proof (cases p)
  case Invoked
  have dec: "access_effect lib ttl (range (reading c)) call A Invoked A (Returned (lookup_answer call (Inl (oauth_err e))))"
    if "usable A tok (reading c 0) = None" "e \<in> {ErrInvalidRequest, ErrTokenNotFound}" for ttl c A e
    using that call
    by (intro decides [where t = "reading c 0" and e = "lookup_answer call (Inl (oauth_err e))"])
      (auto simp: outcome_def looked_at_def intro: spec_invalid spec_inactive)
  show ?thesis
  proof (cases "tok = []")
    case True
    with Invoked assms dec [of "abs_of s" "nowFunc s" ErrInvalidRequest] show ?thesis
      by (auto simp: validate_next_def pc_ok_def usable_def intro!: good_quiet)
  next
    case False
    obtain r st where g: "op_GetTokenByHash ops (ComputeTokenHash tok) (store s) = (r, st)" by fastforce
    note G = GetToken_pair [OF g]
    show ?thesis
    proof (cases "tokens_of (store s) (ComputeTokenHash tok)")
      case None
      then have "usable (abs_of s) tok (reading (nowFunc s) 0) = None" by (simp add: usable_def abs_views_def)
      with False None Invoked assms g G dec [of "abs_of s" "nowFunc s" ErrTokenNotFound] show ?thesis
        by (auto simp: validate_next_def pc_ok_def intro!: good_quiet)
    next
      case (Some k)
      with False Invoked assms g G show ?thesis
        by (auto simp: validate_next_def pc_ok_def outcome_def looked_at_def abs_views_def
            intro!: good_quiet looks)
    qed
  qed
next
  case (Looked k)
  have "access_effect lib ttl (range (reading c)) call A p A (Returned (lookup_answer call (validate_answer k (reading c n))))"
    for ttl c n A
    using call Looked by (intro answers [of _ _ tok k]) (auto simp: outcome_def looked_at_def)
  with Looked assms show ?thesis
    by (auto simp: validate_next_def pc_ok_def service_now_eq intro!: good_quiet)
qed (use assms in \<open>auto simp: validate_next_def intro!: good_silent\<close>)

lemma good_revoke:
  assumes "revoke_next ops tok p s = (p', s')" "call_ok lib s p" "service_ok lib s"
  shows "good_access lib (RevokeCall tok) s p s' p'"
proof (cases "p = Invoked")
  case True
  obtain r s1 where r: "RevokeToken ops tok s = (r, s1)" by fastforce
  with True assms(1) RevokeToken_result [of tok s] have p: "p' = Returned (Revoked tok None)" "s' = s1"
    by (auto simp: revoke_next_def)
  have step: "service_step ops lib s (Revoked tok None) s1"
    using r RevokeToken_result [of tok s] by (auto intro: service_step.revoke)
  have "access_effect lib (tokenTTL s) (range (reading (nowFunc s))) (RevokeCall tok) (abs_of s) p (abs_of s1) p'"
    using True p abs_of_revoke [of tok s] r spec_revoke [of lib "tokenTTL s" "reading (nowFunc s) 0" "abs_of s" tok]
    by (intro decides) (auto simp: outcome_def looked_at_def)
  moreover have "keeps_frame s s1"
    using r RevokeToken_frame [of tok s] RevokeToken_reading [of ops tok s] by (simp add: keeps_frame_def)
  ultimately show ?thesis
    using p service_step_views_ok [OF step assms(3)] by (simp add: good_access_def pc_ok_def)
next
  case False
  with assms show ?thesis
    by (auto simp: revoke_next_def intro!: good_silent split: call_pc.splits)
qed

lemma call_next_good:
  assumes "call_next ops lib call p s = (p', s')" "fits call p" "call_ok lib s p" "service_ok lib s"
  shows "good_access lib call s p s' p'"
proof (cases "p = Waiting")
  case True
  with assms show ?thesis
    by (auto simp: call_next_def outcome_def looked_at_def pc_ok_def intro!: good_silent)
next
  case False
  with assms good_register [of lib _ p s p' s'] good_issue [of lib _ _ p s p' s']
    good_validate [of _ call p s p' s' lib] good_revoke [of _ p s p' s' lib]
  show ?thesis by (cases call) (auto simp: call_next_def split: call_pc.splits)
qed



section \<open>The invariant of concurrent service\<close>

definition serving_inv ::
  "Lib \<Rightarrow> (nat \<Rightarrow> service_call) \<Rightarrow> duration \<Rightarrow> time set \<Rightarrow> AuthSpec \<Rightarrow> 'st Serving \<Rightarrow> bool" where
  "serving_inv lib jobs ttl T A c \<longleftrightarrow>
     tokenTTL (serving c) = ttl \<and> range (reading (nowFunc (serving c))) = T
   \<and> service_ok lib (serving c)
   \<and> (\<forall>i. fits (jobs i) (requests c i) \<and> call_ok lib (serving c) (requests c i))
   \<and> marks_match (requests c) (history c)
   \<and> (\<exists>S. slots_run lib ttl T A S (abs_of (serving c)) \<and> slots_match jobs (requests c) S
        \<and> real_time (history c) (map slot_of S))"

lemma serving_slots_step:
  assumes S: "slots_run lib ttl T A S B" "slots_match jobs R S" "real_time H (map slot_of S)"
    and m: "marks_match R H" and e: "access_effect lib ttl T (jobs i) B (R i) B' p"
  shows "\<exists>S'. slots_run lib ttl T A S' B' \<and> slots_match jobs (R(i := p)) S' \<and> real_time H (map slot_of S')"
proof -
  have placed: "real_time H (map slot_of S @ [i])"
    using S(3) m slots_match_in [OF S(2)]
    by (intro real_time_place) (auto simp: marks_match_def outcome_def simp del: set_map)
  from e show ?thesis
  proof cases
    case silent
    with S slots_match_silent [OF S(2), of p i] show ?thesis by blast
  next
    case (decides e t)
    from slots_settled [OF S(1) decides(5,6)] slots_match_decides [OF S(2) decides(1,2,4,3)] placed
    show ?thesis by (intro exI [of _ "S @ [Settled i e]"]) simp
  next
    case (looks tok k)
    from slots_pending [OF S(1) looks(6,7)] slots_match_looks [OF S(2) looks(2,3,4,5)] placed looks(1)
    show ?thesis by (intro exI [of _ "S @ [Pending i tok k]"]) simp
  next
    case (answers tok k t)
    let ?e = "lookup_answer (jobs i) (validate_answer k t)"
    from S(2) answers(3) have "Pending i tok k \<in> set S" by (simp add: slots_match_def)
    then obtain U V where U: "S = U @ Pending i tok k # V" by (meson split_list)
    from slots_run_fill [OF S(1) [unfolded U] answers(5,3)]
      slots_match_answers [OF S(2) [unfolded U] answers(2,6,4)] S(3) U answers(1)
    show ?thesis by (intro exI [of _ "U @ Settled i ?e # V"]) simp
  qed
qed

lemma serving_inv_next:
  assumes "serving_inv lib jobs ttl T A c"
  shows "serving_inv lib jobs ttl T A (serve_next ops lib jobs i c)"
proof -
  let ?R = "requests c" and ?s = "serving c"
  obtain p s where n: "call_next ops lib (jobs i) (?R i) ?s = (p, s)" by fastforce
  from assms have inv: "tokenTTL ?s = ttl" "range (reading (nowFunc ?s)) = T" "service_ok lib ?s"
      "\<And>i. fits (jobs i) (?R i)" "\<And>i. call_ok lib ?s (?R i)" "marks_match ?R (history c)"
    by (auto simp: serving_inv_def)
  from assms obtain S where S: "slots_run lib ttl T A S (abs_of ?s)" "slots_match jobs ?R S"
      "real_time (history c) (map slot_of S)" by (auto simp: serving_inv_def)
  from call_next_good [OF n inv(4,5,3)] have g: "keeps_frame ?s s" "service_ok lib s" "call_ok lib s p"
      "access_effect lib ttl T (jobs i) (abs_of ?s) (?R i) (abs_of s) p"
    by (auto simp: good_access_def inv)
  from serving_slots_step [OF S inv(6) g(4)] obtain S' where S': "slots_run lib ttl T A S' (abs_of s)"
      "slots_match jobs (?R(i := p)) S'" "real_time (history c) (map slot_of S')" by blast
  have m: "marks_match (?R(i := p)) (history c @ marks i (?R i) p)"
    by (rule marks_match_step [OF inv(6) n])
  have "Invoke j \<in> set (history c)" if "j \<in> set (map slot_of S')" for j
  proof (cases "j = i")
    case True
    have "?R i \<noteq> Waiting"
      using that slots_match_in [OF S'(2), of j] call_next_pcs(1) [OF n] True
      by (auto simp: outcome_def looked_at_def)
    with True inv(6) show ?thesis by (simp add: marks_match_def)
  next
    case False
    with that slots_match_in [OF S'(2), of j] inv(6) show ?thesis
      by (auto simp: marks_match_def outcome_def looked_at_def)
  qed
  from real_time_marks [OF S'(3) this] have
    rt: "real_time (history c @ marks i (?R i) p) (map slot_of S')" .
  have "call_ok lib s (?R j)" for j
    using inv(5) [of j] g(1) by (auto simp: keeps_frame_def intro: pc_ok_mono)
  with g S' m rt n inv call_next_progress [OF inv(4) n] show ?thesis
    by (auto simp: serving_inv_def keeps_frame_def)
qed

lemma serving_inv_serve:
  "serving_inv lib jobs ttl T A c \<Longrightarrow> serving_inv lib jobs ttl T A (serve ops lib jobs sched c)"
  by (induction sched arbitrary: c) (auto intro: serving_inv_next)

lemma serving_inv_init:
  "service_ok lib s \<Longrightarrow>
   serving_inv lib jobs (tokenTTL s) (range (reading (nowFunc s))) (abs_of s) (serving_init s)"
  unfolding serving_inv_def
  by (intro conjI exI [of _ "[]"])
    (auto simp: serving_init_def fits_def pc_ok_def marks_match_def slots_match_def
      outcome_def looked_at_def real_time_def)

lemma serve_linearizable:
  assumes "service_ok lib s" "c = serve ops lib jobs sched (serving_init s)"
  obtains lin where "distinct (map fst lin)"
    "set lin = {(i, e). outcome (requests c i) = Some e}"
    "spec_run lib (tokenTTL s) (range (reading (nowFunc s))) (abs_of s) (map snd lin) (abs_of (serving c))"
    "real_time (history c) (map fst lin)"
proof -
  from serving_inv_serve [OF serving_inv_init [OF assms(1)], of jobs sched] obtain S where
    S: "slots_run lib (tokenTTL s) (range (reading (nowFunc s))) (abs_of s) S (abs_of (serving c))"
      "slots_match jobs (requests c) S" "real_time (history c) (map slot_of S)" and
    m: "marks_match (requests c) (history c)"
    by (auto simp: serving_inv_def assms(2))
  have "real_time (history c) (map fst (settled S))"
    unfolding real_time_def
  proof (intro allI impI, elim conjE)
    fix H1 i e H2 j
    assume H: "history c = H1 @ Return i e # H2" "Invoke j \<notin> set H1" "j \<in> set (map fst (settled S))"
    then obtain f where j: "Settled j f \<in> set S" by (auto simp: set_settled)
    from H(1) m have "requests c i = Returned e" by (auto simp: marks_match_def)
    with S(2) have i: "Settled i e \<in> set S" by (simp add: slots_match_def outcome_def)
    from j have "j \<in> set (map slot_of S)" by force
    with S(3) H have "precedes (map slot_of S) i j" unfolding real_time_def by blast
    with i j S(2) show "precedes (map fst (settled S)) i j"
      by (intro precedes_settled) (auto simp: slots_match_def)
  qed
  moreover have "set (settled S) = {(i, e). outcome (requests c i) = Some e}"
    using S(2) by (auto simp: slots_match_def set_settled)
  moreover have "distinct (map fst (settled S))" using S(2) by (simp add: slots_match_def distinct_settled)
  ultimately show ?thesis using that [of "settled S"] slots_spec_run [OF S(1)] by blast
qed

lemma marks_of_requests:
  assumes "service_ok lib s" "c = serve ops lib jobs sched (serving_init s)"
  shows "Return i e \<in> set (history c) \<longleftrightarrow> requests c i = Returned e"
  using serving_inv_serve [OF serving_inv_init [OF assms(1)], of jobs sched] assms(2)
  by (auto simp: serving_inv_def marks_match_def)

lemma revoked_then_validated:
  assumes ok: "service_ok lib s" and c: "c = serve ops lib jobs sched (serving_init s)"
    and H: "history c = H1 @ Return i (Revoked tok None) # H2" "Invoke j \<notin> set H1"
    and V: "Return j (Validated tok (Inr t)) \<in> set (history c)"
  shows "\<exists>k resp. outcome (requests c k) = Some (Issued (Inr resp))
    \<and> ComputeTokenHash (AccessToken resp) = ComputeTokenHash tok
    \<and> (\<forall>G1 e G2. history c = G1 @ Return k e # G2 \<longrightarrow> Invoke i \<in> set G1)"
proof -
  from serve_linearizable [OF ok c] obtain lin where lin: "distinct (map fst lin)"
    "set lin = {(i, e). outcome (requests c i) = Some e}"
    "spec_run lib (tokenTTL s) (range (reading (nowFunc s))) (abs_of s) (map snd lin) (abs_of (serving c))"
    "real_time (history c) (map fst lin)" by blast
  have "Return i (Revoked tok None) \<in> set (history c)" using H(1) by simp
  with V have "requests c i = Returned (Revoked tok None)" "requests c j = Returned (Validated tok (Inr t))"
    by (simp_all only: marks_of_requests [OF ok c])
  with lin(2) have i: "(i, Revoked tok None) \<in> set lin" and j: "(j, Validated tok (Inr t)) \<in> set lin"
    by (simp_all add: outcome_def)
  from i j have "j \<in> set (map fst lin)" "i \<in> set (map fst lin)" by force+
  with lin(4) H have "precedes (map fst lin) i j" unfolding real_time_def by blast
  then obtain X Y Z where s: "lin = X @ (i, Revoked tok None) # Y @ (j, Validated tok (Inr t)) # Z"
    by (rule precedes_split [OF _ i j lin(1)])
  from lin(3) have "ComputeTokenHash tok \<in> issued_hashes (map snd Y)"
    unfolding s by (intro spec_revoked_reissued) simp
  then obtain k resp where k: "(k, Issued (Inr resp)) \<in> set Y"
    "ComputeTokenHash (AccessToken resp) = ComputeTokenHash tok" by (auto simp: issued_hashes_def)
  have "precedes (map fst lin) i k"
    unfolding precedes_def s
    by (rule exI [of _ "map fst (X @ [(i, Revoked tok None)])"],
        rule exI [of _ "map fst (Y @ (j, Validated tok (Inr t)) # Z)"])
      (use k(1) in force)
  then have "\<not> precedes (map fst lin) k i" by (rule precedes_antisym [OF lin(1)])
  with lin(4) \<open>i \<in> set (map fst lin)\<close> have
    "\<forall>G1 e G2. history c = G1 @ Return k e # G2 \<longrightarrow> Invoke i \<in> set G1" unfolding real_time_def by blast
  moreover have "(k, Issued (Inr resp)) \<in> set lin" using k(1) s by simp
  ultimately show ?thesis using k(2) lin(2) by blast
qed

end

section \<open>Properties\<close>

text \<open>A revocation, then an issue, then a validation, on a server that draws the revoked token.\<close>

definition demo_jobs :: "nat \<Rightarrow> service_call" where
  "demo_jobs i = (if i = 0 then RevokeCall demo_token
     else if i = 1 then IssueCall demo_ctx (Some demo_request) else ValidateCall demo_token)"

definition demo_schedule :: "nat list" where
  "demo_schedule = replicate 7 0 @ replicate 7 1 @ replicate 7 2"

lemma demo_valid:
  obtains t where "fst (ValidateToken memory_ops demo_token demo_issued) = Inr t"
proof -
  have "next_reading (nowFunc demo_issued) = 0"
    using IssueToken_reading [of memory_ops demo_lib demo_ctx "Some demo_request" demo_server]
    by (simp add: demo_issued_def fixed_clock_def)
  moreover from demo_issue_pair obtain k where
    "tokens (store demo_issued) (ComputeTokenHash demo_token) = Some (new_token demo_token demo_request k 0 (3600 * Second))"
    by (cases rule: mem.IssueToken_cases)
      (auto simp: new_response_def demo_token_def issue_time_def fixed_clock_def)
  ultimately show ?thesis
    using that by (simp add: mem.ValidateToken_result new_token_def IsRevoked_def IsExpired_def
        time_After_def time_Add_def demo_token_def opaque_token_def)
qed


text \<open>C5: revocation is effective at once: when a revocation of a token has returned before a
  validation of it is invoked, whatever else runs meanwhile, the validation succeeds only if an issue that
  was not over when the revocation began has given out a token with the same hash.\<close>

theorem revocation_effective_when_returned:
  assumes "views_ok lib (tokenTTL s) (clients (store s)) (tokens (store s))"
    and "c = serve memory_ops lib jobs sched (serving_init s)"
    and "history c = H1 @ Return i (Revoked tok None) # H2" "Invoke j \<notin> set H1"
    and "Return j (Validated tok (Inr t)) \<in> set (history c)"
  shows "\<exists>k resp. outcome (requests c k) = Some (Issued (Inr resp))
    \<and> ComputeTokenHash (AccessToken resp) = ComputeTokenHash tok
    \<and> (\<forall>G1 e G2. history c = G1 @ Return k e # G2 \<longrightarrow> Invoke i \<in> set G1)"
  by (rule mem.revoked_then_validated [OF assms])

theorem revocation_effective_when_returned_witness:
  "\<exists>k resp. outcome (requests (serve memory_ops demo_lib demo_jobs demo_schedule (serving_init demo_server)) k)
      = Some (Issued (Inr resp))
    \<and> ComputeTokenHash (AccessToken resp) = ComputeTokenHash demo_token"
proof -
  obtain t s where t: "ValidateToken memory_ops demo_token demo_issued = (Inr t, s)"
    by (metis demo_valid prod.collapse)
  have r: "RevokeToken memory_ops demo_token demo_server = (None, demo_server)"
    by (simp add: RevokeToken_def store_RevokeToken_def NewMemoryStore_def)
  have H: "history (serve memory_ops demo_lib demo_jobs demo_schedule (serving_init demo_server))
    = [Invoke 0] @ Return 0 (Revoked demo_token None) # [Invoke 1,
       Return 1 (Issued (Inr (new_response demo_token demo_request (3600 * Second)))),
       Invoke 2, Return 2 (Validated demo_token (Inr t))]"
    using t r demo_issue_pair
    by (simp add: demo_schedule_def serve_append serve_alone serving_init_def demo_jobs_def apfst_def
        map_prod_def split: prod.split)
  have valid: "client_valid demo_lib demo_client" by code_simp
  have ok: "views_ok demo_lib (tokenTTL demo_server) (clients (store demo_server)) (tokens (store demo_server))"
    using valid by (simp add: views_ok_def NewMemoryStore_def) (simp add: demo_client_def)
  from revocation_effective_when_returned [OF ok refl H, of 2 t] H show ?thesis by auto
qed

text \<open>And only then: a validation that is under way when the token is revoked, and has read
  the token, still succeeds after the revocation has returned.\<close>

theorem overtaken_validation_succeeds:
  assumes "fst (ValidateToken memory_ops tok s) = Inr t"
    and "jobs 0 = ValidateCall tok" "jobs 1 = RevokeCall tok"
  shows "history (serve memory_ops lib jobs [0, 0, 1, 1, 0] (serving_init s))
    = [Invoke 0, Invoke 1, Return 1 (Revoked tok None), Return 0 (Validated tok (Inr t))]"
proof -
  from assms(1) have k: "tok \<noteq> []" "tokens (store s) (ComputeTokenHash tok) = Some t" "\<not> IsRevoked t"
    "\<not> IsExpired t (next_reading (nowFunc s))"
    by (auto simp: mem.ValidateToken_result split: if_splits option.splits)
  from assms(3) have "jobs (Suc 0) = RevokeCall tok" by simp
  with k show ?thesis
    by (simp add: serving_init_def call_next_def validate_next_def revoke_next_def assms(2) marks_def
        memory_defs RevokeToken_def now_def service_now_eq validate_answer_def)
qed

theorem overtaken_validation_succeeds_witness:
  "\<exists>t. history (serve memory_ops demo_lib (\<lambda>i. if i = 0 then ValidateCall demo_token else RevokeCall demo_token)
      [0, 0, 1, 1, 0] (serving_init demo_issued))
    = [Invoke 0, Invoke 1, Return 1 (Revoked demo_token None), Return 0 (Validated demo_token (Inr t))]"
proof -
  obtain t where "fst (ValidateToken memory_ops demo_token demo_issued) = Inr t" by (rule demo_valid)
  from overtaken_validation_succeeds [OF this, where lib = demo_lib and
      jobs = "\<lambda>i. if i = 0 then ValidateCall demo_token else RevokeCall demo_token"]
  show ?thesis by auto
qed




end
