(* ===== verification/Http.thy ===== *)
theory Http
  imports Service
begin

text \<open>
  What the handlers and the client use of \<open>net/http\<close>, \<open>encoding/json\<close> and gin: requests with
  Basic credentials, responses, JSON documents, and the context a gin handler writes to. Gin's
  own reading of a request body (its binding) is the parameter record \<open>Gin\<close>.
\<close>

section \<open>JSON documents\<close>

text \<open>
  A value given to \<open>c.JSON\<close>, as a tree; an object keeps its members in order. A text from \<open>fmt\<close> is
  kept as rendered; the bytes that go out are \<open>body_text\<close> of the theory \<open>Wire\<close>.
\<close>

datatype json =
    JBool bool | JNum int | JTime time | JStr rendered
  | JList "json list" | JObj "(string \<times> json) list"

definition jstring :: "string \<Rightarrow> json" where
  "jstring s = JStr [Lit s]"

lemma jstring_eq [simp]: "jstring s = jstring t \<longleftrightarrow> s = t"
  by (simp add: jstring_def)

text \<open>
  A slice is a list, so a nil slice (\<open>null\<close> on the wire) and an empty one (\<open>[]\<close>) are not told
  apart.
\<close>

definition jstrings :: "string list \<Rightarrow> json" where
  "jstrings xs = JList (map jstring xs)"

text \<open>\<open>omitempty\<close>: a member with a zero value is left out.\<close>

definition omit_empty :: "string \<Rightarrow> string \<Rightarrow> (string \<times> json) list" where
  "omit_empty key s = (if s = [] then [] else [(key, jstring s)])"

section \<open>Requests\<close>

text \<open>
  The header maps a name, written as the source writes it, to its values; \<open>Get\<close> is the first
  one, \<open>Set\<close> replaces them.
\<close>

record Request =
  r_Method :: string
  r_Path :: string
  r_Query :: string
  r_Header :: "string \<Rightarrow> string list"
  r_Body :: bytes
  r_Context :: Context

definition header_get :: "string \<Rightarrow> Request \<Rightarrow> string" where
  "header_get key r = (case r_Header r key of [] \<Rightarrow> [] | v # vs \<Rightarrow> v)"

definition header_set :: "string \<Rightarrow> string \<Rightarrow> Request \<Rightarrow> Request" where
  "header_set key v r = r\<lparr>r_Header := (r_Header r)(key := [v])\<rparr>"

lemma header_get_set [simp]:
  "header_get key (header_set key v r) = v"
  "key \<noteq> key' \<Longrightarrow> header_get key (header_set key' v r) = header_get key r"
  by (simp_all add: header_get_def header_set_def)

definition basic_prefix :: string where
  "basic_prefix = ''Basic ''"

text \<open>\<open>Request.BasicAuth\<close> and \<open>Request.SetBasicAuth\<close>\<close>

definition BasicAuth :: "Request \<Rightarrow> (string \<times> string) option" where
  "BasicAuth r =
     (let auth = header_get ''Authorization'' r
      in if auth = [] then None
         else if length auth < length basic_prefix
             \<or> \<not> EqualFold (take (length basic_prefix) auth) basic_prefix then None
         else case StdDecode (drop (length basic_prefix) auth) of
           None \<Rightarrow> None
         | Some c \<Rightarrow>
             (case Cut c (CHR '':'') of
                (username, password, ok) \<Rightarrow> if ok then Some (username, password) else None))"

definition SetBasicAuth :: "string \<Rightarrow> string \<Rightarrow> Request \<Rightarrow> Request" where
  "SetBasicAuth username password r =
     header_set ''Authorization'' (basic_prefix @ StdEncoding (username @ '':'' @ password)) r"

lemma BasicAuth_SetBasicAuth:
  assumes "CHR '':'' \<notin> set username"
  shows "BasicAuth (SetBasicAuth username password r) = Some (username, password)"
  using Cut_found [OF assms, of password]
  by (simp add: BasicAuth_def SetBasicAuth_def Let_def StdDecode_StdEncoding basic_prefix_def)

section \<open>Responses and the gin context\<close>

datatype resp_body = NoBody | BodyJSON json | BodyText string | BodyData string bytes

text \<open>
  A value in the context: gin stores any value under a key, the program reads back a \<open>*Token\<close>,
  which may be nil.
\<close>

datatype ctx_value = CtxToken "Token option" | CtxOther

record GinContext =
  c_Request :: Request
  c_Params :: "string \<Rightarrow> string"
  c_Keys :: "string \<Rightarrow> ctx_value option"
  w_Status :: int
  w_Header :: "string \<Rightarrow> rendered option"
  w_Body :: resp_body
  c_Aborted :: bool

definition new_context :: "Request \<Rightarrow> (string \<Rightarrow> string) \<Rightarrow> GinContext" where
  "new_context r ps = \<lparr>c_Request = r, c_Params = ps, c_Keys = Map.empty, w_Status = 200,
     w_Header = Map.empty, w_Body = NoBody, c_Aborted = False\<rparr>"

text \<open>\<open>c.JSON\<close>, \<open>c.String\<close>, \<open>c.Data\<close>, \<open>c.Status\<close>, \<open>c.Header\<close>, \<open>c.AbortWithStatusJSON\<close>\<close>

definition gin_JSON :: "int \<Rightarrow> json \<Rightarrow> GinContext \<Rightarrow> GinContext" where
  "gin_JSON code obj c = c\<lparr>w_Status := code, w_Body := BodyJSON obj\<rparr>"

definition gin_String :: "int \<Rightarrow> string \<Rightarrow> GinContext \<Rightarrow> GinContext" where
  "gin_String code t c = c\<lparr>w_Status := code, w_Body := BodyText t\<rparr>"

definition gin_Data :: "int \<Rightarrow> string \<Rightarrow> bytes \<Rightarrow> GinContext \<Rightarrow> GinContext" where
  "gin_Data code ctype bs c = c\<lparr>w_Status := code, w_Body := BodyData ctype bs\<rparr>"

definition gin_Status :: "int \<Rightarrow> GinContext \<Rightarrow> GinContext" where
  "gin_Status code c = c\<lparr>w_Status := code\<rparr>"

definition gin_Header :: "string \<Rightarrow> rendered \<Rightarrow> GinContext \<Rightarrow> GinContext" where
  "gin_Header key v c = c\<lparr>w_Header := (w_Header c)(key \<mapsto> v)\<rparr>"

definition AbortWithStatusJSON :: "int \<Rightarrow> json \<Rightarrow> GinContext \<Rightarrow> GinContext" where
  "AbortWithStatusJSON code obj c = (gin_JSON code obj c)\<lparr>c_Aborted := True\<rparr>"

lemmas gin_defs = gin_JSON_def gin_String_def gin_Data_def gin_Status_def gin_Header_def
  AbortWithStatusJSON_def

text \<open>The error objects: \<open>gin.H\<close> with the members \<open>error\<close> and \<open>error_description\<close>.\<close>

definition error_object :: "string \<Rightarrow> rendered \<Rightarrow> json" where
  "error_object code description =
     JObj [(''error'', jstring code), (''error_description'', JStr description)]"

section \<open>The binding of request bodies\<close>

text \<open>
  Gin and \<open>net/http\<close> as parameters: reading a body consumes it, so each function also returns
  the request that is left.
\<close>

record Gin =
  gin_ContentType :: "Request \<Rightarrow> string"
  bind_register :: "Request \<Rightarrow> (go_error + RegisterClientRequest) \<times> Request"
  bind_token_json :: "Request \<Rightarrow> (go_error + TokenRequest) \<times> Request"
  bind_token_form :: "Request \<Rightarrow> (go_error + TokenRequest) \<times> Request"
  gin_ParseForm :: "Request \<Rightarrow> Request"
  gin_PostForm :: "string \<Rightarrow> Request \<Rightarrow> string \<times> Request"
  gin_Query :: "string \<Rightarrow> Request \<Rightarrow> string"
  bind_token_body :: "Request \<Rightarrow> (go_error + string) \<times> Request"

end
