(* ===== verification/Handlers.thy ===== *)
theory Handlers
  imports Http
begin

text \<open>
  \<open>pkg/oauth2/handlers.go\<close>: the endpoints \<open>/oauth/clients\<close>, \<open>/oauth/token\<close>,
  \<open>/oauth/introspect\<close> and \<open>/oauth/revoke\<close>. A handler takes the gin context and the service
  and returns both.
\<close>

section \<open>The JSON forms of the responses\<close>

definition json_of_RegisterClientResponse :: "RegisterClientResponse \<Rightarrow> json" where
  "json_of_RegisterClientResponse r = JObj
     [(''client_id'', jstring (resp_ClientID r)), (''client_secret'', jstring (resp_ClientSecret r)),
      (''name'', jstring (resp_Name r)),
      (''allowed_resources'', jstrings (resp_AllowedResources r)),
      (''allowed_scopes'', jstrings (resp_AllowedScopes r)),
      (''created_at'', JTime (resp_CreatedAt r))]"

definition json_of_TokenResponse :: "TokenResponse \<Rightarrow> json" where
  "json_of_TokenResponse r = JObj
     ([(''access_token'', jstring (AccessToken r)), (''token_type'', jstring (TokenType r)),
       (''expires_in'', JNum (sint (ExpiresIn r)))]
      @ omit_empty ''resource'' (tresp_Resource r) @ omit_empty ''scope'' (tresp_Scope r))"

definition json_of_IntrospectResponse :: "IntrospectResponse \<Rightarrow> json" where
  "json_of_IntrospectResponse r = JObj
     ([(''active'', JBool (Active r))]
      @ omit_empty ''client_id'' (intro_ClientID r) @ omit_empty ''resource'' (intro_Resource r)
      @ omit_empty ''scope'' (intro_Scope r)
      @ (if Exp r = 0 then [] else [(''exp'', JNum (Exp r))])
      @ omit_empty ''token_type'' (intro_TokenType r))"

section \<open>Registration\<close>

definition RegisterClientHandler ::
  "Gin \<Rightarrow> 'st StoreOps \<Rightarrow> Lib \<Rightarrow> GinContext \<Rightarrow> 'st Service \<Rightarrow> GinContext \<times> 'st Service" where
  "RegisterClientHandler gin ops lib c s =
     (case bind_register gin (c_Request c) of (bound, r) \<Rightarrow>
      let c = c\<lparr>c_Request := r\<rparr>
      in case bound of
        Inl e \<Rightarrow>
          (gin_JSON 400 (error_object ''invalid_request''
             (Lit ''Failed to parse JSON body: '' # error_text e)) c, s)
      | Inr req \<Rightarrow>
          (case RegisterClient ops lib (Some req) s of
             (Inl e, s) \<Rightarrow> (gin_JSON 400 (error_object ''invalid_request'' (error_text e)) c, s)
           | (Inr resp, s) \<Rightarrow> (gin_JSON 201 (json_of_RegisterClientResponse resp) c, s)))"

section \<open>The token endpoint\<close>

text \<open>The answer to an error of \<open>IssueToken\<close>: the branches of the \<open>switch\<close>, in order.\<close>

definition token_error :: "go_error \<Rightarrow> GinContext \<Rightarrow> GinContext" where
  "token_error e c =
     (if errors_Is e (OAuthErr ErrInvalidClient) then
        gin_JSON 401 (error_object ''invalid_client'' [Lit ''Client authentication failed''])
          (gin_Header ''WWW-Authenticate'' [Lit ''Basic realm=\"oauth2\"''] c)
      else if errors_Is e (OAuthErr ErrInvalidGrant) then
        gin_JSON 400 (error_object ''invalid_grant''
          [Lit ''Unsupported grant_type (must be client_credentials)'']) c
      else if errors_Is e (OAuthErr ErrInvalidTarget) then
        gin_JSON 400 (error_object ''invalid_target'' (error_text e)) c
      else if errors_Is e (OAuthErr ErrScopeMismatch) then
        gin_JSON 400 (error_object ''invalid_scope''
          [Lit ''Requested scope not authorized for this client'']) c
      else gin_JSON 400 (error_object ''invalid_request'' (error_text e)) c)"

text \<open>Basic credentials replace those of the body.\<close>

definition with_credentials :: "Request \<Rightarrow> TokenRequest \<Rightarrow> TokenRequest" where
  "with_credentials r req =
     (case BasicAuth r of
        Some (clientID, clientSecret) \<Rightarrow>
          req\<lparr>req_ClientID := clientID, req_ClientSecret := clientSecret\<rparr>
      | None \<Rightarrow> req)"

definition TokenHandler ::
  "Gin \<Rightarrow> 'st StoreOps \<Rightarrow> Lib \<Rightarrow> GinContext \<Rightarrow> 'st Service \<Rightarrow> GinContext \<times> 'st Service" where
  "TokenHandler gin ops lib c s =
     (let is_json = Contains (gin_ContentType gin (c_Request c)) ''application/json''
      in case (if is_json then bind_token_json gin (c_Request c)
               else bind_token_form gin (c_Request c)) of
        (bound, r) \<Rightarrow>
      let c = c\<lparr>c_Request := r\<rparr>
      in case bound of
        Inl e \<Rightarrow>
          (gin_JSON 400 (error_object ''invalid_request''
             (Lit (if is_json then ''Failed to parse JSON: '' else ''Failed to parse form: '')
              # error_text e)) c, s)
      | Inr req \<Rightarrow>
          (case IssueToken ops lib (r_Context r) (Some (with_credentials r req)) s of
             (Inl e, s) \<Rightarrow> (token_error e c, s)
           | (Inr resp, s) \<Rightarrow>
               (gin_JSON 200 (json_of_TokenResponse resp)
                 (gin_Header ''Pragma'' [Lit ''no-cache'']
                   (gin_Header ''Cache-Control'' [Lit ''no-store''] c)), s)))"

section \<open>Introspection and revocation\<close>

definition extractTokenParam :: "Gin \<Rightarrow> GinContext \<Rightarrow> string \<times> GinContext" where
  "extractTokenParam gin c =
     (let r = gin_ParseForm gin (c_Request c)
      in case gin_PostForm gin ''token'' r of (posted, r) \<Rightarrow>
      if posted \<noteq> [] then (posted, c\<lparr>c_Request := r\<rparr>)
      else if gin_Query gin ''token'' r \<noteq> [] then (gin_Query gin ''token'' r, c\<lparr>c_Request := r\<rparr>)
      else case bind_token_body gin r of (bound, r) \<Rightarrow>
        (case bound of
           Inr token \<Rightarrow> (if token \<noteq> [] then token else [], c\<lparr>c_Request := r\<rparr>)
         | Inl e \<Rightarrow> ([], c\<lparr>c_Request := r\<rparr>)))"

definition IntrospectHandler ::
  "Gin \<Rightarrow> 'st StoreOps \<Rightarrow> GinContext \<Rightarrow> 'st Service \<Rightarrow> GinContext \<times> 'st Service" where
  "IntrospectHandler gin ops c s =
     (case extractTokenParam gin c of (token, c) \<Rightarrow>
      if token = [] then
        (gin_JSON 400 (error_object ''invalid_request'' [Lit ''Missing token parameter'']) c, s)
      else case IntrospectToken ops token s of
        (Inl e, s) \<Rightarrow> (gin_JSON 500 (error_object ''server_error'' (error_text e)) c, s)
      | (Inr resp, s) \<Rightarrow> (gin_JSON 200 (json_of_IntrospectResponse resp) c, s))"

definition RevokeHandler ::
  "Gin \<Rightarrow> 'st StoreOps \<Rightarrow> GinContext \<Rightarrow> 'st Service \<Rightarrow> GinContext \<times> 'st Service" where
  "RevokeHandler gin ops c s =
     (case extractTokenParam gin c of (token, c) \<Rightarrow>
      if token = [] then
        (gin_JSON 400 (error_object ''invalid_request'' [Lit ''Missing token parameter'']) c, s)
      else case RevokeToken ops token s of
        (Some e, s) \<Rightarrow> (gin_JSON 500 (error_object ''server_error'' (error_text e)) c, s)
      | (None, s) \<Rightarrow> (gin_Status 200 c, s))"

section \<open>Routes\<close>

datatype oauth_endpoint = EpClients | EpToken | EpIntrospect | EpRevoke

text \<open>\<open>RegisterRoutes\<close>: method and path below the group, with the handler.\<close>

definition RegisterRoutes :: "(string \<times> string \<times> oauth_endpoint) list" where
  "RegisterRoutes =
     [(''POST'', ''/clients'', EpClients), (''POST'', ''/token'', EpToken),
      (''POST'', ''/introspect'', EpIntrospect), (''POST'', ''/revoke'', EpRevoke)]"

fun oauth_handler ::
  "Gin \<Rightarrow> 'st StoreOps \<Rightarrow> Lib \<Rightarrow> oauth_endpoint \<Rightarrow> GinContext \<Rightarrow> 'st Service
   \<Rightarrow> GinContext \<times> 'st Service" where
  "oauth_handler gin ops lib EpClients = RegisterClientHandler gin ops lib"
| "oauth_handler gin ops lib EpToken = TokenHandler gin ops lib"
| "oauth_handler gin ops lib EpIntrospect = IntrospectHandler gin ops"
| "oauth_handler gin ops lib EpRevoke = RevokeHandler gin ops"

end
