(* ===== verification/Middleware.thy ===== *)
theory Middleware
  imports Http
begin

text \<open>
  \<open>pkg/oauth2/middleware.go\<close>. A gin middleware either calls \<open>c.Next()\<close> as its last act, which
  runs the handlers behind it, or aborts; it takes those handlers as the function \<open>next\<close>. What
  the handlers behind it change besides the service is the type variable \<open>'w\<close>.
\<close>

type_synonym ('st, 'w) handler = "GinContext \<Rightarrow> 'st Service \<times> 'w \<Rightarrow> GinContext \<times> 'st Service \<times> 'w"

definition TokenContextKey :: string where
  "TokenContextKey = ''oauth2_token''"

text \<open>The second component is false when there is no value or it is not a \<open>*Token\<close>.\<close>

definition GetTokenFromContext :: "GinContext \<Rightarrow> Token option \<times> bool" where
  "GetTokenFromContext c =
     (case c_Keys c TokenContextKey of
        None \<Rightarrow> (None, False)
      | Some (CtxToken t) \<Rightarrow> (t, True)
      | Some CtxOther \<Rightarrow> (None, False))"

section \<open>Bearer authentication\<close>

text \<open>The token in an \<open>Authorization\<close> header value, if the value is well formed.\<close>

definition bearer_token :: "string \<Rightarrow> string option" where
  "bearer_token authHeader =
     (case SplitN2 authHeader (CHR '' '') of
        [scheme, rest] \<Rightarrow>
          (if \<not> EqualFold scheme ''Bearer'' \<or> TrimSpace rest = [] then None
           else Some (TrimSpace rest))
      | _ \<Rightarrow> None)"

text \<open>\<open>svc.telemetry.RecordAuthCheck(c.Request.Context(), ..., "", path, method, err)\<close>\<close>

definition record_auth_check ::
  "string \<Rightarrow> string \<Rightarrow> string \<Rightarrow> go_error option \<Rightarrow> GinContext \<Rightarrow> 'st Service \<Rightarrow> 'st Service" where
  "record_auth_check st clientID resource err c s =
     s\<lparr>telemetry := RecordAuthCheck (r_Context (c_Request c)) st clientID resource []
         (r_Path (c_Request c)) (r_Method (c_Request c)) err (telemetry s)\<rparr>"

definition unauthorized :: "rendered \<Rightarrow> string \<Rightarrow> GinContext \<Rightarrow> GinContext" where
  "unauthorized challenge description c =
     AbortWithStatusJSON 401 (error_object ''unauthorized'' [Lit description])
       (gin_Header ''WWW-Authenticate'' challenge c)"

text \<open>The telemetry tag and the message for an error of \<open>ValidateToken\<close>.\<close>

definition auth_failure :: "go_error \<Rightarrow> string \<times> string" where
  "auth_failure e =
     (if errors_Is e (OAuthErr ErrTokenExpired) then (''expired_token'', ''Token has expired'')
      else if errors_Is e (OAuthErr ErrTokenRevoked) then (''revoked_token'', ''Token has been revoked'')
      else (''invalid_token'', ''Invalid token''))"

definition TokenAuthMiddleware ::
  "'st StoreOps \<Rightarrow> ('st, 'w) handler \<Rightarrow> ('st, 'w) handler" where
  "TokenAuthMiddleware ops next c sw =
     (case sw of (s, w) \<Rightarrow>
      let authHeader = header_get ''Authorization'' (c_Request c)
      in if authHeader = [] then
        (unauthorized
           [Lit ''Bearer error=\"invalid_request\", error_description=\"Missing Authorization header\"'']
           ''Missing Authorization header'' c,
         record_auth_check ''missing_token'' [] [] (Some (oauth_err ErrInvalidRequest)) c s, w)
      else case bearer_token authHeader of
        None \<Rightarrow>
          (unauthorized
             [Lit ''Bearer error=\"invalid_token\", error_description=\"Malformed Bearer token\"'']
             ''Malformed Authorization header format (expected Bearer <token>)'' c,
           record_auth_check ''invalid_token'' [] [] (Some (oauth_err ErrInvalidRequest)) c s, w)
      | Some rawToken \<Rightarrow>
     (case ValidateToken ops rawToken s of
        (Inl e, s) \<Rightarrow>
          (case auth_failure e of (statusTag, errMsg) \<Rightarrow>
             (unauthorized [Lit ''Bearer error=\"invalid_token\", error_description='', Quoted errMsg]
                errMsg c,
              record_auth_check statusTag [] [] (Some e) c s, w))
      | (Inr token, s) \<Rightarrow>
          (let c = c\<lparr>c_Keys := (c_Keys c)(TokenContextKey \<mapsto> CtxToken (Some token))\<rparr>
           in next c (record_auth_check ''ok'' (ClientID token) (Resource token) None c s, w))))"

section \<open>Resource and scope\<close>

definition token_missing :: "GinContext \<Rightarrow> GinContext" where
  "token_missing c =
     AbortWithStatusJSON 401 (error_object ''unauthorized'' [Lit ''Token context missing'']) c"

definition RequireResource ::
  "(GinContext \<Rightarrow> string) \<Rightarrow> ('st, 'w) handler \<Rightarrow> ('st, 'w) handler" where
  "RequireResource resourceExtractor next c sw =
     (case GetTokenFromContext c of
        (Some token, True) \<Rightarrow>
          (if Resource token \<noteq> [] \<and> resourceExtractor c \<noteq> Resource token then
             (AbortWithStatusJSON 403 (error_object ''insufficient_scope''
                [Lit ''Token resource '', Quoted (Resource token),
                 Lit '' does not match requested resource '', Quoted (resourceExtractor c)]) c, sw)
           else next c sw)
      | _ \<Rightarrow> (token_missing c, sw))"

definition RequireScope :: "string \<Rightarrow> ('st, 'w) handler \<Rightarrow> ('st, 'w) handler" where
  "RequireScope requiredScope next c sw =
     (case GetTokenFromContext c of
        (Some token, True) \<Rightarrow>
          (if Scope token \<noteq> [] \<and> \<not> list_ex (\<lambda>sc. sc = requiredScope) (Fields (Scope token)) then
             (AbortWithStatusJSON 403 (error_object ''insufficient_scope''
                [Lit ''Required scope '', Quoted requiredScope, Lit '' missing from token'']) c, sw)
           else next c sw)
      | _ \<Rightarrow> (token_missing c, sw))"

end
