(* ===== verification/Certificate.thy ===== *)
theory Certificate
  imports Http
begin

text \<open>
  \<open>sample-server/internal/certificate\<close>: the certificates and ACME HTTP-01 challenges of the
  sample resource server, their store (the Go interface as a record of operations, its contract
  as the locale \<open>cert_store\<close>, \<open>MemoryStore\<close> as an instance), and the four handlers.
\<close>

section \<open>Data\<close>

record Certificate =
  cert_ID :: string
  cert_Domain :: string
  cert_Status :: string
  cert_CreatedAt :: time
  cert_ExpiresAt :: time

record HTTP01Challenge =
  chal_CertificateID :: string
  chal_Domain :: string
  chal_Token :: string
  chal_KeyAuthorization :: string
  chal_Status :: string
  chal_CreatedAt :: time

record StartChallengeRequest =
  start_Domain :: string
  start_Token :: string
  start_KeyAuthorization :: string

record CompleteChallengeRequest =
  complete_Token :: string

text \<open>The JSON forms of the responses.\<close>

definition json_of_StartChallengeResponse :: "string \<Rightarrow> string \<Rightarrow> string \<Rightarrow> string \<Rightarrow> json" where
  "json_of_StartChallengeResponse cid st path msg = JObj
     [(''certificate_id'', jstring cid), (''status'', jstring st),
      (''challenge_path'', jstring path), (''message'', jstring msg)]"

definition json_of_CompleteChallengeResponse :: "string \<Rightarrow> string \<Rightarrow> string \<Rightarrow> json" where
  "json_of_CompleteChallengeResponse cid st msg = JObj
     [(''certificate_id'', jstring cid), (''status'', jstring st), (''message'', jstring msg)]"

definition json_of_Certificate :: "Certificate \<Rightarrow> json" where
  "json_of_Certificate c = JObj
     [(''id'', jstring (cert_ID c)), (''domain'', jstring (cert_Domain c)),
      (''status'', jstring (cert_Status c)), (''created_at'', JTime (cert_CreatedAt c)),
      (''expires_at'', JTime (cert_ExpiresAt c))]"

section \<open>The store\<close>

record 'st CertOps =
  op_GetCertificate :: "string \<Rightarrow> 'st \<Rightarrow> go_error + Certificate"
  op_SaveCertificate :: "Certificate option \<Rightarrow> 'st \<Rightarrow> go_error option \<times> 'st"
  op_GetChallenge :: "string \<Rightarrow> 'st \<Rightarrow> go_error + HTTP01Challenge"
  op_SaveChallenge :: "HTTP01Challenge option \<Rightarrow> 'st \<Rightarrow> go_error option \<times> 'st"
  op_DeleteChallenge :: "string \<Rightarrow> 'st \<Rightarrow> go_error option \<times> 'st"

text \<open>The contract: two finite-map views; each operation touches one of them, at one key.\<close>

locale cert_store =
  fixes ops :: "'st CertOps"
    and certs_of :: "'st \<Rightarrow> string \<Rightarrow> Certificate option"
    and chals_of :: "'st \<Rightarrow> string \<Rightarrow> HTTP01Challenge option"
  assumes get_cert: "op_GetCertificate ops k s =
      (case certs_of s k of None \<Rightarrow> Inl (cert_err ErrCertificateNotFound) | Some c \<Rightarrow> Inr c)"
    and save_cert: "fst (op_SaveCertificate ops (Some c) s) = None"
      "certs_of (snd (op_SaveCertificate ops (Some c) s)) = (certs_of s)(cert_ID c \<mapsto> c)"
      "chals_of (snd (op_SaveCertificate ops (Some c) s)) = chals_of s"
    and get_chal: "op_GetChallenge ops k s =
      (case chals_of s k of None \<Rightarrow> Inl (cert_err ErrChallengeNotFound) | Some c \<Rightarrow> Inr c)"
    and save_chal: "fst (op_SaveChallenge ops (Some ch) s) = None"
      "chals_of (snd (op_SaveChallenge ops (Some ch) s)) = (chals_of s)(chal_Token ch \<mapsto> ch)"
      "certs_of (snd (op_SaveChallenge ops (Some ch) s)) = certs_of s"
    and delete_chal: "op_DeleteChallenge ops k s = (r, s') \<Longrightarrow>
      (case chals_of s k of
         None \<Rightarrow> r = Some (cert_err ErrChallengeNotFound) \<and> chals_of s' = chals_of s
       | Some c \<Rightarrow> r = None \<and> chals_of s' = (chals_of s)(k := None))
      \<and> certs_of s' = certs_of s"

record CertMemoryStore =
  certificates :: "string \<Rightarrow> Certificate option"
  challenges :: "string \<Rightarrow> HTTP01Challenge option"

definition new_cert_store :: CertMemoryStore where
  "new_cert_store = \<lparr>certificates = Map.empty, challenges = Map.empty\<rparr>"

definition store_GetCertificate :: "string \<Rightarrow> CertMemoryStore \<Rightarrow> go_error + Certificate" where
  "store_GetCertificate k s =
     (case certificates s k of
        None \<Rightarrow> Inl (cert_err ErrCertificateNotFound)
      | Some cert \<Rightarrow> Inr cert)"

definition store_SaveCertificate ::
  "Certificate option \<Rightarrow> CertMemoryStore \<Rightarrow> go_error option \<times> CertMemoryStore" where
  "store_SaveCertificate cp s =
     (case cp of
        None \<Rightarrow> (Some (NewError [Lit ''certificate cannot be nil'']), s)
      | Some cert \<Rightarrow> (None, s\<lparr>certificates := (certificates s)(cert_ID cert \<mapsto> cert)\<rparr>))"

definition store_GetChallenge :: "string \<Rightarrow> CertMemoryStore \<Rightarrow> go_error + HTTP01Challenge" where
  "store_GetChallenge token s =
     (case challenges s token of
        None \<Rightarrow> Inl (cert_err ErrChallengeNotFound)
      | Some ch \<Rightarrow> Inr ch)"

definition store_SaveChallenge ::
  "HTTP01Challenge option \<Rightarrow> CertMemoryStore \<Rightarrow> go_error option \<times> CertMemoryStore" where
  "store_SaveChallenge chp s =
     (case chp of
        None \<Rightarrow> (Some (NewError [Lit ''challenge cannot be nil'']), s)
      | Some ch \<Rightarrow> (None, s\<lparr>challenges := (challenges s)(chal_Token ch \<mapsto> ch)\<rparr>))"

definition store_DeleteChallenge ::
  "string \<Rightarrow> CertMemoryStore \<Rightarrow> go_error option \<times> CertMemoryStore" where
  "store_DeleteChallenge token s =
     (if challenges s token = None then (Some (cert_err ErrChallengeNotFound), s)
      else (None, s\<lparr>challenges := (challenges s)(token := None)\<rparr>))"

definition cert_memory_ops :: "CertMemoryStore CertOps" where
  "cert_memory_ops =
     \<lparr>op_GetCertificate = store_GetCertificate, op_SaveCertificate = store_SaveCertificate,
      op_GetChallenge = store_GetChallenge, op_SaveChallenge = store_SaveChallenge,
      op_DeleteChallenge = store_DeleteChallenge\<rparr>"

lemmas cert_memory_defs [op_defs] =
  store_GetCertificate_def store_SaveCertificate_def store_GetChallenge_def
  store_SaveChallenge_def store_DeleteChallenge_def

interpretation certmem: cert_store cert_memory_ops certificates challenges
  by unfold_locales (auto simp: cert_memory_ops_def cert_memory_defs split: option.splits if_splits)

section \<open>The handlers\<close>

text \<open>The handler's store and the clock behind \<open>time.Now\<close>.\<close>

record 'st Certs =
  certStore :: 'st
  certClock :: clock

record CertGin =
  bind_start :: "Request \<Rightarrow> (go_error + StartChallengeRequest) \<times> Request"
  bind_complete :: "Request \<Rightarrow> (go_error + CompleteChallengeRequest) \<times> Request"

definition certs_now :: "'st Certs \<Rightarrow> time \<times> 'st Certs" where
  "certs_now w = (case now (certClock w) of (t, clk) \<Rightarrow> (t, w\<lparr>certClock := clk\<rparr>))"

definition missing_id :: "GinContext \<Rightarrow> GinContext" where
  "missing_id c =
     gin_JSON 400 (error_object ''invalid_request'' [Lit ''Certificate ID is required'']) c"

definition internal_error :: "rendered \<Rightarrow> GinContext \<Rightarrow> GinContext" where
  "internal_error description c = gin_JSON 500 (error_object ''internal_error'' description) c"

text \<open>Lines 84 to 103 of \<open>StartChallenge\<close>: the challenge is stored and announced.\<close>

definition provision_challenge ::
  "'st CertOps \<Rightarrow> string \<Rightarrow> StartChallengeRequest \<Rightarrow> time \<Rightarrow> GinContext \<Rightarrow> 'st Certs
   \<Rightarrow> GinContext \<times> 'st Certs" where
  "provision_challenge ops certID req now_time c w =
     (let challenge = \<lparr>chal_CertificateID = certID, chal_Domain = start_Domain req,
            chal_Token = start_Token req, chal_KeyAuthorization = start_KeyAuthorization req,
            chal_Status = ''pending'', chal_CreatedAt = now_time\<rparr>
      in case op_SaveChallenge ops (Some challenge) (certStore w) of
        (Some e, st) \<Rightarrow> (internal_error [Lit ''Failed to save challenge record''] c, w\<lparr>certStore := st\<rparr>)
      | (None, st) \<Rightarrow>
          (gin_JSON 201 (json_of_StartChallengeResponse certID ''pending''
             (''/.well-known/acme-challenge/'' @ start_Token req)
             ''ACME HTTP-01 challenge provisioned successfully'') c,
           w\<lparr>certStore := st\<rparr>))"

text \<open>
  The rest of \<open>StartChallenge\<close> after the lookup of the certificate (lines 66 to 103). Every
  operation of the store is atomic, but other requests may run between this lookup and the
  writes, so the result of the lookup is an argument.
\<close>

definition start_after_lookup ::
  "'st CertOps \<Rightarrow> string \<Rightarrow> StartChallengeRequest \<Rightarrow> time \<Rightarrow> go_error + Certificate
   \<Rightarrow> GinContext \<Rightarrow> 'st Certs \<Rightarrow> GinContext \<times> 'st Certs" where
  "start_after_lookup ops certID req now_time found c w =
     (case found of
        Inr _ \<Rightarrow> provision_challenge ops certID req now_time c w
      | Inl e \<Rightarrow>
          (if errors_Is e (CertErr ErrCertificateNotFound) then
             (let cert = \<lparr>cert_ID = certID, cert_Domain = start_Domain req, cert_Status = ''pending'',
                          cert_CreatedAt = now_time, cert_ExpiresAt = zero_time\<rparr>
              in case op_SaveCertificate ops (Some cert) (certStore w) of
                (Some e, st) \<Rightarrow>
                  (internal_error [Lit ''Failed to save certificate record''] c, w\<lparr>certStore := st\<rparr>)
              | (None, st) \<Rightarrow> provision_challenge ops certID req now_time c (w\<lparr>certStore := st\<rparr>))
           else (internal_error (error_text e) c, w)))"

definition StartChallenge ::
  "CertGin \<Rightarrow> 'st CertOps \<Rightarrow> GinContext \<Rightarrow> 'st Certs \<Rightarrow> GinContext \<times> 'st Certs" where
  "StartChallenge gin ops c w =
     (let certID = c_Params c ''id''
      in if certID = [] then (missing_id c, w)
      else case bind_start gin (c_Request c) of (bound, r) \<Rightarrow>
      let c = c\<lparr>c_Request := r\<rparr>
      in case bound of
        Inl e \<Rightarrow>
          (gin_JSON 400 (error_object ''invalid_request''
             (Lit ''Malformed JSON payload: '' # error_text e)) c, w)
      | Inr req \<Rightarrow>
      if start_Domain req = [] \<or> start_Token req = [] \<or> start_KeyAuthorization req = [] then
        (gin_JSON 400 (error_object ''invalid_request''
           [Lit ''domain, token, and key_authorization are all required'']) c, w)
      else case certs_now w of (now_time, w) \<Rightarrow>
        start_after_lookup ops certID req now_time (op_GetCertificate ops certID (certStore w)) c w)"

definition CompleteChallenge ::
  "CertGin \<Rightarrow> 'st CertOps \<Rightarrow> GinContext \<Rightarrow> 'st Certs \<Rightarrow> GinContext \<times> 'st Certs" where
  "CompleteChallenge gin ops c w =
     (let certID = c_Params c ''id''
      in if certID = [] then (missing_id c, w)
      else case bind_complete gin (c_Request c) of (bound, r) \<Rightarrow>
      let c = c\<lparr>c_Request := r\<rparr>
      in case bound of
        Inl e \<Rightarrow>
          (gin_JSON 400 (error_object ''invalid_request''
             (Lit ''Malformed JSON payload: '' # error_text e)) c, w)
      | Inr req \<Rightarrow>
      if complete_Token req = [] then
        (gin_JSON 400 (error_object ''invalid_request'' [Lit ''Token is required'']) c, w)
      else case op_DeleteChallenge ops (complete_Token req) (certStore w) of
        (Some e, st) \<Rightarrow>
          (if errors_Is e (CertErr ErrChallengeNotFound) then
             (gin_JSON 404 (error_object ''not_found'' [Lit ''Challenge token not found'']) c,
              w\<lparr>certStore := st\<rparr>)
           else (internal_error (error_text e) c, w\<lparr>certStore := st\<rparr>))
      | (None, st) \<Rightarrow>
     (case certs_now (w\<lparr>certStore := st\<rparr>) of (now_time, w) \<Rightarrow>
      case op_GetCertificate ops certID (certStore w) of
        Inl e \<Rightarrow>
          (if errors_Is e (CertErr ErrCertificateNotFound) then
             (gin_JSON 404 (error_object ''not_found'' [Lit ''Certificate not found'']) c, w)
           else (internal_error (error_text e) c, w))
      | Inr cert \<Rightarrow>
          (let cert = cert\<lparr>cert_Status := ''issued'',
                 cert_ExpiresAt := time_Add now_time (90 * 24 * 3600 * Second)\<rparr>
           in case op_SaveCertificate ops (Some cert) (certStore w) of
             (Some e, st) \<Rightarrow>
               (internal_error [Lit ''Failed to update certificate status''] c, w\<lparr>certStore := st\<rparr>)
           | (None, st) \<Rightarrow>
               (gin_JSON 200 (json_of_CompleteChallengeResponse certID (cert_Status cert)
                  ''ACME HTTP-01 challenge completed and cleaned up successfully'') c,
                w\<lparr>certStore := st\<rparr>))))"

definition GetCertificate_handler ::
  "'st CertOps \<Rightarrow> GinContext \<Rightarrow> 'st Certs \<Rightarrow> GinContext \<times> 'st Certs" where
  "GetCertificate_handler ops c w =
     (let certID = c_Params c ''id''
      in if certID = [] then (missing_id c, w)
      else case op_GetCertificate ops certID (certStore w) of
        Inl e \<Rightarrow>
          (if errors_Is e (CertErr ErrCertificateNotFound) then
             (gin_JSON 404 (error_object ''not_found'' [Lit ''Certificate not found'']) c, w)
           else (internal_error (error_text e) c, w))
      | Inr cert \<Rightarrow> (gin_JSON 200 (json_of_Certificate cert) c, w))"

definition ServeACMEChallenge ::
  "'st CertOps \<Rightarrow> GinContext \<Rightarrow> 'st Certs \<Rightarrow> GinContext \<times> 'st Certs" where
  "ServeACMEChallenge ops c w =
     (let token = c_Params c ''token''
      in if token = [] then (gin_String 400 ''Invalid token'' c, w)
      else case op_GetChallenge ops token (certStore w) of
        Inl e \<Rightarrow>
          (if errors_Is e (CertErr ErrChallengeNotFound) then
             (gin_String 404 ''Challenge not found'' c, w)
           else (gin_String 500 ''Internal error'' c, w))
      | Inr challenge \<Rightarrow>
          (gin_Data 200 ''application/octet-stream'' (chal_KeyAuthorization challenge) c, w))"

end
