(* ===== verification/SampleServer.thy ===== *)
theory SampleServer
  imports Handlers Middleware Certificate
begin

text \<open>
  \<open>sample-server/main.go\<close>: the server that \<open>main\<close> puts together from the authorization service,
  the certificate handlers and the middleware, its routes, and one request through it. The
  matching of a request against the route patterns is gin's (\<open>gin_match\<close> gives the number of the
  route and its path parameters), as are the client address and the metrics page. A request that
  matches no route is answered 404; gin's redirect of a trailing slash is left out.
\<close>

section \<open>Configuration\<close>

text \<open>The environment variables with their defaults, and the resource a request targets.\<close>

definition env_or :: "string \<Rightarrow> string \<Rightarrow> string" where
  "env_or v def = (if v = [] then def else v)"

definition listen_port :: "(string \<Rightarrow> string) \<Rightarrow> string" where
  "listen_port getenv = env_or (getenv ''PORT'') ''8080''"

definition resource_base_url :: "(string \<Rightarrow> string) \<Rightarrow> string" where
  "resource_base_url getenv = env_or (getenv ''RESOURCE_BASE_URL'') ''https://api.example.com''"

definition resource_extractor :: "string \<Rightarrow> GinContext \<Rightarrow> string" where
  "resource_extractor resourceBaseURL c =
     TrimRight resourceBaseURL (CHR ''/'') @ ''/v1/certificates/'' @ c_Params c ''id''"

section \<open>Routes\<close>

datatype sample_endpoint =
    EpHealth | EpMetrics | EpOAuth oauth_endpoint | EpACME | EpStart | EpComplete | EpGetCertificate

text \<open>In the order of registration; the group prefixes \<open>/oauth\<close> and \<open>/v1\<close> are written out.\<close>

definition sample_routes :: "(string \<times> string \<times> sample_endpoint) list" where
  "sample_routes =
     [(''GET'', ''/healthz'', EpHealth), (''GET'', ''/metrics'', EpMetrics)]
     @ map (\<lambda>(m, p, ep). (m, ''/oauth'' @ p, EpOAuth ep)) RegisterRoutes
     @ [(''GET'', ''/.well-known/acme-challenge/:token'', EpACME),
        (''POST'', ''/v1/certificates/:id/challenges/http-01/start'', EpStart),
        (''POST'', ''/v1/certificates/:id/challenges/http-01/complete'', EpComplete),
        (''GET'', ''/v1/certificates/:id'', EpGetCertificate)]"

record SampleLib =
  s_lib :: Lib
  s_gin :: Gin
  s_cert_gin :: CertGin
  gin_match :: "(string \<times> string) list \<Rightarrow> Request \<Rightarrow> (nat \<times> (string \<Rightarrow> string)) option"
  gin_ClientIP :: "Request \<Rightarrow> string"
  promhttp :: "GinContext \<Rightarrow> GinContext"

section \<open>The server\<close>

record log_entry =
  log_method :: string
  log_path :: string
  log_status :: int
  log_latency :: duration
  log_client_ip :: string

record Sample =
  svc :: "MemoryStore Service"
  certs :: "CertMemoryStore Certs"
  logClock :: clock
  accessLog :: "log_entry list"

text \<open>The state \<open>main\<close> sets up before it serves.\<close>

definition sample_init :: "SampleLib \<Rightarrow> reader \<Rightarrow> clock \<Rightarrow> Telemetry \<Rightarrow> Sample" where
  "sample_init sl crypto_rand time_now tel =
     \<lparr>svc = NewService (s_lib sl) crypto_rand time_now tel (NewMemoryStore time_now)
              [WithTokenTTL (3600 * Second)],
      certs = \<lparr>certStore = new_cert_store, certClock = time_now\<rparr>,
      logClock = time_now, accessLog = []\<rparr>"

type_synonym sample_handler = "(MemoryStore, CertMemoryStore Certs) handler"

text \<open>A handler of the service, and one of the certificates, on the joint state.\<close>

definition on_service ::
  "(GinContext \<Rightarrow> MemoryStore Service \<Rightarrow> GinContext \<times> MemoryStore Service) \<Rightarrow> sample_handler" where
  "on_service h c sw = (case h c (fst sw) of (c, s) \<Rightarrow> (c, s, snd sw))"

definition on_certs ::
  "(GinContext \<Rightarrow> CertMemoryStore Certs \<Rightarrow> GinContext \<times> CertMemoryStore Certs) \<Rightarrow> sample_handler" where
  "on_certs h c sw = (case h c (snd sw) of (c, w) \<Rightarrow> (c, fst sw, w))"

text \<open>The group \<open>/v1\<close>: bearer authentication, then the resource check, then the handler.\<close>

definition protected :: "string \<Rightarrow> sample_handler \<Rightarrow> sample_handler" where
  "protected resourceBaseURL h =
     TokenAuthMiddleware memory_ops (RequireResource (resource_extractor resourceBaseURL) h)"

fun sample_endpoint_handler :: "SampleLib \<Rightarrow> string \<Rightarrow> sample_endpoint \<Rightarrow> sample_handler" where
  "sample_endpoint_handler sl base EpHealth =
     (\<lambda>c sw. (gin_JSON 200 (JObj [(''status'', jstring ''ok'')]) c, sw))"
| "sample_endpoint_handler sl base EpMetrics = (\<lambda>c sw. (promhttp sl c, sw))"
| "sample_endpoint_handler sl base (EpOAuth ep) =
     on_service (oauth_handler (s_gin sl) memory_ops (s_lib sl) ep)"
| "sample_endpoint_handler sl base EpACME = on_certs (ServeACMEChallenge cert_memory_ops)"
| "sample_endpoint_handler sl base EpStart =
     protected base (on_certs (StartChallenge (s_cert_gin sl) cert_memory_ops))"
| "sample_endpoint_handler sl base EpComplete =
     protected base (on_certs (CompleteChallenge (s_cert_gin sl) cert_memory_ops))"
| "sample_endpoint_handler sl base EpGetCertificate =
     protected base (on_certs (GetCertificate_handler cert_memory_ops))"

text \<open>The route of a request, with its path parameters.\<close>

definition sample_route ::
  "SampleLib \<Rightarrow> Request \<Rightarrow> (sample_endpoint \<times> (string \<Rightarrow> string)) option" where
  "sample_route sl r =
     (case gin_match sl (map (\<lambda>(m, p, ep). (m, p)) sample_routes) r of
        None \<Rightarrow> None
      | Some (n, ps) \<Rightarrow>
          (if n < length sample_routes then Some (snd (snd (sample_routes ! n)), ps) else None))"

text \<open>One request: routed, handled, and logged when the handlers have returned.\<close>

definition sample_serve :: "SampleLib \<Rightarrow> string \<Rightarrow> Request \<Rightarrow> Sample \<Rightarrow> GinContext \<times> Sample" where
  "sample_serve sl base r w =
     (case now (logClock w) of (start, clk) \<Rightarrow>
      case (case sample_route sl r of
              None \<Rightarrow> (gin_String 404 ''404 page not found'' (new_context r (\<lambda>_. [])), svc w, certs w)
            | Some (ep, ps) \<Rightarrow>
                sample_endpoint_handler sl base ep (new_context r ps) (svc w, certs w)) of
        (c, s, cw) \<Rightarrow>
      case now clk of (stop, clk) \<Rightarrow>
        (c, \<lparr>svc = s, certs = cw, logClock = clk,
             accessLog = accessLog w @
               [\<lparr>log_method = r_Method r, log_path = r_Path r, log_status = w_Status c,
                 log_latency = time_Sub stop start, log_client_ip = gin_ClientIP sl r\<rparr>]\<rparr>))"

end
