(* ===== verification/Certificate_Properties.thy ===== *)
theory Certificate_Properties
  imports Certificate
begin

text \<open>
  The properties of the certificate handlers, over any store that keeps the contract
  \<open>cert_store\<close>, and for \<open>MemoryStore\<close>.
\<close>

section \<open>Over any store\<close>

lemma certs_now_eq: "certs_now w = (next_reading (certClock w), w\<lparr>certClock := snd (now (certClock w))\<rparr>)"
  by (simp add: certs_now_def now_def)

text \<open>The challenge that a start request provisions, and the certificate it may create.\<close>

definition started_challenge :: "string \<Rightarrow> StartChallengeRequest \<Rightarrow> time \<Rightarrow> HTTP01Challenge" where
  "started_challenge cid req t =
     \<lparr>chal_CertificateID = cid, chal_Domain = start_Domain req, chal_Token = start_Token req,
      chal_KeyAuthorization = start_KeyAuthorization req, chal_Status = ''pending'', chal_CreatedAt = t\<rparr>"

definition pending_certificate :: "string \<Rightarrow> StartChallengeRequest \<Rightarrow> time \<Rightarrow> Certificate" where
  "pending_certificate cid req t =
     \<lparr>cert_ID = cid, cert_Domain = start_Domain req, cert_Status = ''pending'', cert_CreatedAt = t,
      cert_ExpiresAt = zero_time\<rparr>"

definition start_complete :: "StartChallengeRequest \<Rightarrow> bool" where
  "start_complete req \<longleftrightarrow>
     start_Domain req \<noteq> [] \<and> start_Token req \<noteq> [] \<and> start_KeyAuthorization req \<noteq> []"

definition issued_certificate :: "Certificate \<Rightarrow> time \<Rightarrow> Certificate" where
  "issued_certificate k t = k\<lparr>cert_Status := ''issued'', cert_ExpiresAt := t + 7776000 * 1000000000\<rparr>"

lemma ninety_days: "time_Add t (7776000 * Second) = t + 7776000 * 1000000000"
  by (simp add: time_Add_def Second_def nanos_per_second_def)

context cert_store
begin

lemma save_cert_pair:
  "op_SaveCertificate ops (Some k) s = (e, s') \<Longrightarrow>
   e = None \<and> certs_of s' = (certs_of s)(cert_ID k \<mapsto> k) \<and> chals_of s' = chals_of s"
  using save_cert [of k s] by simp

lemma save_chal_pair:
  "op_SaveChallenge ops (Some ch) s = (e, s') \<Longrightarrow>
   e = None \<and> chals_of s' = (chals_of s)(chal_Token ch \<mapsto> ch) \<and> certs_of s' = certs_of s"
  using save_chal [of ch s] by simp

lemma provision_challenge_effect:
  assumes "provision_challenge ops cid req t c w = (c', w')"
  shows "w_Status c' = 201
    \<and> chals_of (certStore w') = (chals_of (certStore w))(start_Token req \<mapsto> started_challenge cid req t)
    \<and> certs_of (certStore w') = certs_of (certStore w)"
  using assms save_chal_pair [of "started_challenge cid req t" "certStore w"]
  by (cases "op_SaveChallenge ops (Some (started_challenge cid req t)) (certStore w)")
    (auto simp: provision_challenge_def Let_def started_challenge_def gin_defs)

text \<open>A start either is refused and changes no view, or provisions the challenge.\<close>

lemma StartChallenge_cases:
  assumes "StartChallenge gin ops c w = (c', w')"
  obtains (refused) "w_Status c' = 400" "certStore w' = certStore w"
  | (started) req r where "c_Params c ''id'' \<noteq> []" "bind_start gin (c_Request c) = (Inr req, r)"
      "start_complete req" "w_Status c' = 201"
      "chals_of (certStore w') = (chals_of (certStore w))(start_Token req \<mapsto>
         started_challenge (c_Params c ''id'') req (next_reading (certClock w)))"
      "certs_of (certStore w') = (if certs_of (certStore w) (c_Params c ''id'') = None
         then (certs_of (certStore w))(c_Params c ''id'' \<mapsto>
           pending_certificate (c_Params c ''id'') req (next_reading (certClock w)))
         else certs_of (certStore w))"
proof -
  let ?id = "c_Params c ''id''" and ?t = "next_reading (certClock w)"
  let ?w1 = "w\<lparr>certClock := snd (now (certClock w))\<rparr>"
  obtain bound r where b: "bind_start gin (c_Request c) = (bound, r)" by fastforce
  consider (bad) "?id = [] \<or> (\<exists>e. bound = Inl e) \<or> (\<exists>req. bound = Inr req \<and> \<not> start_complete req)"
    | (good) req where "?id \<noteq> []" "bound = Inr req" "start_complete req"
    by (cases bound) auto
  then show ?thesis
  proof cases
    case bad
    with assms b show ?thesis
      by (intro refused) (auto simp: StartChallenge_def Let_def missing_id_def gin_defs start_complete_def
          split: if_splits)
  next
    case (good req)
    note g = good b good(3) [unfolded start_complete_def] assms
    show ?thesis
    proof (cases "certs_of (certStore w) ?id")
      case (Some k)
      with g get_cert [of ?id "certStore w"] have
        "provision_challenge ops ?id req ?t (c\<lparr>c_Request := r\<rparr>) ?w1 = (c', w')"
        by (auto simp: StartChallenge_def start_after_lookup_def Let_def certs_now_eq)
      from provision_challenge_effect [OF this] good b Some show ?thesis
        by (intro started) auto
    next
      case None
      obtain e st where s: "op_SaveCertificate ops (Some (pending_certificate ?id req ?t)) (certStore w)
          = (e, st)" by fastforce
      note sv = save_cert_pair [OF s]
      from None g s sv get_cert [of ?id "certStore w"] have
        "provision_challenge ops ?id req ?t (c\<lparr>c_Request := r\<rparr>) (?w1\<lparr>certStore := st\<rparr>) = (c', w')"
        by (auto simp: StartChallenge_def start_after_lookup_def Let_def certs_now_eq pending_certificate_def)
      from provision_challenge_effect [OF this] good b None sv show ?thesis
        by (intro started) (auto simp: pending_certificate_def)
    qed
  qed
qed

text \<open>Completion: refused, no such challenge, challenge gone but no certificate, or issued.\<close>

lemma CompleteChallenge_cases:
  assumes "CompleteChallenge gin ops c w = (c', w')"
  obtains (refused) "w_Status c' \<in> {400, 404}" "chals_of (certStore w') = chals_of (certStore w)"
      "certs_of (certStore w') = certs_of (certStore w)"
  | (orphan) tok ch where "chals_of (certStore w) tok = Some ch" "w_Status c' = 404"
      "certs_of (certStore w) (c_Params c ''id'') = None"
      "chals_of (certStore w') = (chals_of (certStore w))(tok := None)"
      "certs_of (certStore w') = certs_of (certStore w)"
  | (issued) req r ch k where "bind_complete gin (c_Request c) = (Inr req, r)"
      "chals_of (certStore w) (complete_Token req) = Some ch"
      "certs_of (certStore w) (c_Params c ''id'') = Some k" "w_Status c' = 200"
      "chals_of (certStore w') = (chals_of (certStore w))(complete_Token req := None)"
      "certs_of (certStore w') = (certs_of (certStore w))(cert_ID k \<mapsto>
         issued_certificate k (next_reading (certClock w)))"
proof -
  let ?id = "c_Params c ''id''"
  obtain bound r where b: "bind_complete gin (c_Request c) = (bound, r)" by fastforce
  consider (bad) "?id = [] \<or> (\<exists>e. bound = Inl e) \<or> (\<exists>req. bound = Inr req \<and> complete_Token req = [])"
    | (good) req where "?id \<noteq> []" "bound = Inr req" "complete_Token req \<noteq> []"
    by (cases bound) auto
  then show ?thesis
  proof cases
    case bad
    with assms b show ?thesis
      by (intro refused) (auto simp: CompleteChallenge_def Let_def missing_id_def gin_defs split: if_splits)
  next
    case (good req)
    obtain e st where d: "op_DeleteChallenge ops (complete_Token req) (certStore w) = (e, st)" by fastforce
    note del = delete_chal [OF d]
    show ?thesis
    proof (cases "chals_of (certStore w) (complete_Token req)")
      case None
      with good b d del assms show ?thesis
        by (intro refused) (auto simp: CompleteChallenge_def Let_def gin_defs)
    next
      case ch: (Some ch)
      show ?thesis
      proof (cases "certs_of (certStore w) ?id")
        case None
        with good b d del ch assms get_cert [of ?id st] show ?thesis
          by (intro orphan [of "complete_Token req" ch])
            (auto simp: CompleteChallenge_def Let_def certs_now_eq gin_defs)
      next
        case (Some k)
        let ?k = "issued_certificate k (next_reading (certClock w))"
        obtain e' st' where s: "op_SaveCertificate ops (Some ?k) st = (e', st')" by fastforce
        note sv = save_cert_pair [OF s]
        from Some good b d del ch assms get_cert [of ?id st] s sv have
          "w_Status c' = 200 \<and> certStore w' = st'"
          by (auto simp: CompleteChallenge_def Let_def certs_now_eq gin_defs ninety_days
              issued_certificate_def)
        with Some good b del ch sv show ?thesis
          by (intro issued [of req r ch k]) (auto simp: issued_certificate_def)
      qed
    qed
  qed
qed

end

section \<open>Runs of the handlers\<close>

text \<open>The requests a server answers one after another; reading requests change nothing.\<close>

inductive cert_step :: "CertGin \<Rightarrow> 'st CertOps \<Rightarrow> 'st Certs \<Rightarrow> 'st Certs \<Rightarrow> bool" for gin ops where
  start: "StartChallenge gin ops c w = (c', w') \<Longrightarrow> cert_step gin ops w w'"
| complete: "CompleteChallenge gin ops c w = (c', w') \<Longrightarrow> cert_step gin ops w w'"
| get: "GetCertificate_handler ops c w = (c', w') \<Longrightarrow> cert_step gin ops w w'"
| serve: "ServeACMEChallenge ops c w = (c', w') \<Longrightarrow> cert_step gin ops w w'"

inductive cert_run :: "CertGin \<Rightarrow> 'st CertOps \<Rightarrow> 'st Certs \<Rightarrow> 'st Certs \<Rightarrow> bool" for gin ops w where
  cert_run_none: "cert_run gin ops w w"
| cert_run_step: "cert_run gin ops w w1 \<Longrightarrow> cert_step gin ops w1 w2 \<Longrightarrow> cert_run gin ops w w2"

text \<open>
  What holds of the two views: entries are filed under their own keys; a certificate is pending
  without an expiry or issued; a challenge is pending, complete, and its certificate exists.
\<close>

definition cert_wf :: "(string \<Rightarrow> Certificate option) \<Rightarrow> (string \<Rightarrow> HTTP01Challenge option) \<Rightarrow> bool" where
  "cert_wf cs chs \<longleftrightarrow>
     (\<forall>i k. cs i = Some k \<longrightarrow> cert_ID k = i \<and> i \<noteq> []
        \<and> (cert_Status k = ''pending'' \<and> cert_ExpiresAt k = zero_time \<or> cert_Status k = ''issued''))
   \<and> (\<forall>tok ch. chs tok = Some ch \<longrightarrow> chal_Token ch = tok \<and> tok \<noteq> [] \<and> chal_KeyAuthorization ch \<noteq> []
        \<and> chal_Status ch = ''pending'' \<and> cs (chal_CertificateID ch) \<noteq> None)"

text \<open>A certificate is kept with its domain, and once issued it stays issued.\<close>

definition cert_progress :: "Certificate option \<Rightarrow> Certificate option \<Rightarrow> bool" where
  "cert_progress before after \<longleftrightarrow>
     (case before of
        None \<Rightarrow> True
      | Some k \<Rightarrow>
          (case after of
             None \<Rightarrow> False
           | Some k' \<Rightarrow> cert_Domain k' = cert_Domain k \<and> cert_CreatedAt k' = cert_CreatedAt k
               \<and> (cert_Status k = ''issued'' \<longrightarrow> cert_Status k' = ''issued'')))"

lemma cert_progress_refl [simp]: "cert_progress k k"
  by (simp add: cert_progress_def split: option.split)

lemma cert_progress_trans: "cert_progress a b \<Longrightarrow> cert_progress b c \<Longrightarrow> cert_progress a c"
  by (auto simp: cert_progress_def split: option.splits)

context cert_store
begin

lemma reading_handlers_frame:
  "GetCertificate_handler ops c w = (c', w') \<Longrightarrow> w' = w"
  "ServeACMEChallenge ops c w = (c', w') \<Longrightarrow> w' = w"
  by (auto simp: GetCertificate_handler_def ServeACMEChallenge_def Let_def split: if_splits sum.splits)

lemma cert_step_wf:
  assumes "cert_step gin ops w w'" "cert_wf (certs_of (certStore w)) (chals_of (certStore w))"
  shows "cert_wf (certs_of (certStore w')) (chals_of (certStore w'))
    \<and> cert_progress (certs_of (certStore w) i) (certs_of (certStore w') i)"
  using assms(1)
proof cases
  case (start c c')
  then show ?thesis
  proof (cases rule: StartChallenge_cases)
    case refused
    with assms(2) show ?thesis by simp
  next
    case (started req r)
    with assms(2) show ?thesis
      by (auto simp: cert_wf_def start_complete_def started_challenge_def pending_certificate_def
          cert_progress_def split: option.split)
  qed
next
  case (complete c c')
  then show ?thesis
  proof (cases rule: CompleteChallenge_cases)
    case refused
    with assms(2) show ?thesis by simp
  next
    case (orphan tok ch)
    with assms(2) show ?thesis by (auto simp: cert_wf_def)
  next
    case (issued req r ch k)
    with assms(2) show ?thesis
      by (auto simp: cert_wf_def issued_certificate_def cert_progress_def split: option.split)
  qed
qed (use assms(2) in \<open>auto dest: reading_handlers_frame\<close>)

lemma cert_run_wf:
  assumes "cert_run gin ops w w'" "cert_wf (certs_of (certStore w)) (chals_of (certStore w))"
  shows "cert_wf (certs_of (certStore w')) (chals_of (certStore w'))
    \<and> cert_progress (certs_of (certStore w) i) (certs_of (certStore w') i)"
  using assms
proof (induction rule: cert_run.induct)
  case cert_run_none
  then show ?case by simp
next
  case (cert_run_step w1 w2)
  then show ?case using cert_step_wf [of gin w1 w2 i] cert_progress_trans by blast
qed

end

section \<open>A concrete server\<close>

definition demo_cert_gin :: CertGin where
  "demo_cert_gin =
     \<lparr>bind_start = (\<lambda>r. (Inr \<lparr>start_Domain = ''a.b'', start_Token = ''t'', start_KeyAuthorization = ''k''\<rparr>, r)),
      bind_complete = (\<lambda>r. (Inr \<lparr>complete_Token = ''t''\<rparr>, r))\<rparr>"

definition demo_certs :: "CertMemoryStore Certs" where
  "demo_certs = \<lparr>certStore = new_cert_store, certClock = fixed_clock 0\<rparr>"

definition demo_cert_request :: "string \<Rightarrow> GinContext" where
  "demo_cert_request i = new_context
     \<lparr>r_Method = ''POST'', r_Path = [], r_Query = [], r_Header = (\<lambda>_. []), r_Body = [],
      r_Context = \<lparr>span_recording = False\<rparr>\<rparr> (\<lambda>_. i)"

definition demo_started :: "CertMemoryStore Certs" where
  "demo_started = snd (StartChallenge demo_cert_gin cert_memory_ops (demo_cert_request ''x'') demo_certs)"

lemma demo_start:
  "StartChallenge demo_cert_gin cert_memory_ops (demo_cert_request ''x'') demo_certs
   = (fst (StartChallenge demo_cert_gin cert_memory_ops (demo_cert_request ''x'') demo_certs), demo_started)"
  by (simp add: demo_started_def)

lemma demo_start_status:
  "w_Status (fst (StartChallenge demo_cert_gin cert_memory_ops (demo_cert_request ''x'') demo_certs)) = 201"
  by (simp add: StartChallenge_def start_after_lookup_def provision_challenge_def Let_def certs_now_eq
      demo_cert_request_def demo_cert_gin_def demo_certs_def new_context_def new_cert_store_def
      cert_memory_ops_def cert_memory_defs gin_defs)

section \<open>Challenges\<close>

text \<open>C31: a challenge that was accepted is served: after a start answered with 201, the public
  endpoint answers a request for its token with exactly the key authorization it was given.\<close>

theorem start_then_serve:
  assumes "StartChallenge gin cert_memory_ops c w = (c1, w1)" "w_Status c1 = 201"
    and "bind_start gin (c_Request c) = (Inr req, r)" "c_Params d ''token'' = start_Token req"
  shows "ServeACMEChallenge cert_memory_ops d w1
    = (gin_Data 200 ''application/octet-stream'' (start_KeyAuthorization req) d, w1)"
  using assms(1)
proof (cases rule: certmem.StartChallenge_cases)
  case (started req' r')
  with assms certmem.get_chal [of "start_Token req" "certStore w1"] show ?thesis
    by (auto simp: ServeACMEChallenge_def start_complete_def started_challenge_def)
qed (use assms(2) in auto)

theorem start_then_serve_witness:
  "w_Body (fst (ServeACMEChallenge cert_memory_ops (demo_cert_request ''t'') demo_started))
   = BodyData ''application/octet-stream'' ''k''"
proof -
  let ?req = "\<lparr>start_Domain = ''a.b'', start_Token = ''t'', start_KeyAuthorization = ''k''\<rparr>"
  let ?d = "demo_cert_request ''t''"
  have b: "bind_start demo_cert_gin (c_Request (demo_cert_request ''x''))
      = (Inr ?req, c_Request (demo_cert_request ''x''))"
    by (simp add: demo_cert_gin_def)
  have p: "c_Params ?d ''token'' = start_Token ?req" by (simp add: demo_cert_request_def new_context_def)
  show ?thesis
    using start_then_serve [OF demo_start demo_start_status b p] by (simp add: gin_defs)
qed

text \<open>A completion answered with 200 takes the challenge away, so that it is no longer served,
  and marks the certificate of the path issued for 90 days, all its other data kept; no other
  certificate or challenge changes.\<close>

theorem CompleteChallenge_issues:
  assumes "CompleteChallenge gin cert_memory_ops c w = (c1, w1)" "w_Status c1 = 200"
    and "cert_wf (certificates (certStore w)) (challenges (certStore w))"
  shows "\<exists>tok ch k. challenges (certStore w) tok = Some ch
     \<and> certificates (certStore w) (c_Params c ''id'') = Some k
     \<and> challenges (certStore w1) = (challenges (certStore w))(tok := None)
     \<and> certificates (certStore w1) = (certificates (certStore w))(c_Params c ''id'' \<mapsto>
         k\<lparr>cert_Status := ''issued'',
           cert_ExpiresAt := next_reading (certClock w) + 90 * 24 * 3600 * 1000000000\<rparr>)
     \<and> (\<forall>d. c_Params d ''token'' = tok \<longrightarrow> ServeACMEChallenge cert_memory_ops d w1
          = (gin_String 404 ''Challenge not found'' d, w1))"
  using assms(1)
proof (cases rule: certmem.CompleteChallenge_cases)
  case (issued req r ch k)
  have "cert_ID k = c_Params c ''id''" using assms(3) issued(3) by (auto simp: cert_wf_def)
  moreover have "complete_Token req \<noteq> []" using assms(3) issued(2) by (auto simp: cert_wf_def)
  ultimately show ?thesis
    using issued certmem.get_chal [of "complete_Token req" "certStore w1"]
    by (intro exI [of _ "complete_Token req"] exI [of _ ch] exI [of _ k])
      (auto simp: issued_certificate_def ServeACMEChallenge_def)
qed (use assms(2) in auto)

lemma demo_completed:
  assumes "certStore w = certStore demo_started"
  shows "w_Status (fst (CompleteChallenge demo_cert_gin cert_memory_ops (demo_cert_request ''x'') w)) = 200"
  by (simp add: CompleteChallenge_def assms demo_started_def StartChallenge_def start_after_lookup_def
      provision_challenge_def Let_def certs_now_eq demo_cert_request_def demo_cert_gin_def demo_certs_def
      new_context_def new_cert_store_def cert_memory_ops_def cert_memory_defs gin_defs)

lemma demo_complete:
  "CompleteChallenge demo_cert_gin cert_memory_ops (demo_cert_request ''x'') demo_started
   = (fst (CompleteChallenge demo_cert_gin cert_memory_ops (demo_cert_request ''x'') demo_started),
      snd (CompleteChallenge demo_cert_gin cert_memory_ops (demo_cert_request ''x'') demo_started))"
  by simp

lemma cert_wf_new: "cert_wf (certificates new_cert_store) (challenges new_cert_store)"
  by (simp add: cert_wf_def new_cert_store_def)

lemma demo_started_step: "cert_step demo_cert_gin cert_memory_ops demo_certs demo_started"
  by (rule cert_step.start [OF demo_start])

lemma demo_started_wf:
  "cert_wf (certificates (certStore demo_started)) (challenges (certStore demo_started))"
  using certmem.cert_step_wf [OF demo_started_step] cert_wf_new by (simp add: demo_certs_def)

theorem CompleteChallenge_issues_witness:
  "\<exists>k. certificates (certStore (snd (CompleteChallenge demo_cert_gin cert_memory_ops
      (demo_cert_request ''x'') demo_started))) ''x'' = Some k \<and> cert_Status k = ''issued''"
  using CompleteChallenge_issues [OF demo_complete demo_completed [OF refl] demo_started_wf]
  by (auto simp: demo_cert_request_def new_context_def)



section \<open>What the handlers do not check\<close>

text \<open>C32: completion does not compare the certificate of the challenge with that of the path: with
  the token of a challenge for one certificate, any other existing certificate is marked issued,
  and the challenge of the first is gone.\<close>

theorem foreign_challenge_completes:
  assumes "bind_complete gin (c_Request c) = (Inr req, r)" "complete_Token req \<noteq> []"
    and "c_Params c ''id'' = mine" "mine \<noteq> []"
    and "challenges (certStore w) (complete_Token req) = Some ch" "chal_CertificateID ch \<noteq> mine"
    and "certificates (certStore w) mine = Some k" "cert_ID k = mine"
    and "CompleteChallenge gin cert_memory_ops c w = (c1, w1)"
  shows "w_Status c1 = 200 \<and> challenges (certStore w1) (complete_Token req) = None
    \<and> (\<exists>k'. certificates (certStore w1) mine = Some k' \<and> cert_Status k' = ''issued'')
    \<and> certificates (certStore w1) (chal_CertificateID ch) = certificates (certStore w) (chal_CertificateID ch)"
proof -
  have "w_Status c1 = 200 \<and> certStore w1 = certStore w
      \<lparr>challenges := (challenges (certStore w))(complete_Token req := None),
       certificates := (certificates (certStore w))(mine \<mapsto> issued_certificate k (next_reading (certClock w)))\<rparr>"
    using assms
    by (auto simp: CompleteChallenge_def Let_def certs_now_eq gin_defs cert_memory_ops_def
        cert_memory_defs issued_certificate_def ninety_days)
  with assms(6) show ?thesis by (auto simp: issued_certificate_def)
qed

theorem foreign_challenge_completes_witness:
  "\<exists>w k k'. challenges (certStore w) ''t'' = Some k \<and> chal_CertificateID k = ''x''
     \<and> certificates (certStore (snd (CompleteChallenge demo_cert_gin cert_memory_ops
          (demo_cert_request ''y'') w))) ''y'' = Some k' \<and> cert_Status k' = ''issued''"
proof -
  let ?req = "\<lparr>complete_Token = ''t''\<rparr>"
  let ?k = "\<lparr>cert_ID = ''y'', cert_Domain = ''d'', cert_Status = ''pending'', cert_CreatedAt = 0,
      cert_ExpiresAt = zero_time\<rparr>"
  let ?ch = "\<lparr>chal_CertificateID = ''x'', chal_Domain = ''d'', chal_Token = ''t'',
      chal_KeyAuthorization = ''k'', chal_Status = ''pending'', chal_CreatedAt = 0\<rparr>"
  let ?w = "\<lparr>certStore = \<lparr>certificates = [''y'' \<mapsto> ?k], challenges = [''t'' \<mapsto> ?ch]\<rparr>,
      certClock = fixed_clock 0\<rparr>"
  let ?c = "demo_cert_request ''y''"
  obtain c1 w1 where run: "CompleteChallenge demo_cert_gin cert_memory_ops ?c ?w = (c1, w1)" by fastforce
  have "bind_complete demo_cert_gin (c_Request ?c) = (Inr ?req, c_Request ?c)"
    by (simp add: demo_cert_gin_def)
  from foreign_challenge_completes [OF this _ _ _ _ _ _ _ run, of "''y''" ?ch ?k] have
    "\<exists>k'. certificates (certStore w1) ''y'' = Some k' \<and> cert_Status k' = ''issued''"
    by (simp add: demo_cert_request_def new_context_def)
  with run show ?thesis by (intro exI [of _ ?w] exI [of _ ?ch]) auto
qed

text \<open>C33: starting a challenge is not atomic. If the lookup of the certificate finds nothing and
  other requests then create it and have it issued before the start goes on, the start answers
  201 and puts the certificate back to pending without an expiry.\<close>

theorem stale_start_reverts_issued:
  assumes "op_GetCertificate cert_memory_ops certID (certStore w0) = found" "found = Inl e"
    and "cert_run gin cert_memory_ops w0 w1"
    and "certificates (certStore w1) certID = Some k" "cert_Status k = ''issued''"
    and "start_after_lookup cert_memory_ops certID req t found c w1 = (c', w2)"
  shows "w_Status c' = 201
    \<and> certificates (certStore w2) certID = Some (pending_certificate certID req t)
    \<and> \<not> cert_progress (certificates (certStore w1) certID) (certificates (certStore w2) certID)"
proof -
  have "e = cert_err ErrCertificateNotFound"
    using assms(1,2) certmem.get_cert [of certID "certStore w0"] by (auto split: option.splits)
  with assms(2,6) have "w_Status c' = 201
      \<and> certificates (certStore w2) certID = Some (pending_certificate certID req t)"
    by (auto simp: start_after_lookup_def provision_challenge_def Let_def cert_memory_ops_def
        cert_memory_defs gin_defs pending_certificate_def)
  with assms(4,5) show ?thesis by (auto simp: cert_progress_def pending_certificate_def)
qed

theorem stale_start_reverts_issued_witness:
  "\<exists>w1 w2 c' k k'. cert_run demo_cert_gin cert_memory_ops demo_certs w1
     \<and> certificates (certStore w1) ''x'' = Some k \<and> cert_Status k = ''issued''
     \<and> start_after_lookup cert_memory_ops ''x''
         \<lparr>start_Domain = ''a.b'', start_Token = ''u'', start_KeyAuthorization = ''k''\<rparr> 0
         (op_GetCertificate cert_memory_ops ''x'' (certStore demo_certs)) (demo_cert_request ''x'') w1 = (c', w2)
     \<and> certificates (certStore w2) ''x'' = Some k' \<and> cert_Status k' = ''pending''"
proof -
  let ?req = "\<lparr>start_Domain = ''a.b'', start_Token = ''u'', start_KeyAuthorization = ''k''\<rparr>"
  let ?found = "op_GetCertificate cert_memory_ops ''x'' (certStore demo_certs)"
  define w1 where "w1 = snd (CompleteChallenge demo_cert_gin cert_memory_ops (demo_cert_request ''x'') demo_started)"
  have step: "cert_step demo_cert_gin cert_memory_ops demo_started w1"
    unfolding w1_def by (rule cert_step.complete [OF demo_complete])
  have run: "cert_run demo_cert_gin cert_memory_ops demo_certs w1"
    by (rule cert_run_step [OF cert_run_step [OF cert_run_none demo_started_step] step])
  have k: "\<exists>k. certificates (certStore w1) ''x'' = Some k \<and> cert_Status k = ''issued''"
  proof -
    from demo_complete [folded w1_def] show ?thesis
      by (rule certmem.CompleteChallenge_cases)
        (use demo_completed [OF refl] demo_started_wf in
          \<open>auto simp: issued_certificate_def cert_wf_def demo_cert_request_def new_context_def\<close>)
  qed
  then obtain k where k: "certificates (certStore w1) ''x'' = Some k" "cert_Status k = ''issued''" by blast
  have f: "?found = Inl (cert_err ErrCertificateNotFound)"
    by (simp add: certmem.get_cert demo_certs_def new_cert_store_def)
  obtain c' w2 where s: "start_after_lookup cert_memory_ops ''x'' ?req 0 ?found
      (demo_cert_request ''x'') w1 = (c', w2)" by fastforce
  from stale_start_reverts_issued [OF refl f run k s] run k s show ?thesis
    by (auto simp: pending_certificate_def)
qed

end
