(* ===== verification/Middleware_Properties.thy ===== *)
theory Middleware_Properties
  imports Middleware Service_Properties
begin

text \<open>
  The properties of the bearer-token middleware, the resource check and the scope check, over a
  service with a \<open>MemoryStore\<close>.
\<close>

section \<open>The token a request presents\<close>

text \<open>The stored token named by the request's bearer credentials, if it is good now.\<close>

definition presented :: "GinContext \<Rightarrow> MemoryStore Service \<Rightarrow> Token option" where
  "presented c s =
     (case bearer_token (header_get ''Authorization'' (c_Request c)) of
        None \<Rightarrow> None
      | Some tok \<Rightarrow>
          (case tokens (store s) (ComputeTokenHash tok) of
             None \<Rightarrow> None
           | Some t \<Rightarrow>
               (if IsRevoked t \<or> IsExpired t (next_reading (nowFunc s)) then None else Some t)))"

definition with_token :: "Token \<Rightarrow> GinContext \<Rightarrow> GinContext" where
  "with_token t c = c\<lparr>c_Keys := (c_Keys c)(TokenContextKey \<mapsto> CtxToken (Some t))\<rparr>"

lemma GetTokenFromContext_with_token [simp]:
  "GetTokenFromContext (with_token t c) = (Some t, True)"
  by (simp add: GetTokenFromContext_def with_token_def)

lemma bearer_token_Nil [simp]: "bearer_token [] = None"
  by (simp add: bearer_token_def SplitN2_def Cut_absent)

lemma bearer_token_nonempty: "bearer_token h = Some tok \<Longrightarrow> tok \<noteq> []"
  by (auto simp: bearer_token_def split: list.splits if_splits)

lemma bearer_token_Bearer:
  assumes "graphics tok" "tok \<noteq> []"
  shows "bearer_token (''Bearer '' @ tok) = Some tok"
proof -
  have "SplitN2 (''Bearer'' @ CHR '' '' # tok) (CHR '' '') = [''Bearer'', tok]"
    by (rule SplitN2_found) simp
  with assms show ?thesis by (simp add: bearer_token_def TrimSpace_graphic)
qed

lemma graphics_opaque_token: "graphics (opaque_token b)"
  using RawURLEncoding_graphic [of b] by (simp add: opaque_token_def) code_simp

lemma presented_opaque_token:
  assumes "header_get ''Authorization'' (c_Request c) = ''Bearer '' @ opaque_token b"
    and "tokens (store s) (ComputeTokenHash (opaque_token b)) = Some t"
    and "\<not> IsRevoked t" "\<not> IsExpired t (next_reading (nowFunc s))"
  shows "presented c s = Some t"
proof -
  have "opaque_token b \<noteq> []" by (simp add: opaque_token_def)
  from bearer_token_Bearer [OF graphics_opaque_token this] assms show ?thesis
    by (simp add: presented_def)
qed

lemma auth_check_frame [simp, frame]:
  "store (record_auth_check st cid res err c s) = store s"
  "nowFunc (record_auth_check st cid res err c s) = nowFunc s"
  "tokenTTL (record_auth_check st cid res err c s) = tokenTTL s"
  by (simp_all add: record_auth_check_def)

lemma ValidateToken_store [simp]: "store (snd (ValidateToken memory_ops tok s)) = store s"
  by (auto simp: ValidateToken_def GetTokenByHash_def service_now_eq split: option.splits)

lemma ValidateToken_telemetry [simp]: "telemetry (snd (ValidateToken ops tok s)) = telemetry s"
  by (auto simp: ValidateToken_def service_now_eq split: prod.splits sum.splits)

text \<open>Both outcomes, in terms of the token presented.\<close>

lemma RecordAuthCheck_audit_level:
  "st = ''ok'' \<Longrightarrow> \<exists>msg as. audit_log (RecordAuthCheck ctx st cid tr rr p m err t)
     = audit_log t @ [LogEntry (logger t) LevelInfo msg as]"
  "st \<noteq> ''ok'' \<Longrightarrow> \<exists>msg as. audit_log (RecordAuthCheck ctx st cid tr rr p m err t)
     = audit_log t @ [LogEntry (logger t) LevelWarn msg as]"
  by (auto simp: audit_log_def RecordAuthCheck_def split: option.splits)

lemma TokenAuthMiddleware_accepts:
  assumes "presented c s = Some t"
  shows "\<exists>s1. TokenAuthMiddleware memory_ops next c (s, w)
      = next (with_token t c)
          (record_auth_check ''ok'' (ClientID t) (Resource t) None (with_token t c) s1, w)
    \<and> store s1 = store s \<and> telemetry s1 = telemetry s \<and> tokenTTL s1 = tokenTTL s"
proof -
  let ?h = "header_get ''Authorization'' (c_Request c)"
  from assms obtain tok where tok: "bearer_token ?h = Some tok"
    "tokens (store s) (ComputeTokenHash tok) = Some t"
    "\<not> IsRevoked t" "\<not> IsExpired t (next_reading (nowFunc s))"
    by (auto simp: presented_def split: option.splits if_splits)
  then have h: "?h \<noteq> []" by auto
  from tok bearer_token_nonempty [OF tok(1)] have "fst (ValidateToken memory_ops tok s) = Inr t"
    by (simp add: mem.ValidateToken_result)
  then obtain s1 where v: "ValidateToken memory_ops tok s = (Inr t, s1)" by (metis prod.collapse)
  note fr = ValidateToken_store [of tok s] ValidateToken_telemetry [of memory_ops tok s]
    mem.ValidateToken_frame(3) [of tok s]
  show ?thesis
    by (rule exI [of _ s1])
      (use h tok v fr in \<open>simp add: TokenAuthMiddleware_def with_token_def Let_def\<close>)
qed

lemma TokenAuthMiddleware_refuses:
  assumes "presented c s = None"
  obtains desc ch st err s1 where
    "TokenAuthMiddleware memory_ops next c (s, w)
      = (unauthorized ch desc c, record_auth_check st [] [] (Some err) c s1, w)"
    "store s1 = store s" "telemetry s1 = telemetry s" "tokenTTL s1 = tokenTTL s" "st \<noteq> ''ok''"
proof -
  let ?h = "header_get ''Authorization'' (c_Request c)"
  consider (none) "?h = []" | (bad) "?h \<noteq> []" "bearer_token ?h = None"
    | (tok) tok where "?h \<noteq> []" "bearer_token ?h = Some tok" by blast
  then show ?thesis
  proof cases
    case none
    then show ?thesis by (intro that [of _ _ _ _ s]) (auto simp: TokenAuthMiddleware_def Let_def)
  next
    case bad
    then show ?thesis by (intro that [of _ _ _ _ s]) (auto simp: TokenAuthMiddleware_def Let_def)
  next
    case (tok tok)
    from assms tok bearer_token_nonempty [OF tok(2)] have
      "\<exists>e. fst (ValidateToken memory_ops tok s) = Inl e"
      by (auto simp: presented_def mem.ValidateToken_result split: option.splits if_splits)
    then obtain e s1 where v: "ValidateToken memory_ops tok s = (Inl e, s1)" by (metis prod.collapse)
    note fr = ValidateToken_store [of tok s] ValidateToken_telemetry [of memory_ops tok s]
    mem.ValidateToken_frame(3) [of tok s]
    obtain st msg where f: "auth_failure e = (st, msg)" by fastforce
    then have "st \<noteq> ''ok''" by (auto simp: auth_failure_def split: if_splits)
    with tok v f fr show ?thesis
      by (intro that [of _ _ _ _ s1]) (auto simp: TokenAuthMiddleware_def Let_def)
  qed
qed

section \<open>Authentication\<close>

text \<open>C10: a handler behind \<open>TokenAuthMiddleware\<close> runs exactly when the request presents a
  stored, unrevoked, unexpired token, and then finds that token in the context; otherwise the
  answer is 401 with a \<open>WWW-Authenticate\<close> challenge, the chain is aborted, and neither the store
  nor anything behind the middleware changes.\<close>

theorem TokenAuthMiddleware_guards:
  "case presented c s of
     Some t \<Rightarrow> \<exists>s1. TokenAuthMiddleware memory_ops next c (s, w) = next (with_token t c) (s1, w)
         \<and> store s1 = store s
   | None \<Rightarrow> \<exists>c1 s1. TokenAuthMiddleware memory_ops next c (s, w) = (c1, s1, w)
         \<and> store s1 = store s \<and> c_Aborted c1 \<and> w_Status c1 = 401
         \<and> w_Header c1 ''WWW-Authenticate'' \<noteq> None \<and> c_Keys c1 = c_Keys c"
proof (cases "presented c s")
  case (Some t)
  from TokenAuthMiddleware_accepts [OF this, of "next" w] Some show ?thesis by auto
next
  case None
  from this obtain desc ch st err s1 where
    "TokenAuthMiddleware memory_ops next c (s, w)
      = (unauthorized ch desc c, record_auth_check st [] [] (Some err) c s1, w)" "store s1 = store s"
    by (rule TokenAuthMiddleware_refuses)
  with None show ?thesis by (auto simp: unauthorized_def gin_defs)
qed

text \<open>Every request through the middleware leaves exactly one audit entry of its own, before
  anything behind it runs: a grant for a good token and a denial otherwise.\<close>

theorem TokenAuthMiddleware_audited:
  "\<exists>msg as. audit_log (telemetry (fst (snd
       (TokenAuthMiddleware memory_ops (\<lambda>c sw. (c, sw)) c (s, w)))))
     = audit_log (telemetry s) @
       [LogEntry (logger (telemetry s))
          (if presented c s = None then LevelWarn else LevelInfo) msg as]"
proof (cases "presented c s")
  case (Some t)
  from TokenAuthMiddleware_accepts [OF this, of "\<lambda>c sw. (c, sw)" w] Some show ?thesis
    by (auto simp: record_auth_check_def intro: RecordAuthCheck_audit_level)
next
  case None
  from this obtain desc ch st err s1 where
    "TokenAuthMiddleware memory_ops (\<lambda>c sw. (c, sw)) c (s, w)
      = (unauthorized ch desc c, record_auth_check st [] [] (Some err) c s1, w)"
    "telemetry s1 = telemetry s" "st \<noteq> ''ok''"
    by (rule TokenAuthMiddleware_refuses)
  with None show ?thesis
    by (auto simp: record_auth_check_def intro: RecordAuthCheck_audit_level)
qed

text \<open>The text of an issued token, sent as \<open>Bearer\<close> credentials up to its expiry instant,
  passes the middleware, and the handler behind it finds the client, resource and scope of the
  token request.\<close>

theorem issued_token_authenticates:
  assumes "IssueToken memory_ops lib ctx (Some req) s = (Inr resp, s1)"
    and "header_get ''Authorization'' (c_Request c) = ''Bearer '' @ AccessToken resp"
    and "next_reading (nowFunc s1) \<le> issue_time s + sint (tokenTTL s)"
  shows "\<exists>t s2. TokenAuthMiddleware memory_ops next c (s1, w) = next (with_token t c) (s2, w)
     \<and> TokenHash t = ComputeTokenHash (AccessToken resp)
     \<and> Resource t = req_Resource req \<and> Scope t = req_Scope req
     \<and> (\<exists>k. clients (store s) (req_ClientID req) = Some k \<and> ClientID t = ID k)"
  using assms(1)
proof (cases rule: mem.IssueToken_cases)
  case (granted req' k b rd)
  let ?t = "new_token (opaque_token b) req k (issue_time s) (tokenTTL s)"
  from granted assms(2,3) have "presented c s1 = Some ?t"
    by (intro presented_opaque_token [of c b])
      (simp_all add: new_response_def new_token_def IsRevoked_def IsExpired_def time_After_def time_Add_def)
  from TokenAuthMiddleware_accepts [OF this, of "next" w] granted show ?thesis
    by (fastforce simp: new_token_def new_response_def)
qed auto

definition demo_http :: "string \<Rightarrow> GinContext" where
  "demo_http auth = new_context
     \<lparr>r_Method = ''GET'', r_Path = ''/v1/x'', r_Query = [],
      r_Header = (\<lambda>k. if k = ''Authorization'' then [auth] else []), r_Body = [],
      r_Context = demo_ctx\<rparr> (\<lambda>_. [])"

definition demo_next :: "(MemoryStore, unit) handler" where
  "demo_next = (\<lambda>c sw. (gin_Status 204 c, sw))"

theorem issued_token_authenticates_witness:
  "\<exists>t s2. TokenAuthMiddleware memory_ops demo_next (demo_http (''Bearer '' @ demo_token)) (demo_issued, ())
     = demo_next (with_token t (demo_http (''Bearer '' @ demo_token))) (s2, ()) \<and> Scope t = ''read''"
proof -
  have "next_reading (nowFunc demo_issued) = 0"
    using IssueToken_reading [of memory_ops demo_lib demo_ctx "Some demo_request" demo_server]
    by (simp add: demo_issued_def fixed_clock_def)
  moreover have "issue_time demo_server = 0" by (simp add: issue_time_def fixed_clock_def)
  moreover have "header_get ''Authorization'' (c_Request (demo_http (''Bearer '' @ demo_token)))
      = ''Bearer '' @ demo_token"
    by (simp add: demo_http_def new_context_def header_get_def)
  ultimately show ?thesis
    using issued_token_authenticates [OF demo_issue_pair, of "demo_http (''Bearer '' @ demo_token)" demo_next "()"]
    by (auto simp: new_response_def demo_request_def)
qed

section \<open>Resource and scope\<close>

text \<open>Both outcomes of bearer authentication with the resource check behind it.\<close>

lemma RequireResource_cases:
  assumes "TokenAuthMiddleware memory_ops (RequireResource extractor next) c (s, w) = (c1, s1, w1)"
  obtains (refused) "store s1 = store s" "tokenTTL s1 = tokenTTL s" "w1 = w" "c_Aborted c1"
      "case presented c s of
         None \<Rightarrow> w_Status c1 = 401
       | Some t \<Rightarrow> w_Status c1 = 403 \<and> Resource t \<noteq> [] \<and> Resource t \<noteq> extractor (with_token t c)"
  | (ran) t s2 where "presented c s = Some t"
      "Resource t = [] \<or> Resource t = extractor (with_token t c)"
      "next (with_token t c) (s2, w) = (c1, s1, w1)" "store s2 = store s" "tokenTTL s2 = tokenTTL s"
proof (cases "presented c s")
  case (Some t)
  from TokenAuthMiddleware_accepts [OF this, of "RequireResource extractor next" w] obtain s2 where
    run: "RequireResource extractor next (with_token t c) (s2, w) = (c1, s1, w1)"
    and st: "store s2 = store s" "tokenTTL s2 = tokenTTL s"
    using assms by auto
  show ?thesis
  proof (cases "Resource t = [] \<or> Resource t = extractor (with_token t c)")
    case True
    with run have "next (with_token t c) (s2, w) = (c1, s1, w1)" by (auto simp: RequireResource_def)
    from Some True this st show ?thesis by (rule ran)
  next
    case False
    with Some run st show ?thesis by (intro refused) (auto simp: RequireResource_def gin_defs)
  qed
next
  case None
  from this obtain desc ch st err s2 where
    "TokenAuthMiddleware memory_ops (RequireResource extractor next) c (s, w)
      = (unauthorized ch desc c, record_auth_check st [] [] (Some err) c s2, w)"
    "store s2 = store s" "tokenTTL s2 = tokenTTL s"
    by (rule TokenAuthMiddleware_refuses)
  with None assms show ?thesis by (intro refused) (auto simp: unauthorized_def gin_defs)
qed


text \<open>Behind the scope check a handler runs exactly when the context holds a token that either
  has no scope at all or lists the required one among its fields; otherwise the answer is 401
  (no token) or 403, and nothing changes.\<close>

theorem RequireScope_guards:
  "RequireScope required next c sw =
     (if \<exists>t. GetTokenFromContext c = (Some t, True)
          \<and> (Scope t = [] \<or> required \<in> set (Fields (Scope t)))
      then next c sw
      else (AbortWithStatusJSON (if snd (GetTokenFromContext c) \<and> fst (GetTokenFromContext c) \<noteq> None
              then 403 else 401)
             (if snd (GetTokenFromContext c) \<and> fst (GetTokenFromContext c) \<noteq> None
              then error_object ''insufficient_scope''
                [Lit ''Required scope '', Quoted required, Lit '' missing from token'']
              else error_object ''unauthorized'' [Lit ''Token context missing'']) c, sw))"
  by (cases "GetTokenFromContext c")
    (auto simp: RequireScope_def token_missing_def list_ex_iff split: option.splits bool.splits)

text \<open>C34: a client restricted to some scopes can still hold a token without any scope, and that
  token passes every scope check.\<close>

theorem empty_scope_passes_every_scope_check:
  assumes "IssueToken memory_ops lib ctx (Some req) s = (Inr resp, s1)" "req_Scope req = []"
    and "tokens (store s1) (ComputeTokenHash (AccessToken resp)) = Some t"
  shows "RequireScope required next (with_token t c) sw = next (with_token t c) sw"
  using assms(1)
proof (cases rule: mem.IssueToken_cases)
  case (granted req' k b rd)
  with assms(2,3) have "Scope t = []" by (auto simp: new_response_def new_token_def)
  then show ?thesis by (simp add: RequireScope_def)
qed auto

theorem empty_scope_passes_every_scope_check_witness:
  "\<exists>resp s1 t. IssueToken memory_ops demo_lib demo_ctx (Some (demo_request\<lparr>req_Scope := []\<rparr>)) demo_server
       = (Inr resp, s1)
     \<and> RequireScope ''admin'' (\<lambda>c sw. (gin_Status 204 c, sw)) (with_token t (demo_http [])) (s1, ())
       = (gin_Status 204 (with_token t (demo_http [])), s1, ())"
proof -
  let ?r = "demo_request\<lparr>req_Scope := []\<rparr>"
  have "client_may demo_lib ?r demo_client" by code_simp
  with demo_read have "\<exists>resp. fst (IssueToken memory_ops demo_lib demo_ctx (Some ?r) demo_server) = Inr resp"
    using mem.IssueToken_complete [of demo_server ?r demo_client demo_lib demo_bytes "[]" demo_ctx]
    by (simp add: demo_request_def)
  then obtain resp s1 where i: "IssueToken memory_ops demo_lib demo_ctx (Some ?r) demo_server = (Inr resp, s1)"
    by (metis prod.collapse)
  then obtain t where t: "tokens (store s1) (ComputeTokenHash (AccessToken resp)) = Some t"
    by (cases rule: mem.IssueToken_cases) (auto simp: new_response_def)
  have "req_Scope ?r = []" by simp
  from empty_scope_passes_every_scope_check [OF i this t] i show ?thesis by blast
qed

end
