(* ===== verification/Handler_Properties.thy ===== *)
theory Handler_Properties
  imports Handlers Middleware_Properties
begin

text \<open>
  The properties of the OAuth endpoints over a service with a \<open>MemoryStore\<close>.
\<close>

section \<open>The token endpoint\<close>

text \<open>What the endpoint binds from a request.\<close>

definition bound_token_request :: "Gin \<Rightarrow> Request \<Rightarrow> (go_error + TokenRequest) \<times> Request" where
  "bound_token_request gin r =
     (if Contains (gin_ContentType gin r) ''application/json'' then bind_token_json gin r
      else bind_token_form gin r)"

lemma TokenHandler_bound:
  assumes "bound_token_request gin (c_Request c) = (Inr req, r)"
  shows "TokenHandler gin ops lib c s =
     (case IssueToken ops lib (r_Context r) (Some (with_credentials r req)) s of
        (Inl e, s) \<Rightarrow> (token_error e (c\<lparr>c_Request := r\<rparr>), s)
      | (Inr resp, s) \<Rightarrow>
          (gin_JSON 200 (json_of_TokenResponse resp)
            (gin_Header ''Pragma'' [Lit ''no-cache'']
              (gin_Header ''Cache-Control'' [Lit ''no-store''] (c\<lparr>c_Request := r\<rparr>))), s))"
  using assms by (auto simp: TokenHandler_def bound_token_request_def Let_def)

lemma TokenHandler_unbound:
  assumes "bound_token_request gin (c_Request c) = (Inl e, r)"
  shows "\<exists>d. TokenHandler gin ops lib c s
     = (gin_JSON 400 (error_object ''invalid_request'' d) (c\<lparr>c_Request := r\<rparr>), s)"
  using assms by (auto simp: TokenHandler_def bound_token_request_def Let_def)

text \<open>The member \<open>error\<close> of a response.\<close>

fun error_code :: "resp_body \<Rightarrow> string option" where
  "error_code (BodyJSON (JObj ((k, JStr [Lit code]) # ms))) = (if k = ''error'' then Some code else None)"
| "error_code _ = None"

lemma error_code_object [simp]: "error_code (BodyJSON (error_object code d)) = Some code"
  by (simp add: error_object_def jstring_def)

lemma token_error_status: "w_Status (token_error e c) \<in> {400, 401}"
  by (simp add: token_error_def gin_defs)

lemma token_error_challenge:
  "w_Status (token_error e c) = 401 \<Longrightarrow>
   w_Header (token_error e c) ''WWW-Authenticate'' = Some [Lit ''Basic realm=\"oauth2\"'']
   \<and> error_code (w_Body (token_error e c)) = Some ''invalid_client''"
  by (auto simp: token_error_def gin_defs split: if_splits)

text \<open>C28: the token endpoint answers 200, 400 or 401. With 200 a token has been stored under the
  hash of the \<open>access_token\<close> in the body, for a registered client within its policy, and the
  response may not be cached; with 401 the answer carries a Basic challenge; with anything but
  200 the store is unchanged.\<close>

theorem TokenHandler_outcome:
  assumes "TokenHandler gin memory_ops lib c s = (c1, s1)"
  shows "w_Status c1 \<in> {200, 400, 401}
   \<and> (w_Status c1 = 401 \<longrightarrow>
        w_Header c1 ''WWW-Authenticate'' = Some [Lit ''Basic realm=\"oauth2\"'']
      \<and> error_code (w_Body c1) = Some ''invalid_client'')
   \<and> (w_Status c1 \<noteq> 200 \<longrightarrow> clients (store s1) = clients (store s)
      \<and> tokens (store s1) = tokens (store s))
   \<and> (w_Status c1 = 200 \<longrightarrow> w_Header c1 ''Cache-Control'' = Some [Lit ''no-store'']
      \<and> w_Header c1 ''Pragma'' = Some [Lit ''no-cache'']
      \<and> (\<exists>req k tok t members. client_may lib req k
          \<and> clients (store s) (req_ClientID req) = Some k
          \<and> w_Body c1 = BodyJSON (JObj ((''access_token'', jstring tok) # members))
          \<and> tokens (store s1) = (tokens (store s))(ComputeTokenHash tok \<mapsto> t)
          \<and> ClientID t = ID k \<and> Resource t = req_Resource req \<and> Scope t = req_Scope req))"
proof -
  obtain bound r where b: "bound_token_request gin (c_Request c) = (bound, r)" by fastforce
  show ?thesis
  proof (cases bound)
    case (Inl e)
    with b TokenHandler_unbound [of gin c e r memory_ops lib s] assms show ?thesis
      by (auto simp: gin_defs)
  next
    case (Inr req)
    obtain res s2 where i:
      "IssueToken memory_ops lib (r_Context r) (Some (with_credentials r req)) s = (res, s2)" by fastforce
    from i show ?thesis
    proof (cases rule: mem.IssueToken_cases)
      case (rejected e)
      with Inr b i assms TokenHandler_bound [of gin c req r memory_ops lib s]
        token_error_status [of e "c\<lparr>c_Request := r\<rparr>"]
        token_error_challenge [of e "c\<lparr>c_Request := r\<rparr>"]
      show ?thesis by auto
    next
      case (granted req' k bs rd)
      have "\<exists>members. json_of_TokenResponse (new_response (opaque_token bs) req' (tokenTTL s))
          = JObj ((''access_token'', jstring (opaque_token bs)) # members)"
        by (simp add: json_of_TokenResponse_def new_response_def)
      with granted Inr b i assms TokenHandler_bound [of gin c req r memory_ops lib s]
      show ?thesis
        by (auto simp: gin_defs intro!: exI [of _ req'] exI [of _ k] exI [of _ "opaque_token bs"]
            simp: new_token_def)
    qed
  qed
qed

text \<open>A binding for the witnesses: every body is the demo request, and the token parameter is
  taken from the query.\<close>

definition demo_gin :: Gin where
  "demo_gin = \<lparr>gin_ContentType = (\<lambda>_. []), bind_register = (\<lambda>r. (Inr demo_registration, r)),
     bind_token_json = (\<lambda>r. (Inr demo_request, r)), bind_token_form = (\<lambda>r. (Inr demo_request, r)),
     gin_ParseForm = (\<lambda>r. r), gin_PostForm = (\<lambda>_ r. ([], r)), gin_Query = (\<lambda>_ r. r_Query r),
     bind_token_body = (\<lambda>r. (Inl io_EOF, r))\<rparr>"

lemma demo_bound: "bound_token_request demo_gin r = (Inr demo_request, r)"
  by (simp add: bound_token_request_def demo_gin_def)

lemma demo_no_basic: "BasicAuth (c_Request (demo_http [])) = None"
  by (simp add: BasicAuth_def demo_http_def new_context_def header_get_def)

lemma demo_TokenHandler:
  "w_Status (fst (TokenHandler demo_gin memory_ops demo_lib (demo_http []) demo_server)) = 200"
proof -
  have "r_Context (c_Request (demo_http [])) = demo_ctx"
    by (simp add: demo_http_def new_context_def)
  then show ?thesis
    by (simp add: TokenHandler_bound [OF demo_bound] with_credentials_def demo_no_basic demo_issue_pair
        gin_defs)
qed

theorem TokenHandler_outcome_witness:
  "w_Header (fst (TokenHandler demo_gin memory_ops demo_lib (demo_http []) demo_server)) ''Cache-Control''
   = Some [Lit ''no-store'']"
  using TokenHandler_outcome [of demo_gin demo_lib "demo_http []" demo_server] demo_TokenHandler
  by (cases "TokenHandler demo_gin memory_ops demo_lib (demo_http []) demo_server") auto

text \<open>The checks in order, each with what the earlier ones let through.\<close>

lemma authorize_cases:
  obtains (grant) "req_GrantType req \<noteq> ''client_credentials''"
      "authorize_request memory_ops lib req st = (Inl (''invalid_grant'', oauth_err ErrInvalidGrant), st)"
  | (uri) e where "req_GrantType req = ''client_credentials''" "req_Resource req \<noteq> []"
      "ValidateAbsoluteURI (ip_literal lib) (req_Resource req) = Some e"
      "authorize_request memory_ops lib req st = (Inl (''invalid_resource'', e), st)"
  | (unknown) "req_GrantType req = ''client_credentials''"
      "req_Resource req \<noteq> [] \<longrightarrow> ValidateAbsoluteURI (ip_literal lib) (req_Resource req) = None"
      "clients st (req_ClientID req) = None"
      "authorize_request memory_ops lib req st = (Inl (''invalid_client'', oauth_err ErrInvalidClient), st)"
  | (secret) k where "req_GrantType req = ''client_credentials''"
      "req_Resource req \<noteq> [] \<longrightarrow> ValidateAbsoluteURI (ip_literal lib) (req_Resource req) = None"
      "clients st (req_ClientID req) = Some k"
      "bcrypt_CompareHashAndPassword lib (SecretHash k) (req_ClientSecret req) \<noteq> None"
      "authorize_request memory_ops lib req st = (Inl (''invalid_client'', oauth_err ErrInvalidClient), st)"
  | (resource) k where "req_GrantType req = ''client_credentials''"
      "req_Resource req \<noteq> [] \<longrightarrow> ValidateAbsoluteURI (ip_literal lib) (req_Resource req) = None"
      "clients st (req_ClientID req) = Some k"
      "bcrypt_CompareHashAndPassword lib (SecretHash k) (req_ClientSecret req) = None"
      "AllowedResources k \<noteq> []" "req_Resource req = [] \<or> req_Resource req \<notin> set (AllowedResources k)"
      "authorize_request memory_ops lib req st
       = (Inl (''unauthorized_resource'', oauth_err ErrInvalidTarget), st)"
  | (scope) k where "req_GrantType req = ''client_credentials''"
      "req_Resource req \<noteq> [] \<longrightarrow> ValidateAbsoluteURI (ip_literal lib) (req_Resource req) = None"
      "clients st (req_ClientID req) = Some k"
      "bcrypt_CompareHashAndPassword lib (SecretHash k) (req_ClientSecret req) = None"
      "AllowedResources k = [] \<or> req_Resource req \<noteq> [] \<and> req_Resource req \<in> set (AllowedResources k)"
      "AllowedScopes k \<noteq> []" "\<not> set (Fields (req_Scope req)) \<subseteq> set (AllowedScopes k)"
      "authorize_request memory_ops lib req st
       = (Inl (''unauthorized_scope'', oauth_err ErrScopeMismatch), st)"
  | (granted) k where "clients st (req_ClientID req) = Some k" "client_may lib req k"
proof (cases "req_GrantType req = ''client_credentials''")
  case False
  then show ?thesis by (intro grant) (simp_all add: authorize_request_def)
next
  case g: True
  show ?thesis
  proof (cases "if req_Resource req = [] then None
      else ValidateAbsoluteURI (ip_literal lib) (req_Resource req)")
    case (Some e)
    with g show ?thesis by (intro uri [of e]) (simp_all add: authorize_request_def split: if_splits)
  next
    case None
    then have v: "(if req_Resource req \<noteq> []
        then ValidateAbsoluteURI (ip_literal lib) (req_Resource req) else None) = None"
      "req_Resource req \<noteq> [] \<longrightarrow> ValidateAbsoluteURI (ip_literal lib) (req_Resource req) = None"
      by (simp_all split: if_splits)
    show ?thesis
    proof (cases "clients st (req_ClientID req)")
      case None
      with g v show ?thesis by (intro unknown) (simp_all add: authorize_request_def GetClient_def)
    next
      case k: (Some k)
      let ?cmp = "bcrypt_CompareHashAndPassword lib (SecretHash k) (req_ClientSecret req)"
      let ?res = "AllowedResources k = [] \<or> req_Resource req \<noteq> [] \<and> req_Resource req \<in> set (AllowedResources k)"
      let ?sc = "AllowedScopes k = [] \<or> set (Fields (req_Scope req)) \<subseteq> set (AllowedScopes k)"
      note step = authorize_request_def [of memory_ops lib req st] list_all_contains GetClient_def
      consider (s) "?cmp \<noteq> None" | (r) "?cmp = None" "\<not> ?res" | (sc) "?cmp = None" ?res "\<not> ?sc"
        | (ok) "?cmp = None" ?res ?sc by blast
      then show ?thesis
      proof cases
        case s
        with g v k show ?thesis by (intro secret [of k]) (simp_all add: step del: not_None_eq)
      next
        case r
        with g v k show ?thesis by (intro resource [of k]) (auto simp: step)
      next
        case sc
        moreover from sc have "req_Scope req \<noteq> []" by auto
        ultimately show ?thesis using g v k by (intro scope [of k]) (auto simp: step)
      next
        case ok
        with g v k show ?thesis by (intro granted [of k]) (auto simp: client_may_def)
      qed
    qed
  qed
qed

text \<open>C29: the answer to a request that was bound, by the first check that fails: grant type,
  syntax of the resource, client and secret, resource policy, scope policy; with random bytes at
  hand a request that passes them all gets 200.\<close>

theorem TokenHandler_answers:
  assumes "bound_token_request gin (c_Request c) = (Inr req0, r)"
    and "req = with_credentials r req0"
    and "ReadFull [] tokenEntropyLen (randReader s) = (Inr b, rd)"
  shows "(let c1 = fst (TokenHandler gin memory_ops lib c s) in (w_Status c1, error_code (w_Body c1))) =
     (if req_GrantType req \<noteq> ''client_credentials'' then (400, Some ''invalid_grant'')
      else if req_Resource req \<noteq> [] \<and> ValidateAbsoluteURI (ip_literal lib) (req_Resource req) \<noteq> None
        then (400, Some ''invalid_target'')
      else case clients (store s) (req_ClientID req) of
        None \<Rightarrow> (401, Some ''invalid_client'')
      | Some k \<Rightarrow>
          if bcrypt_CompareHashAndPassword lib (SecretHash k) (req_ClientSecret req) \<noteq> None
            then (401, Some ''invalid_client'')
          else if AllowedResources k \<noteq> [] \<and> req_Resource req \<notin> set (AllowedResources k)
              \<or> AllowedResources k \<noteq> [] \<and> req_Resource req = []
            then (400, Some ''invalid_target'')
          else if AllowedScopes k \<noteq> [] \<and> \<not> set (Fields (req_Scope req)) \<subseteq> set (AllowedScopes k)
            then (400, Some ''invalid_scope'')
          else (200, None))"
proof -
  note h = TokenHandler_bound [OF assms(1), of memory_ops lib s, folded assms(2)]
  have ok: "w_Status (fst (TokenHandler gin memory_ops lib c s)) = 200
      \<and> error_code (w_Body (fst (TokenHandler gin memory_ops lib c s))) = None"
    if "clients (store s) (req_ClientID req) = Some k" "client_may lib req k" for k
  proof -
    obtain res s1 where i: "IssueToken memory_ops lib (r_Context r) (Some req) s = (res, s1)" by fastforce
    with mem.IssueToken_complete [OF that assms(3), of "r_Context r"]
    have "res = Inr (new_response (opaque_token b) req (tokenTTL s))" by simp
    with i show ?thesis by (simp add: h gin_defs json_of_TokenResponse_def jstring_def)
  qed
  have err: "w_Status (fst (TokenHandler gin memory_ops lib c s)) = w_Status (token_error e c)
      \<and> w_Body (fst (TokenHandler gin memory_ops lib c s)) = w_Body (token_error e c)"
    if "authorize_request memory_ops lib req (store s) = (Inl (st, e), store s)" for st e
    using that by (auto simp: h IssueToken_def service_now_eq token_error_def gin_defs)
  show ?thesis
  proof (cases rule: authorize_cases [where lib = lib and req = req and st = "store s"])
    case grant
    then show ?thesis using err by (simp add: token_error_def gin_defs)
  next
    case (uri e)
    then show ?thesis using err ValidateAbsoluteURI_error [OF uri(3)]
      by (auto simp: token_error_def gin_defs dest: errors_Is_unique)
  next
    case unknown
    then show ?thesis using err by (auto simp: token_error_def gin_defs)
  next
    case (secret k)
    then show ?thesis using err by (auto simp: token_error_def gin_defs)
  next
    case (resource k)
    then show ?thesis using err by (auto simp: token_error_def gin_defs)
  next
    case (scope k)
    then show ?thesis using err by (auto simp: token_error_def gin_defs)
  next
    case (granted k)
    then show ?thesis using ok by (auto simp: client_may_def)
  qed
qed

theorem TokenHandler_answers_witness:
  "w_Status (fst (TokenHandler demo_gin memory_ops demo_lib (demo_http [])
     (demo_server\<lparr>store := NewMemoryStore (fixed_clock 0)\<rparr>))) = 401"
proof -
  have "ReadFull [] tokenEntropyLen (randReader (demo_server\<lparr>store := NewMemoryStore (fixed_clock 0)\<rparr>))
      = (Inr demo_bytes, [])" by (simp add: demo_read)
  from TokenHandler_answers [OF demo_bound refl this, where c = "demo_http []" and lib = demo_lib] show ?thesis
    by (simp add: Let_def with_credentials_def demo_no_basic demo_request_def NewMemoryStore_def)
qed

text \<open>Basic credentials in the header are the ones the endpoint checks, whatever client ID and
  secret the body names.\<close>

theorem TokenHandler_basic_credentials:
  assumes "CHR '':'' \<notin> set user"
    and "bound_token_request gin (c_Request c) = (Inr req, SetBasicAuth user password r)"
  shows "TokenHandler gin ops lib c s =
     (case IssueToken ops lib (r_Context r)
         (Some (req\<lparr>req_ClientID := user, req_ClientSecret := password\<rparr>)) s of
        (Inl e, s) \<Rightarrow> (token_error e (c\<lparr>c_Request := SetBasicAuth user password r\<rparr>), s)
      | (Inr resp, s) \<Rightarrow>
          (gin_JSON 200 (json_of_TokenResponse resp)
            (gin_Header ''Pragma'' [Lit ''no-cache'']
              (gin_Header ''Cache-Control'' [Lit ''no-store'']
                (c\<lparr>c_Request := SetBasicAuth user password r\<rparr>))), s))"
  using BasicAuth_SetBasicAuth [OF assms(1), of password r]
  by (simp add: TokenHandler_bound [OF assms(2)] with_credentials_def,
      simp add: SetBasicAuth_def header_set_def)

theorem TokenHandler_basic_credentials_witness:
  "w_Status (fst (TokenHandler demo_gin memory_ops demo_lib
     ((demo_http [])\<lparr>c_Request := SetBasicAuth ''c1'' ''bad'' (c_Request (demo_http []))\<rparr>) demo_server)) = 401"
proof -
  let ?c = "(demo_http [])\<lparr>c_Request := SetBasicAuth ''c1'' ''bad'' (c_Request (demo_http []))\<rparr>"
  have colon: "CHR '':'' \<notin> set ''c1''" by code_simp
  have b: "bound_token_request demo_gin (c_Request ?c)
      = (Inr demo_request, SetBasicAuth ''c1'' ''bad'' (c_Request (demo_http [])))"
    by (simp add: demo_bound)
  show ?thesis
    unfolding TokenHandler_basic_credentials [OF colon b]
    by (simp add: IssueToken_def service_now_eq authorize_request_def GetClient_def
        demo_request_def demo_client_def demo_lib_def token_error_def gin_defs)
qed

section \<open>Introspection and revocation\<close>

text \<open>With a token parameter the introspection endpoint always answers 200, without asking who
  calls it: the full record for a token that validates, and the one member \<open>active: false\<close>
  for any other; no view of the store changes.\<close>

theorem IntrospectHandler_answers:
  assumes "extractTokenParam gin c = (tok, c1)" "tok \<noteq> []"
  shows "let (c2, s2) = IntrospectHandler gin memory_ops c s in
     w_Status c2 = 200 \<and> tokens (store s2) = tokens (store s) \<and> clients (store s2) = clients (store s)
   \<and> (case fst (ValidateToken memory_ops tok s) of
        Inl e \<Rightarrow> w_Body c2 = BodyJSON (JObj [(''active'', JBool False)])
      | Inr t \<Rightarrow> w_Body c2 = BodyJSON (json_of_IntrospectResponse
          \<lparr>Active = True, intro_ClientID = ClientID t, intro_Resource = Resource t,
           intro_Scope = Scope t, Exp = time_Unix (ExpiresAt t), intro_TokenType = ''Bearer''\<rparr>))"
  using assms mem.IntrospectToken_result [of tok s] mem.IntrospectToken_frame [of tok s]
  by (cases "IntrospectToken memory_ops tok s")
    (auto simp: IntrospectHandler_def gin_defs json_of_IntrospectResponse_def inactive_response_def
      omit_empty_def split: sum.splits)

lemma demo_extract:
  "extractTokenParam demo_gin ((demo_http [])\<lparr>c_Request := (c_Request (demo_http []))\<lparr>r_Query := tok\<rparr>\<rparr>)
   = (tok, (demo_http [])\<lparr>c_Request := (c_Request (demo_http []))\<lparr>r_Query := tok\<rparr>\<rparr>)"
  by (simp add: extractTokenParam_def demo_gin_def Let_def)

theorem IntrospectHandler_answers_witness:
  "w_Body (fst (IntrospectHandler demo_gin memory_ops
     ((demo_http [])\<lparr>c_Request := (c_Request (demo_http []))\<lparr>r_Query := ''nope''\<rparr>\<rparr>) demo_server))
   = BodyJSON (JObj [(''active'', JBool False)])"
proof -
  have "fst (ValidateToken memory_ops ''nope'' demo_server) = Inl (oauth_err ErrTokenNotFound)"
    by (simp add: mem.ValidateToken_result NewMemoryStore_def)
  with IntrospectHandler_answers [OF demo_extract, of "''nope''" demo_server] show ?thesis
    by (auto simp: Let_def split: prod.splits)
qed

text \<open>With a token parameter the revocation endpoint always answers 200 with an empty body, for
  known and unknown tokens alike, and from then on the token does not validate.\<close>

theorem RevokeHandler_answers:
  assumes "extractTokenParam gin c = (tok, c1)" "tok \<noteq> []" "w_Body c1 = NoBody"
    and "RevokeHandler gin memory_ops c s = (c2, s2)"
  shows "w_Status c2 = 200 \<and> w_Body c2 = NoBody \<and> (\<exists>e. fst (ValidateToken memory_ops tok s2) = Inl e)"
proof -
  obtain r s3 where v: "RevokeToken memory_ops tok s = (r, s3)" by fastforce
  with mem.RevokeToken_result [of tok s] have "r = None" by simp
  with v assms have "c2 = gin_Status 200 c1" "s2 = s3" by (simp_all add: RevokeHandler_def)
  with v assms(3) mem.dead_rejected [OF mem.revoked_dead [OF assms(2), of s]] show ?thesis
    by (simp add: gin_defs)
qed

theorem RevokeHandler_answers_witness:
  "\<exists>c2 s2. RevokeHandler demo_gin memory_ops
     ((demo_http [])\<lparr>c_Request := (c_Request (demo_http []))\<lparr>r_Query := demo_token\<rparr>\<rparr>) demo_issued = (c2, s2)
   \<and> w_Status c2 = 200 \<and> (\<exists>e. fst (ValidateToken memory_ops demo_token s2) = Inl e)"
proof -
  let ?c = "(demo_http [])\<lparr>c_Request := (c_Request (demo_http []))\<lparr>r_Query := demo_token\<rparr>\<rparr>"
  obtain c2 s2 where r: "RevokeHandler demo_gin memory_ops ?c demo_issued = (c2, s2)" by fastforce
  have "demo_token \<noteq> []" "w_Body ?c = NoBody"
    by (simp_all add: demo_token_def opaque_token_def demo_http_def new_context_def)
  from RevokeHandler_answers [OF demo_extract this r] r show ?thesis by blast
qed

section \<open>Registration\<close>

text \<open>The registration endpoint answers 201 or 400. With 201 one new client is stored under the
  unused \<open>client_id\<close> of the body, with bcrypt's hash of the \<open>client_secret\<close> of the body; with 400
  the store is unchanged.\<close>

theorem RegisterClientHandler_outcome:
  assumes "RegisterClientHandler gin memory_ops lib c s = (c1, s1)"
  shows "tokens (store s1) = tokens (store s)
   \<and> (w_Status c1 = 400 \<and> clients (store s1) = clients (store s)
        \<and> error_code (w_Body c1) = Some ''invalid_request''
      \<or> w_Status c1 = 201
        \<and> (\<exists>cid secret k members.
             w_Body c1 = BodyJSON (JObj ((''client_id'', jstring cid)
               # (''client_secret'', jstring secret) # members))
           \<and> clients (store s) cid = None \<and> clients (store s1) = (clients (store s))(cid \<mapsto> k)
           \<and> bcrypt_GenerateFromPassword lib (bcryptCalls s) secret (bcryptCost s)
             = Inr (SecretHash k) \<and> client_valid lib k))"
proof -
  obtain bound r where b: "bind_register gin (c_Request c) = (bound, r)" by fastforce
  show ?thesis
  proof (cases bound)
    case (Inl e)
    with b assms show ?thesis by (auto simp: RegisterClientHandler_def gin_defs)
  next
    case (Inr req)
    obtain res s2 where i: "RegisterClient memory_ops lib (Some req) s = (res, s2)" by fastforce
    from i show ?thesis
    proof (cases rule: mem.RegisterClient_cases)
      case (rejected e)
      with Inr b i assms show ?thesis by (auto simp: RegisterClientHandler_def gin_defs)
    next
      case (registered req' b1 b2 rd rd' h)
      let ?k = "registered_client req' (hex_encode b1) h (next_reading (nowFunc s))"
      from registered Inr b i assms have run: "s1 = s2" "w_Status c1 = 201"
        "w_Body c1 = BodyJSON (json_of_RegisterClientResponse (register_response req'
           (hex_encode b1) (RawURLEncoding b2) (next_reading (nowFunc s))))"
        by (auto simp: RegisterClientHandler_def gin_defs)
      have "SecretHash ?k = h" by (simp add: registered_client_def)
      with registered run client_valid_registered [OF registered(2,3)] show ?thesis
        by (intro conjI disjI2 exI [of _ "hex_encode b1"] exI [of _ "RawURLEncoding b2"] exI [of _ ?k])
          (simp_all add: json_of_RegisterClientResponse_def register_response_def)
    qed
  qed
qed

theorem RegisterClientHandler_outcome_witness:
  "\<exists>k. clients (store (snd (RegisterClientHandler demo_gin memory_ops demo_lib (demo_http [])
     (demo_new demo_entropy)))) (hex_encode (replicate 16 (CHR 0x02))) = Some k \<and> client_valid demo_lib k"
proof -
  obtain c1 s1 where r: "RegisterClientHandler demo_gin memory_ops demo_lib (demo_http [])
      (demo_new demo_entropy) = (c1, s1)" by fastforce
  then have "w_Status c1 = 201" "\<exists>members. w_Body c1 = BodyJSON (JObj ((''client_id'',
      jstring (hex_encode (replicate 16 (CHR 0x02)))) # members))"
    using demo_registered by (auto simp: RegisterClientHandler_def demo_gin_def gin_defs
        json_of_RegisterClientResponse_def register_response_def)
  with RegisterClientHandler_outcome [OF r] r show ?thesis by (auto simp: jstring_def)
qed

end
