(* ===== verification/Lifecycle.thy ===== *)
theory Lifecycle
  imports Sample_Properties
begin

text \<open>
  The process around the sample server: \<open>main\<close> in \<open>sample-server/main.go\<close> after the routes are
  set up. Two goroutines run: one in \<open>ListenAndServe\<close>, and \<open>main\<close>, which waits for a signal and
  then shuts the server down for at most five seconds. The process is a state machine whose steps
  are theirs, those of the connections that \<open>net/http\<close> serves, the signals, and the passing of time.
  Of \<open>net/http\<close> it uses what its documentation says: \<open>ListenAndServe\<close> returns an error, and
  \<open>ErrServerClosed\<close> once \<open>Shutdown\<close> was called; \<open>Shutdown\<close> closes the listeners, then idle
  connections, waits for the active ones, and returns the error of its context when that ends first.
\<close>

section \<open>Configuration\<close>

record HttpServer =
  srv_Addr :: string
  srv_ReadHeaderTimeout :: duration
  srv_ReadTimeout :: duration
  srv_WriteTimeout :: duration
  srv_IdleTimeout :: duration

definition sample_http_server :: "(string \<Rightarrow> string) \<Rightarrow> HttpServer" where
  "sample_http_server getenv =
     \<lparr>srv_Addr = '':'' @ listen_port getenv, srv_ReadHeaderTimeout = 5 * Second,
      srv_ReadTimeout = 10 * Second, srv_WriteTimeout = 10 * Second, srv_IdleTimeout = 30 * Second\<rparr>"

definition shutdown_timeout :: duration where
  "shutdown_timeout = 5 * Second"

section \<open>The process\<close>

datatype os_signal = SIGINT | SIGTERM

datatype exit_status = ExitCode int | KilledBy os_signal

text \<open>Lines of the logger, by level, message and attributes.\<close>

datatype log_line =
    InfoLine string "(string \<times> rendered) list"
  | ErrorLine string "(string \<times> rendered) list"

datatype main_pc = MainSpawn | MainNotify | MainWait | MainShutdown time | MainDone

datatype listen_pc = Unspawned | Announcing | Binding | Accepting | Closed

datatype connection = Idle | Busy nat Request

text \<open>Beside the state of the process, \<open>begun\<close> and \<open>replies\<close> record the requests it has read and its
  answers, each with the number of its request, and \<open>signalled\<close> whether a signal came.\<close>

record Process =
  p_main :: main_pc
  p_listen :: listen_pc
  notified :: bool
  quit_chan :: "os_signal list"  \<comment> \<open>the channel \<open>quit\<close>, of capacity 1\<close>
  in_shutdown :: bool
  conns :: "nat \<Rightarrow> connection option"
  world :: Sample
  p_now :: time
  p_log :: "log_line list"
  p_exit :: "exit_status option"
  begun :: "Request list"
  replies :: "(nat \<times> GinContext) list"
  signalled :: bool

definition process_init :: "Sample \<Rightarrow> time \<Rightarrow> Process" where
  "process_init w t = \<lparr>p_main = MainSpawn, p_listen = Unspawned, notified = False, quit_chan = [],
     in_shutdown = False, conns = Map.empty, world = w, p_now = t, p_log = [], p_exit = None,
     begun = [], replies = [], signalled = False\<rparr>"

definition say :: "log_line \<Rightarrow> Process \<Rightarrow> Process" where
  "say l p = p\<lparr>p_log := p_log p @ [l]\<rparr>"

text \<open>The lines \<open>main\<close> writes.\<close>

definition line_starting :: "(string \<Rightarrow> string) \<Rightarrow> log_line" where
  "line_starting getenv = InfoLine ''Starting sample server''
     [(''port'', [Lit (listen_port getenv)]), (''resource_base_url'', [Lit (resource_base_url getenv)])]"

definition line_failed :: "go_error \<Rightarrow> log_line" where
  "line_failed e = ErrorLine ''Server failed to start'' [(''error'', error_text e)]"

definition line_shutting_down :: log_line where
  "line_shutting_down = InfoLine ''Shutting down sample server...'' []"

definition line_forced :: "go_error \<Rightarrow> log_line" where
  "line_forced e = ErrorLine ''Server forced to shutdown'' [(''error'', error_text e)]"

definition line_clean :: log_line where
  "line_clean = InfoLine ''Sample server exited cleanly'' []"

lemmas line_defs = line_starting_def line_failed_def line_shutting_down_def line_forced_def line_clean_def

text \<open>\<open>main\<close> after \<open><-quit\<close>: the line, the deadline, and the call of \<open>Shutdown\<close>.\<close>

definition begin_shutdown :: "Process \<Rightarrow> Process" where
  "begin_shutdown p = (say line_shutting_down p)
     \<lparr>quit_chan := tl (quit_chan p), in_shutdown := True,
      p_main := MainShutdown (time_Add (p_now p) shutdown_timeout)\<rparr>"

text \<open>What \<open>main\<close> does with the result of \<open>Shutdown\<close>; the process ends when it returns.\<close>

definition end_shutdown :: "go_error option \<Rightarrow> Process \<Rightarrow> Process" where
  "end_shutdown err p =
     (say line_clean (case err of None \<Rightarrow> p | Some e \<Rightarrow> say (line_forced e) p))
       \<lparr>p_main := MainDone, p_exit := Some (ExitCode 0)\<rparr>"

text \<open>An error of \<open>ListenAndServe\<close> in the other goroutine.\<close>

definition listen_failed :: "go_error \<Rightarrow> Process \<Rightarrow> Process" where
  "listen_failed e p = (say (line_failed e) p)\<lparr>p_exit := Some (ExitCode 1)\<rparr>"

text \<open>A signal: before \<open>signal.Notify\<close> it ends the process; after it, it is sent to \<open>quit\<close> unless
  that is full.\<close>

definition deliver_signal :: "os_signal \<Rightarrow> Process \<Rightarrow> Process" where
  "deliver_signal s p =
     (if \<not> notified p then p\<lparr>signalled := True, p_exit := Some (KilledBy s)\<rparr>
      else if quit_chan p = [] then p\<lparr>signalled := True, quit_chan := [s]\<rparr>
      else p\<lparr>signalled := True\<rparr>)"

text \<open>The answer to a request; a server that is shutting down closes the connection after it.\<close>

definition answer_request ::
  "SampleLib \<Rightarrow> string \<Rightarrow> nat \<Rightarrow> nat \<Rightarrow> Request \<Rightarrow> Process \<Rightarrow> Process" where
  "answer_request sl base i n r p =
     (case sample_serve sl base r (world p) of
        (c, w) \<Rightarrow> p\<lparr>world := w, replies := replies p @ [(n, c)],
                   conns := (conns p)(i := if in_shutdown p then None else Some Idle)\<rparr>)"

definition busy_only :: "(nat \<Rightarrow> connection option) \<Rightarrow> nat \<Rightarrow> connection option" where
  "busy_only cs i = (case cs i of Some (Busy n r) \<Rightarrow> Some (Busy n r) | _ \<Rightarrow> None)"

text \<open>\<open>context.DeadlineExceeded\<close>, the error of a context whose time is over.\<close>

definition DeadlineExceeded :: go_error where
  "DeadlineExceeded = NewError [Lit ''context deadline exceeded'']"

inductive process_step :: "SampleLib \<Rightarrow> (string \<Rightarrow> string) \<Rightarrow> Process \<Rightarrow> Process \<Rightarrow> bool"
  for sl getenv p where
  go: "p_exit p = None \<Longrightarrow> p_main p = MainSpawn \<Longrightarrow>
    process_step sl getenv p (p\<lparr>p_listen := Announcing, p_main := MainNotify\<rparr>)"
| notify: "p_exit p = None \<Longrightarrow> p_main p = MainNotify \<Longrightarrow>
    process_step sl getenv p (p\<lparr>notified := True, p_main := MainWait\<rparr>)"
| wake: "p_exit p = None \<Longrightarrow> p_main p = MainWait \<Longrightarrow> quit_chan p \<noteq> [] \<Longrightarrow>
    process_step sl getenv p (begin_shutdown p)"
| close_idle: "p_exit p = None \<Longrightarrow> p_main p = MainShutdown d \<Longrightarrow>
    process_step sl getenv p (p\<lparr>conns := busy_only (conns p)\<rparr>)"
| quiescent: "p_exit p = None \<Longrightarrow> p_main p = MainShutdown d \<Longrightarrow> conns p = Map.empty \<Longrightarrow>
    process_step sl getenv p (end_shutdown close_err p)"
| deadline: "p_exit p = None \<Longrightarrow> p_main p = MainShutdown d \<Longrightarrow> d \<le> p_now p \<Longrightarrow>
    process_step sl getenv p (end_shutdown (Some DeadlineExceeded) p)"
| announce: "p_exit p = None \<Longrightarrow> p_listen p = Announcing \<Longrightarrow>
    process_step sl getenv p ((say (line_starting getenv) p)\<lparr>p_listen := Binding\<rparr>)"
| bound: "p_exit p = None \<Longrightarrow> p_listen p = Binding \<Longrightarrow> \<not> in_shutdown p \<Longrightarrow>
    process_step sl getenv p (p\<lparr>p_listen := Accepting\<rparr>)"
| listen_error: "p_exit p = None \<Longrightarrow> p_listen p = Binding \<or> p_listen p = Accepting \<Longrightarrow> \<not> in_shutdown p \<Longrightarrow>
    process_step sl getenv p (listen_failed e p)"
| server_closed: "p_exit p = None \<Longrightarrow> p_listen p = Binding \<or> p_listen p = Accepting \<Longrightarrow> in_shutdown p \<Longrightarrow>
    process_step sl getenv p (p\<lparr>p_listen := Closed\<rparr>)"
| connect: "p_exit p = None \<Longrightarrow> p_listen p = Accepting \<Longrightarrow> \<not> in_shutdown p \<Longrightarrow> conns p i = None \<Longrightarrow>
    process_step sl getenv p (p\<lparr>conns := (conns p)(i \<mapsto> Idle)\<rparr>)"
| hang_up: "p_exit p = None \<Longrightarrow> conns p i = Some Idle \<Longrightarrow>
    process_step sl getenv p (p\<lparr>conns := (conns p)(i := None)\<rparr>)"
| request: "p_exit p = None \<Longrightarrow> conns p i = Some Idle \<Longrightarrow>
    process_step sl getenv p (p\<lparr>conns := (conns p)(i \<mapsto> Busy (length (begun p)) r), begun := begun p @ [r]\<rparr>)"
| answer: "p_exit p = None \<Longrightarrow> conns p i = Some (Busy n r) \<Longrightarrow>
    process_step sl getenv p (answer_request sl (resource_base_url getenv) i n r p)"
| signal: "p_exit p = None \<Longrightarrow> process_step sl getenv p (deliver_signal s p)"
| pass: "p_exit p = None \<Longrightarrow> p_now p \<le> t \<Longrightarrow> process_step sl getenv p (p\<lparr>p_now := t\<rparr>)"

inductive process_run :: "SampleLib \<Rightarrow> (string \<Rightarrow> string) \<Rightarrow> Process \<Rightarrow> Process \<Rightarrow> bool"
  for sl getenv p0 where
  process_none: "process_run sl getenv p0 p0"
| process_more: "process_run sl getenv p0 p \<Longrightarrow> process_step sl getenv p q \<Longrightarrow> process_run sl getenv p0 q"

lemmas process_defs = say_def begin_shutdown_def end_shutdown_def listen_failed_def deliver_signal_def

section \<open>Invariants\<close>

text \<open>Every request that was read has been answered or is on a connection.\<close>

definition accounted :: "Process \<Rightarrow> bool" where
  "accounted p \<longleftrightarrow> finite (dom (conns p))
     \<and> (\<forall>n < length (begun p). n \<in> fst ` set (replies p) \<or> (\<exists>i r. conns p i = Some (Busy n r)))"

lemma busy_only_simps [simp]:
  "busy_only cs i = Some (Busy n r) \<longleftrightarrow> cs i = Some (Busy n r)"
  by (auto simp: busy_only_def split: option.splits connection.splits)

lemma accounted_upd:
  assumes "accounted p" "begun q = begun p" "replies q = replies p" "conns q = (conns p)(i := x)"
    and "\<And>n r. conns p i \<noteq> Some (Busy n r)"
  shows "accounted q"
  unfolding accounted_def assms(2,3)
proof (intro conjI allI impI)
  show "finite (dom (conns q))"
    using assms(1,4) by (cases x) (auto simp: accounted_def)
  fix n assume "n < length (begun p)"
  with assms(1) consider "n \<in> fst ` set (replies p)" | j r where "conns p j = Some (Busy n r)"
    unfolding accounted_def by blast
  then show "n \<in> fst ` set (replies p) \<or> (\<exists>i r. conns q i = Some (Busy n r))"
  proof cases
    case (2 j r)
    with assms(5) [of n r] have "conns q j = Some (Busy n r)" unfolding assms(4) by auto
    then show ?thesis by blast
  qed simp
qed

lemma accounted_request:
  assumes "accounted p" "conns p i = Some Idle"
  shows "accounted (p\<lparr>conns := (conns p)(i \<mapsto> Busy (length (begun p)) r), begun := begun p @ [r]\<rparr>)"
proof -
  have "accounted (p\<lparr>conns := (conns p)(i \<mapsto> Busy (length (begun p)) r)\<rparr>)"
    by (rule accounted_upd [OF assms(1), of _ i]) (use assms(2) in simp_all)
  then show ?thesis by (auto simp: accounted_def less_Suc_eq)
qed

lemma accounted_answer:
  assumes "accounted p" "conns p i = Some (Busy n r)"
  shows "accounted (answer_request sl base i n r p)"
proof -
  obtain c w where s: "sample_serve sl base r (world p) = (c, w)" by fastforce
  have "m = n \<or> m \<in> fst ` set (replies p) \<or> (\<exists>j r. j \<noteq> i \<and> conns p j = Some (Busy m r))"
    if "m < length (begun p)" for m
    using assms that by (force simp: accounted_def)
  with assms(1) show ?thesis
    by (force simp: accounted_def answer_request_def s)
qed

lemma process_step_accounted: "process_step sl getenv p q \<Longrightarrow> accounted p \<Longrightarrow> accounted q"
proof (induction rule: process_step.cases)
  case (close_idle d)
  moreover have "dom (busy_only (conns p)) \<subseteq> dom (conns p)"
    by (auto simp: busy_only_def split: option.splits)
  ultimately show ?case
    by (auto simp: accounted_def intro: finite_subset)
next
  case (connect i)
  then show ?case by (intro accounted_upd [of p q i]) auto
next
  case (hang_up i)
  then show ?case by (intro accounted_upd [of p q i]) auto
next
  case (request i r)
  then show ?case by (auto intro: accounted_request)
next
  case (answer i n r)
  then show ?case by (auto intro: accounted_answer)
qed (auto simp: accounted_def process_defs split: option.split)

text \<open>How the two goroutines, the log and the exit status hang together.\<close>

definition lifecycle_ok :: "(string \<Rightarrow> string) \<Rightarrow> Process \<Rightarrow> bool" where
  "lifecycle_ok getenv p \<longleftrightarrow>
     (notified p \<longleftrightarrow> p_main p \<notin> {MainSpawn, MainNotify})
   \<and> (in_shutdown p \<longleftrightarrow> (\<exists>d. p_main p = MainShutdown d) \<or> p_main p = MainDone)
   \<and> (quit_chan p \<noteq> [] \<or> in_shutdown p \<longrightarrow> signalled p)
   \<and> (in_shutdown p \<longleftrightarrow> line_shutting_down \<in> set (p_log p))
   \<and> (p_main p = MainDone \<longleftrightarrow> p_exit p = Some (ExitCode 0))
   \<and> (p_exit p = Some (ExitCode 0) \<longrightarrow> last (p_log p) = line_clean)
   \<and> (\<forall>n. p_exit p = Some (ExitCode n) \<longrightarrow> n = 0 \<or> n = 1)
   \<and> (p_exit p = Some (ExitCode 1) \<longrightarrow> \<not> in_shutdown p \<and> (\<exists>e. last (p_log p) = line_failed e))
   \<and> (\<forall>s. p_exit p = Some (KilledBy s) \<longrightarrow> \<not> notified p)
   \<and> (p_main p = MainDone \<longrightarrow> conns p = Map.empty \<or> (\<exists>e. line_forced e \<in> set (p_log p)))"

lemma line_distinct [simp]:
  "line_shutting_down \<noteq> line_clean" "line_clean \<noteq> line_shutting_down"
  "line_shutting_down \<noteq> line_forced e" "line_shutting_down \<noteq> line_failed e" 
  "line_shutting_down \<noteq> line_starting g" "line_forced e \<noteq> line_clean"
  by (simp_all add: line_defs)

lemma process_step_lifecycle: "process_step sl getenv p q \<Longrightarrow> lifecycle_ok getenv p \<Longrightarrow> lifecycle_ok getenv q"
  by (induction rule: process_step.cases)
    (auto simp: lifecycle_ok_def process_defs answer_request_def split: option.split prod.split)

text \<open>Requests on connections are unanswered, and no two connections carry the same.\<close>

definition numbered :: "Process \<Rightarrow> bool" where
  "numbered p \<longleftrightarrow>
     (\<forall>i n r. conns p i = Some (Busy n r) \<longrightarrow> n < length (begun p) \<and> begun p ! n = r \<and> n \<notin> fst ` set (replies p)
        \<and> (\<forall>j s. conns p j = Some (Busy n s) \<longrightarrow> j = i))
   \<and> distinct (map fst (replies p)) \<and> fst ` set (replies p) \<subseteq> {..<length (begun p)}"

lemma numbered_request:
  assumes "numbered p" "conns p i = Some Idle"
  shows "numbered (p\<lparr>conns := (conns p)(i \<mapsto> Busy (length (begun p)) r), begun := begun p @ [r]\<rparr>)"
proof -
  have old: "n < length (begun p)" "begun p ! n = s" "n \<notin> fst ` set (replies p)"
      "conns p k = Some (Busy n u) \<Longrightarrow> k = j"
    if "conns p j = Some (Busy n s)" for j n s k u
    using assms(1) that unfolding numbered_def by blast+
  have "length (begun p) \<notin> fst ` set (replies p)" "distinct (map fst (replies p))"
    "fst ` set (replies p) \<subseteq> {..<Suc (length (begun p))}" using assms(1) by (auto simp: numbered_def)
  moreover have "conns p j \<noteq> Some (Busy (length (begun p)) s)" for j s using old(1) by blast
  ultimately show ?thesis
    unfolding numbered_def using old by (auto simp: nth_append less_Suc_eq)
qed

lemma numbered_answer:
  assumes "numbered p" "conns p i = Some (Busy n r)"
  shows "numbered (answer_request sl base i n r p)"
proof -
  obtain c w where s: "sample_serve sl base r (world p) = (c, w)" by fastforce
  from assms have n: "n < length (begun p)" "n \<notin> fst ` set (replies p)" "\<And>j s. conns p j = Some (Busy n s) \<Longrightarrow> j = i"
    by (auto simp: numbered_def)
  with assms(1) show ?thesis
    unfolding numbered_def answer_request_def s by (auto split: if_splits; blast)
qed

lemma process_step_numbered: "process_step sl getenv p q \<Longrightarrow> numbered p \<Longrightarrow> numbered q"
proof (induction rule: process_step.cases)
  case (request i r)
  then show ?case by (auto intro: numbered_request)
next
  case (answer i n r)
  then show ?case by (auto intro: numbered_answer)
qed (auto simp: numbered_def process_defs split: option.split if_splits)

lemma process_run_invariants:
  assumes "process_run sl getenv (process_init w t) p"
  shows "accounted p \<and> lifecycle_ok getenv p \<and> numbered p"
  using assms
proof (induction rule: process_run.induct)
  case process_none
  show ?case by (simp add: process_init_def accounted_def lifecycle_ok_def numbered_def)
next
  case (process_more p q)
  then show ?case
    using process_step_accounted process_step_lifecycle process_step_numbered by blast
qed

text \<open>The stores are those the sample server reaches by the requests answered so far.\<close>

lemma process_step_world:
  "process_step sl getenv p q \<Longrightarrow>
   world q = world p \<or> (\<exists>r c. sample_serve sl (resource_base_url getenv) r (world p) = (c, world q))"
  by (induction rule: process_step.cases)
    (auto simp: process_defs answer_request_def split: option.split prod.split)

lemma process_run_world:
  "process_run sl getenv p q \<Longrightarrow> sample_run sl (resource_base_url getenv) (world p) (world q)"
  by (induction rule: process_run.induct)
    (auto dest!: process_step_world intro: sample_none sample_more)

section \<open>Shutting down\<close>

lemma process_run_trans: "process_run sl getenv q r \<Longrightarrow> process_run sl getenv p q \<Longrightarrow> process_run sl getenv p r"
  by (induction rule: process_run.induct) (auto intro: process_more)

lemma process_run_step: "process_step sl getenv p q \<Longrightarrow> process_run sl getenv q r \<Longrightarrow> process_run sl getenv p r"
  by (rule process_run_trans) (auto intro: process_more process_none)

text \<open>Answering what is under way empties the connections.\<close>

lemma drain:
  assumes "finite (dom (conns p))" "p_exit p = None" "p_main p = MainShutdown d" "in_shutdown p"
  shows "\<exists>q. process_run sl getenv p q \<and> p_exit q = None \<and> p_main q = MainShutdown d
    \<and> conns q = Map.empty \<and> p_log q = p_log p \<and> begun q = begun p \<and> p_now q = p_now p"
  using assms
proof (induction "card (dom (conns p))" arbitrary: p rule: less_induct)
  case less
  show ?case
  proof (cases "conns p = Map.empty")
    case True
    with less.prems show ?thesis by (blast intro: process_none)
  next
    case False
    then obtain i x where i: "conns p i = Some x" by fastforce
    define q where "q = (case x of Idle \<Rightarrow> p\<lparr>conns := (conns p)(i := None)\<rparr>
      | Busy n r \<Rightarrow> answer_request sl (resource_base_url getenv) i n r p)"
    have st: "process_step sl getenv p q"
      using less.prems(2) i hang_up [of p i] answer [of p i]
      by (auto simp: q_def split: connection.split)
    have q: "conns q = (conns p)(i := None)" "p_exit q = None" "p_main q = MainShutdown d" "in_shutdown q"
      "p_log q = p_log p" "begun q = begun p" "p_now q = p_now p"
      using less.prems by (auto simp: q_def answer_request_def split: connection.split prod.split)
    have "card (dom (conns q)) < card (dom (conns p))"
      using i less.prems(1) unfolding q(1) by (auto intro!: card_Diff1_less)
    from less.hyps [OF this _ q(2-4)] less.prems(1) q(1,5,6,7) process_run_step [OF st] show ?thesis
      by auto
  qed
qed

section \<open>Two runs\<close>

text \<open>The process when it has read one request, before and after \<open>signal.Notify\<close>.\<close>

definition one_request :: "main_pc \<Rightarrow> bool \<Rightarrow> (string \<Rightarrow> string) \<Rightarrow> Request \<Rightarrow> Sample \<Rightarrow> time \<Rightarrow> Process" where
  "one_request m nf getenv r w t =
     \<lparr>p_main = m, p_listen = Accepting, notified = nf, quit_chan = [], in_shutdown = False,
      conns = [0 \<mapsto> Busy 0 r], world = w, p_now = t, p_log = [line_starting getenv], p_exit = None,
      begun = [r], replies = [], signalled = False\<rparr>"

lemma one_request_early:
  "process_run sl getenv (process_init w t) (one_request MainNotify False getenv r w t)"
proof -
  let ?run = "process_run sl getenv (process_init w t)"
  let ?st = "\<lambda>l cs lg. (one_request MainNotify False getenv r w t)\<lparr>p_listen := l, conns := cs, p_log := lg, begun := []\<rparr>"
  have "?run (?st Announcing Map.empty [])"
    using process_more [OF process_none go, of "process_init w t" sl getenv]
    by (simp add: process_init_def one_request_def)
  from process_more [OF this announce] have "?run (?st Binding Map.empty [line_starting getenv])"
    by (simp add: say_def one_request_def)
  from process_more [OF this bound] have "?run (?st Accepting Map.empty [line_starting getenv])"
    by (simp add: one_request_def)
  from process_more [OF this connect [where i = 0]] have "?run (?st Accepting [0 \<mapsto> Idle] [line_starting getenv])"
    by (simp add: one_request_def)
  from process_more [OF this request [where i = 0 and r = r]] show ?thesis
    by (simp add: one_request_def)
qed

text \<open>It is signalled and has called \<open>Shutdown\<close>.\<close>

definition stopping :: "(string \<Rightarrow> string) \<Rightarrow> Request \<Rightarrow> Sample \<Rightarrow> time \<Rightarrow> Process" where
  "stopping getenv r w t = begin_shutdown
     ((one_request MainWait True getenv r w t)\<lparr>signalled := True, quit_chan := [SIGTERM]\<rparr>)"

lemma stopping_run: "process_run sl getenv (process_init w t) (stopping getenv r w t)"
proof -
  let ?run = "process_run sl getenv (process_init w t)"
  from process_more [OF one_request_early notify] have "?run (one_request MainWait True getenv r w t)"
    by (simp add: one_request_def)
  from process_more [OF this signal [where s = SIGTERM]] have
    "?run ((one_request MainWait True getenv r w t)\<lparr>signalled := True, quit_chan := [SIGTERM]\<rparr>)"
    by (simp add: deliver_signal_def one_request_def)
  from process_more [OF this wake] show ?thesis by (simp add: stopping_def one_request_def)
qed

definition demo_stopping :: Process where
  "demo_stopping = stopping (\<lambda>_. []) demo_get demo_sample 0"

definition demo_stopped :: Process where
  "demo_stopped = end_shutdown None (answer_request demo_sample_lib (resource_base_url (\<lambda>_. [])) 0 0 demo_get demo_stopping)"

lemma demo_stopping_run:
  "process_run demo_sample_lib (\<lambda>_. []) (process_init demo_sample 0) demo_stopping"
  by (simp add: demo_stopping_def stopping_run)

lemma demo_stopping_simps [simp]:
  "p_exit demo_stopping = None" "in_shutdown demo_stopping" "signalled demo_stopping"
  "conns demo_stopping = [0 \<mapsto> Busy 0 demo_get]" "begun demo_stopping = [demo_get]" "replies demo_stopping = []"
  "p_main demo_stopping = MainShutdown (time_Add 0 shutdown_timeout)"
  "p_log demo_stopping = [line_starting (\<lambda>_. []), line_shutting_down]"
  by (simp_all add: demo_stopping_def stopping_def one_request_def begin_shutdown_def say_def)

lemma demo_stopped_run:
  "process_run demo_sample_lib (\<lambda>_. []) (process_init demo_sample 0) demo_stopped"
proof -
  let ?q = "answer_request demo_sample_lib (resource_base_url (\<lambda>_. [])) 0 0 demo_get demo_stopping"
  have "process_run demo_sample_lib (\<lambda>_. []) (process_init demo_sample 0) ?q"
    by (rule process_more [OF demo_stopping_run answer]) simp_all
  from process_more [OF this quiescent [where d = "time_Add 0 shutdown_timeout" and close_err = None]] show ?thesis
    by (simp add: demo_stopped_def answer_request_def split: prod.splits)
qed

lemma demo_stopped_simps [simp]:
  "p_exit demo_stopped = Some (ExitCode 0)"
  "p_log demo_stopped = [line_starting (\<lambda>_. []), line_shutting_down, line_clean]"
  by (simp_all add: demo_stopped_def end_shutdown_def say_def answer_request_def split: prod.split)

section \<open>Properties\<close>

text \<open>C23: a graceful shutdown loses nothing: when the process exits with code 0 and did not log a
  forced shutdown, it had been signalled, no connection is left, and every request it had
  read from any connection has been answered exactly once.\<close>

theorem graceful_shutdown:
  assumes "process_run sl getenv (process_init w t) p" "p_exit p = Some (ExitCode 0)"
    and "\<And>e. line_forced e \<notin> set (p_log p)"
  shows "signalled p \<and> conns p = Map.empty \<and> last (p_log p) = line_clean
    \<and> distinct (map fst (replies p)) \<and> fst ` set (replies p) = {..<length (begun p)}"
proof -
  from process_run_invariants [OF assms(1)] have inv: "accounted p" "lifecycle_ok getenv p" "numbered p" by auto
  with assms(2,3) have c: "conns p = Map.empty" "signalled p" "last (p_log p) = line_clean"
    by (auto simp: lifecycle_ok_def)
  with inv(1) have "{..<length (begun p)} \<subseteq> fst ` set (replies p)" by (auto simp: accounted_def)
  with inv(3) c show ?thesis by (auto simp: numbered_def)
qed

theorem graceful_shutdown_witness:
  "signalled demo_stopped \<and> conns demo_stopped = Map.empty \<and> last (p_log demo_stopped) = line_clean
    \<and> distinct (map fst (replies demo_stopped))
    \<and> fst ` set (replies demo_stopped) = {..<length (begun demo_stopped)}"
proof (rule graceful_shutdown [OF demo_stopped_run])
  show "p_exit demo_stopped = Some (ExitCode 0)" by simp
  show "line_forced e \<notin> set (p_log demo_stopped)" for e
    by (simp add: line_defs)
qed





text \<open>C26: requests can be lost in two ways: a shutdown that runs into its deadline leaves requests
  unanswered and still exits with code 0 and the line that says it exited cleanly; and the server accepts connections
  before \<open>signal.Notify\<close> is called, so that a signal in between kills it in the middle of a request.\<close>

theorem requests_lost:
  "(\<exists>p. process_run sl getenv (process_init w t) p \<and> p_exit p = Some (ExitCode 0)
      \<and> last (p_log p) = line_clean \<and> begun p = [r] \<and> replies p = [])
   \<and> (\<exists>p. process_run sl getenv (process_init w t) p \<and> p_exit p = Some (KilledBy SIGTERM)
      \<and> begun p = [r] \<and> replies p = [])"
proof -
  let ?run = "process_run sl getenv (process_init w t)" and ?t = "time_Add t shutdown_timeout"
  let ?p = "(stopping getenv r w t)\<lparr>p_now := ?t\<rparr>"
  let ?k = "(one_request MainNotify False getenv r w t)\<lparr>signalled := True, p_exit := Some (KilledBy SIGTERM)\<rparr>"
  have killed: "?run ((one_request MainNotify False getenv r w t)\<lparr>signalled := True, p_exit := Some (KilledBy SIGTERM)\<rparr>)"
    using process_more [OF one_request_early signal [where s = SIGTERM]]
    by (simp add: deliver_signal_def one_request_def)
  have "t \<le> ?t" by (simp add: time_Add_def shutdown_timeout_def Second_def)
  from process_more [OF stopping_run pass [where t = ?t]] this have "?run ?p"
    by (simp add: stopping_def one_request_def begin_shutdown_def say_def)
  from process_more [OF this deadline [where d = ?t]] have forced: "?run (end_shutdown (Some DeadlineExceeded) ?p)"
    by (simp add: stopping_def one_request_def begin_shutdown_def say_def)
  show ?thesis
  proof (intro conjI)
    show "\<exists>p. ?run p \<and> p_exit p = Some (ExitCode 0) \<and> last (p_log p) = line_clean \<and> begun p = [r] \<and> replies p = []"
      by (intro exI [of _ "end_shutdown (Some DeadlineExceeded) ?p"] conjI forced)
        (simp_all add: stopping_def one_request_def begin_shutdown_def end_shutdown_def say_def)
    show "\<exists>p. ?run p \<and> p_exit p = Some (KilledBy SIGTERM) \<and> begun p = [r] \<and> replies p = []"
      by (intro exI [of _ ?k] conjI killed) (simp_all add: one_request_def)
  qed
qed

end
