(* ===== verification/GoUtf8.thy ===== *)
theory GoUtf8
  imports GoEncoding
begin

text \<open>
  UTF-8 as Go's \<open>unicode/utf8\<close> reads it. A string is any sequence of bytes; where it is not a
  valid encoding Go reads the replacement character U+FFFD and goes on one byte further.
\<close>

section \<open>The width of the encoding at the head of a string\<close>

definition in_range :: "nat \<Rightarrow> nat \<Rightarrow> char \<Rightarrow> bool" where
  "in_range lo hi c \<longleftrightarrow> lo \<le> byte_val c \<and> byte_val c \<le> hi"

abbreviation is_cont :: "char \<Rightarrow> bool" where
  "is_cont \<equiv> in_range 128 191"

text \<open>The range of the second byte, and the number of bytes in all, by the first byte.\<close>

definition second_ok :: "char \<Rightarrow> char \<Rightarrow> bool" where
  "second_ok b c =
     (if byte_val b = 0xE0 then in_range 0xA0 0xBF c
      else if byte_val b = 0xED then in_range 0x80 0x9F c
      else if byte_val b = 0xF0 then in_range 0x90 0xBF c
      else if byte_val b = 0xF4 then in_range 0x80 0x8F c
      else is_cont c)"

definition seq_length :: "char \<Rightarrow> nat" where
  "seq_length b =
     (if byte_val b < 0x80 then 1
      else if in_range 0xC2 0xDF b then 2
      else if in_range 0xE0 0xEF b then 3
      else if in_range 0xF0 0xF4 b then 4
      else 0)"

text \<open>\<open>DecodeRuneInString\<close>: the width of the rune at the head, 0 where the encoding is invalid.\<close>

fun utf8_width :: "bytes \<Rightarrow> nat" where
  "utf8_width [] = 0"
| "utf8_width (b # bs) =
     (let n = seq_length b in
      if n \<le> 1 then n
      else case bs of
        [] \<Rightarrow> 0
      | c # cs \<Rightarrow> (if second_ok b c \<and> n - 2 \<le> length cs \<and> list_all is_cont (take (n - 2) cs) then n else 0))"

lemma utf8_width_bound: "utf8_width s \<le> length s"
  by (cases s) (auto simp: Let_def seq_length_def in_range_def split: list.split)

lemma utf8_width_le_4: "utf8_width s \<le> 4"
  by (cases s) (auto simp: Let_def seq_length_def split: list.split)

lemma utf8_width_pos: "byte_val b < 128 \<Longrightarrow> utf8_width (b # bs) = 1"
  by (simp add: seq_length_def)

lemma utf8_width_multi: "128 \<le> byte_val b \<Longrightarrow> utf8_width (b # bs) = 0 \<or> 2 \<le> utf8_width (b # bs)"
  by (auto simp: seq_length_def in_range_def Let_def split: list.split)

text \<open>The bytes of a valid encoding stand for themselves, whatever follows.\<close>

lemma utf8_width_long:
  assumes "2 \<le> seq_length b"
  shows "utf8_width (b # c # cs) =
    (if second_ok b c \<and> seq_length b - 2 \<le> length cs \<and> list_all is_cont (take (seq_length b - 2) cs)
     then seq_length b else 0)"
  using assms by (simp add: Let_def)

lemma utf8_width_take:
  assumes "0 < utf8_width s"
  shows "utf8_width (take (utf8_width s) s @ r) = utf8_width s"
proof -
  obtain b bs where s: "s = b # bs" using assms by (cases s) auto
  show ?thesis
  proof (cases "seq_length b \<le> 1")
    case True
    with assms s have "seq_length b = 1" by (simp add: Let_def)
    with s show ?thesis by (simp add: Let_def)
  next
    case False
    with assms s obtain c cs where c: "bs = c # cs" by (cases bs) (auto simp: Let_def)
    let ?k = "seq_length b - 2"
    from False have n: "2 \<le> seq_length b" "seq_length b = Suc (Suc ?k)" by simp_all
    from assms n have w: "utf8_width s = seq_length b" "second_ok b c" "?k \<le> length cs" "list_all is_cont (take ?k cs)"
      unfolding s c utf8_width_long [OF n(1)] by (auto split: if_splits)
    have "take (seq_length b) s = b # c # take ?k cs" unfolding s c by (subst n(2)) simp
    with w show ?thesis by (simp add: utf8_width_long [OF n(1)] del: utf8_width.simps)
  qed
qed

text \<open>A byte of ASCII ends an encoding that is cut short.\<close>

lemma cont_append_ascii:
  assumes "\<not> is_cont q"
  shows "k \<le> length (cs @ q # r) \<and> list_all is_cont (take k (cs @ q # r))
     \<longleftrightarrow> k \<le> length cs \<and> list_all is_cont (take k cs)"
proof (cases "k \<le> length cs")
  case True
  then show ?thesis by simp
next
  case False
  then have "take k (cs @ q # r) = cs @ q # take (k - Suc (length cs)) r"
    by (simp add: take_Cons')
  with assms False show ?thesis by simp
qed

lemma utf8_width_append_ascii:
  assumes "byte_val q < 128" "s \<noteq> []"
  shows "utf8_width (s @ q # r) = utf8_width s"
proof -
  obtain b bs where s: "s = b # bs" using assms(2) by (cases s) auto
  have q: "\<not> is_cont q" "\<not> second_ok b q" using assms(1) by (auto simp: in_range_def second_ok_def)
  show ?thesis
  proof (cases "2 \<le> seq_length b")
    case True
    show ?thesis
    proof (cases bs)
      case Nil
      with True q(2) show ?thesis unfolding s by (simp add: Let_def)
    next
      case (Cons c cs)
      show ?thesis
        unfolding s Cons append_Cons utf8_width_long [OF True] cont_append_ascii [OF q(1)] ..
    qed
  qed (simp add: s Let_def)
qed

section \<open>Runes\<close>

definition utf8_encode :: "nat \<Rightarrow> bytes" where
  "utf8_encode n =
     (if n < 0x80 then [char_of n]
      else if n < 0x800 then [char_of (0xC0 + n div 64), char_of (0x80 + n mod 64)]
      else if n < 0x10000 then [char_of (0xE0 + n div 4096), char_of (0x80 + n div 64 mod 64), char_of (0x80 + n mod 64)]
      else [char_of (0xF0 + n div 262144), char_of (0x80 + n div 4096 mod 64),
            char_of (0x80 + n div 64 mod 64), char_of (0x80 + n mod 64)])"

definition RuneError :: bytes where
  "RuneError = utf8_encode 0xFFFD"

section \<open>Valid strings\<close>

text \<open>\<open>strings.ToValidUTF8\<close> with a replacement for every invalid byte.\<close>

function to_valid :: "bytes \<Rightarrow> bytes" where
  "to_valid [] = []"
| "to_valid (b # bs) =
     (let w = utf8_width (b # bs)
      in if w = 0 then RuneError @ to_valid bs
         else take w (b # bs) @ to_valid (drop w (b # bs)))"
  by pat_completeness auto
termination by (relation "measure length") (auto simp del: utf8_width.simps)

declare to_valid.simps(2) [simp del]

function utf8_valid :: "bytes \<Rightarrow> bool" where
  "utf8_valid [] = True"
| "utf8_valid (b # bs) =
     (let w = utf8_width (b # bs) in if w = 0 then False else utf8_valid (drop w (b # bs)))"
  by pat_completeness auto
termination by (relation "measure length") (auto simp del: utf8_width.simps)

declare utf8_valid.simps(2) [simp del]

lemma to_valid_id: "utf8_valid s \<Longrightarrow> to_valid s = s"
proof (induction s rule: utf8_valid.induct)
  case (2 b bs)
  then show ?case by (simp add: utf8_valid.simps(2) to_valid.simps(2) Let_def split: if_splits del: utf8_width.simps)
qed simp

lemma utf8_valid_ascii: "list_all (\<lambda>c. byte_val c < 128) s \<Longrightarrow> utf8_valid s"
proof (induction s)
  case (Cons b bs)
  then show ?case by (simp add: utf8_valid.simps(2) utf8_width_pos del: utf8_width.simps)
qed simp

end
