(* ===== verification/GoDecimal.thy ===== *)
theory GoDecimal
  imports Prelude
begin

text \<open>
  Decimal texts: of integers (\<open>strconv.Itoa\<close>), of a fixed width with leading zeros, and the value
  of a text of digits.
\<close>

section \<open>Integers\<close>

fun decimal_nat :: "nat \<Rightarrow> string" where
  "decimal_nat n = (if n < 10 then [char_of (48 + n)] else decimal_nat (n div 10) @ [char_of (48 + n mod 10)])"

declare decimal_nat.simps [simp del]

definition decimal :: "int \<Rightarrow> string" where
  "decimal n = (if n < 0 then ''-'' @ decimal_nat (nat (- n)) else decimal_nat (nat n))"

definition dec_digit :: "char \<Rightarrow> bool" where
  "dec_digit c \<longleftrightarrow> 48 \<le> byte_val c \<and> byte_val c \<le> 57"

definition digits_val :: "string \<Rightarrow> nat" where
  "digits_val ds = foldl (\<lambda>a c. 10 * a + (byte_val c - 48)) 0 ds"

lemma byte_val_digit [simp]: "n < 10 \<Longrightarrow> byte_val (char_of (48 + n) :: char) = 48 + n"
  by simp

lemma decimal_nat_digits: "decimal_nat n \<noteq> [] \<and> list_all dec_digit (decimal_nat n)"
proof (induction n rule: decimal_nat.induct)
  case (1 n)
  have d: "dec_digit (char_of (48 + k))" if "k < 10" for k :: nat using that by (simp add: dec_digit_def)
  show ?case
  proof (cases "n < 10")
    case True
    with d show ?thesis by (subst (1 2) decimal_nat.simps) simp
  next
    case False
    with 1 d [of "n mod 10"] show ?thesis by (subst (1 2) decimal_nat.simps) simp
  qed
qed

lemma digits_val_decimal: "digits_val (decimal_nat n) = n"
proof (induction n rule: decimal_nat.induct)
  case (1 n)
  show ?case
  proof (cases "n < 10")
    case True
    then show ?thesis by (subst decimal_nat.simps) (simp add: digits_val_def)
  next
    case False
    with 1 show ?thesis by (subst decimal_nat.simps) (simp add: digits_val_def)
  qed
qed

text \<open>No leading zero but in 0 itself.\<close>

lemma decimal_nat_leading: "hd (decimal_nat n) = CHR ''0'' \<Longrightarrow> n = 0"
proof (induction n rule: decimal_nat.induct)
  case (1 n)
  show ?case
  proof (cases "n < 10")
    case True
    with 1(2) have "char_of (48 + n) = (CHR ''0'' :: char)" by (simp add: decimal_nat.simps)
    then have "byte_val (char_of (48 + n) :: char) = byte_val (CHR ''0'')" by simp
    with True show ?thesis by simp
  next
    case False
    then have "hd (decimal_nat n) = hd (decimal_nat (n div 10))"
      using decimal_nat_digits [of "n div 10"] by (subst decimal_nat.simps) simp
    with 1 False show ?thesis by simp
  qed
qed

lemma decimal_nat_0: "decimal_nat 0 = ''0''"
  by code_simp

lemma dec_digit_not [simp]: "\<not> dec_digit (CHR ''-'')" "dec_digit (CHR ''0'')"
  by (simp_all add: dec_digit_def)

section \<open>Fixed width\<close>

primrec digits :: "nat \<Rightarrow> nat \<Rightarrow> string" where
  "digits 0 n = []"
| "digits (Suc w) n = digits w (n div 10) @ [char_of (48 + n mod 10)]"

lemma dec_digit_char [simp]: "k < 10 \<Longrightarrow> dec_digit (char_of (48 + k))" for k :: nat
  by (simp add: dec_digit_def)

lemma length_digits [simp]: "length (digits w n) = w"
  by (induction w arbitrary: n) simp_all

lemma digits_are_digits [simp]: "list_all dec_digit (digits w n)"
  by (induction w arbitrary: n) simp_all

lemma digits_val_snoc: "digits_val (ds @ [c]) = 10 * digits_val ds + (byte_val c - 48)"
  by (simp add: digits_val_def)

lemma digits_val_digits: "digits_val (digits w n) = n mod 10 ^ w"
proof (induction w arbitrary: n)
  case 0
  show ?case by (simp add: digits_val_def)
next
  case (Suc w)
  have "n mod 10 ^ Suc w = 10 * (n div 10 mod 10 ^ w) + n mod 10"
    by (simp add: mod_mult2_eq)
  with Suc show ?case by (simp add: digits_val_snoc)
qed

end
