(* ===== verification/GoJson.thy ===== *)
theory GoJson
  imports GoUtf8 GoDecimal
begin

text \<open>
  The texts of \<open>encoding/json\<close>: what \<open>json.Marshal\<close> and \<open>json.MarshalIndent\<close> write, and what
  \<open>json.Unmarshal\<close> reads. Documents are trees; an object keeps its members in order, repeated
  keys included, and a number is its text, which the reader's target type interprets. One
  printer has the gaps between the tokens as its argument, so that both layouts are instances.
\<close>

section \<open>Documents\<close>

datatype jdoc =
    DNull | DBool bool | DNum string | DStr string
  | DArr "jdoc list" | DObj "(string \<times> jdoc) list"

section \<open>Strings\<close>

text \<open>
  The escapes of \<open>appendString\<close> with HTML escaping, as \<open>Marshal\<close> and gin use it: the quote, the
  backslash, control characters, the characters that HTML treats specially, the two line separators of
  JavaScript; every byte that is not UTF-8 becomes the escape of U+FFFD.
\<close>

definition u00 :: "char \<Rightarrow> string" where
  "u00 b = [CHR 0x5C] @ ''u00'' @ [hex_digit (byte_val b div 16), hex_digit (byte_val b mod 16)]"

definition escape_ascii :: "char \<Rightarrow> string" where
  "escape_ascii b =
     (if b = CHR 0x22 \<or> b = CHR 0x5C then [CHR 0x5C, b]
      else if b = CHR 0x08 then [CHR 0x5C, CHR ''b'']
      else if b = CHR 0x0C then [CHR 0x5C, CHR ''f'']
      else if b = CHR 0x0A then [CHR 0x5C, CHR ''n'']
      else if b = CHR 0x0D then [CHR 0x5C, CHR ''r'']
      else if b = CHR 0x09 then [CHR 0x5C, CHR ''t'']
      else if byte_val b < 32 \<or> b \<in> set ''<>&'' then u00 b
      else [b])"

definition line_sep :: "bytes \<Rightarrow> string option" where
  "line_sep s =
     (if take 3 s = [CHR 0xE2, CHR 0x80, CHR 0xA8] then Some ([CHR 0x5C] @ ''u2028'')
      else if take 3 s = [CHR 0xE2, CHR 0x80, CHR 0xA9] then Some ([CHR 0x5C] @ ''u2029'')
      else None)"

function json_escape :: "string \<Rightarrow> string" where
  "json_escape [] = []"
| "json_escape (b # bs) =
     (if byte_val b < 128 then escape_ascii b @ json_escape bs
      else let w = utf8_width (b # bs) in
        if w = 0 then [CHR 0x5C] @ ''ufffd'' @ json_escape bs
        else (case line_sep (b # bs) of Some e \<Rightarrow> e | None \<Rightarrow> take w (b # bs))
             @ json_escape (drop w (b # bs)))"
  by pat_completeness auto
termination by (relation "measure length") (auto simp del: utf8_width.simps)

declare json_escape.simps(2) [simp del]

definition json_quote :: "string \<Rightarrow> string" where
  "json_quote s = [CHR 0x22] @ json_escape s @ [CHR 0x22]"

text \<open>Reading: hexadecimal escapes, surrogate pairs, and the rest of the text after the closing quote.\<close>

definition json_hex :: "char \<Rightarrow> nat option" where
  "json_hex c =
     (let v = byte_val c in
      if 48 \<le> v \<and> v \<le> 57 then Some (v - 48)
      else if 97 \<le> v \<and> v \<le> 102 then Some (v - 87)
      else if 65 \<le> v \<and> v \<le> 70 then Some (v - 55)
      else None)"

fun getu4 :: "string \<Rightarrow> (nat \<times> string) option" where
  "getu4 (a # b # c # d # s) =
     (case (json_hex a, json_hex b, json_hex c, json_hex d) of
        (Some h1, Some h2, Some h3, Some h4) \<Rightarrow> Some (4096 * h1 + 256 * h2 + 16 * h3 + h4, s)
      | _ \<Rightarrow> None)"
| "getu4 s = None"

text \<open>The escape \<open>\u\<close> with what follows it: half a surrogate pair reads as U+FFFD.\<close>

definition unescape_u :: "string \<Rightarrow> (bytes \<times> string) option" where
  "unescape_u s =
     (case getu4 s of
        None \<Rightarrow> None
      | Some (n, r) \<Rightarrow>
          (if n < 0xD800 \<or> 0xDFFF < n then Some (utf8_encode n, r)
           else case r of
             e # u # r2 \<Rightarrow>
               (if n < 0xDC00 \<and> e = CHR 0x5C \<and> u = CHR ''u'' then
                  (case getu4 r2 of
                     None \<Rightarrow> None
                   | Some (m, r3) \<Rightarrow>
                       (if 0xDC00 \<le> m \<and> m \<le> 0xDFFF
                        then Some (utf8_encode (0x10000 + (n - 0xD800) * 1024 + (m - 0xDC00)), r3)
                        else Some (RuneError, r)))
                else Some (RuneError, r))
           | _ \<Rightarrow> Some (RuneError, r)))"

definition unescape_char :: "char \<Rightarrow> char option" where
  "unescape_char e =
     (if e = CHR 0x22 \<or> e = CHR 0x5C \<or> e = CHR ''/'' then Some e
      else if e = CHR ''b'' then Some (CHR 0x08)
      else if e = CHR ''f'' then Some (CHR 0x0C)
      else if e = CHR ''n'' then Some (CHR 0x0A)
      else if e = CHR ''r'' then Some (CHR 0x0D)
      else if e = CHR ''t'' then Some (CHR 0x09)
      else None)"

lemma getu4_length: "getu4 s = Some (n, r) \<Longrightarrow> length s = 4 + length r"
  by (cases s rule: getu4.cases) (auto split: option.splits)

lemma unescape_u_length: "unescape_u s = Some (b, r) \<Longrightarrow> length r < length s"
  by (auto simp: unescape_u_def dest!: getu4_length split: option.splits if_splits list.splits prod.splits)

definition json_prepend :: "bytes \<Rightarrow> (bytes \<times> string) option \<Rightarrow> (bytes \<times> string) option" where
  "json_prepend x r = map_option (apfst ((@) x)) r"

lemma json_prepend_simps [simp]:
  "json_prepend x (Some (y, r)) = Some (x @ y, r)" "json_prepend x None = None"
  by (simp_all add: json_prepend_def)

function json_unescape :: "string \<Rightarrow> (bytes \<times> string) option" where
  "json_unescape [] = None"
| "json_unescape (b # bs) =
     (if b = CHR 0x22 then Some ([], bs)
      else if b = CHR 0x5C then
        (case bs of
           [] \<Rightarrow> None
         | e # r \<Rightarrow>
             (if e = CHR ''u'' then
                (case unescape_u r of None \<Rightarrow> None | Some (x, r') \<Rightarrow> json_prepend x (json_unescape r'))
              else (case unescape_char e of
                      None \<Rightarrow> None
                    | Some c \<Rightarrow> json_prepend [c] (json_unescape r))))
      else if byte_val b < 32 then None
      else if byte_val b < 128 then json_prepend [b] (json_unescape bs)
      else let w = utf8_width (b # bs) in
        if w = 0 then json_prepend RuneError (json_unescape bs)
        else json_prepend (take w (b # bs)) (json_unescape (drop w (b # bs))))"
  by pat_completeness auto
termination
  by (relation "measure length") (auto simp del: utf8_width.simps dest: unescape_u_length)

declare json_unescape.simps(2) [simp del]

lemma json_hex_digit: "n < 16 \<Longrightarrow> json_hex (hex_digit n) = Some n"
  by (simp add: json_hex_def byte_val_hex_digit)

lemma unescape_u00:
  assumes "byte_val b < 128"
  shows "unescape_u (''00'' @ [hex_digit (byte_val b div 16), hex_digit (byte_val b mod 16)] @ t) = Some ([b], t)"
proof -
  have "byte_val b div 16 < 16" "byte_val b mod 16 < 16" using assms by simp_all
  moreover have "json_hex (CHR ''0'') = Some 0" by code_simp
  ultimately show ?thesis using assms by (simp add: unescape_u_def json_hex_digit utf8_encode_def)
qed

lemma escape_ascii_simple:
  "json_unescape ([CHR 0x5C, e] @ t) = json_prepend [c] (json_unescape t)"
  if "unescape_char e = Some c" "e \<noteq> CHR ''u''"
  using that by (simp add: json_unescape.simps(2) [of "CHR 0x5C"])

lemma unescape_escape_ascii:
  assumes "byte_val b < 128"
  shows "json_unescape (escape_ascii b @ t) = json_prepend [b] (json_unescape t)"
proof -
  consider (short) e where "escape_ascii b = [CHR 0x5C, e]" "unescape_char e = Some b" "e \<noteq> CHR ''u''"
    | (long) "escape_ascii b = u00 b"
    | (plain) "escape_ascii b = [b]" "b \<noteq> CHR 0x22" "b \<noteq> CHR 0x5C" "32 \<le> byte_val b"
  proof (cases "b \<in> {CHR 0x22, CHR 0x5C, CHR 0x08, CHR 0x0C, CHR 0x0A, CHR 0x0D, CHR 0x09}")
    case True
    have "\<exists>e. escape_ascii c = [CHR 0x5C, e] \<and> unescape_char e = Some c \<and> e \<noteq> CHR ''u''"
      if "c \<in> {CHR 0x22, CHR 0x5C, CHR 0x08, CHR 0x0C, CHR 0x0A, CHR 0x0D, CHR 0x09}" for c
      using that unfolding escape_ascii_def unescape_char_def by (elim insertE emptyE; hypsubst; simp)
    with True show ?thesis using short by blast
  next
    case False
    then have "escape_ascii b = (if byte_val b < 32 \<or> b \<in> set ''<>&'' then u00 b else [b])"
      unfolding escape_ascii_def by simp
    with False show ?thesis using long plain by (cases "byte_val b < 32 \<or> b \<in> set ''<>&''") auto
  qed
  then show ?thesis
  proof cases
    case short
    then show ?thesis using escape_ascii_simple [OF short(2,3), of t] by simp
  next
    case long
    with unescape_u00 [OF assms, of t] show ?thesis
      by (simp add: u00_def json_unescape.simps(2) [of "CHR 0x5C"])
  next
    case plain
    with assms show ?thesis by (simp add: json_unescape.simps(2))
  qed
qed

lemma unescape_runes:
  "unescape_u (''fffd'' @ t) = Some (RuneError, t)"
  "unescape_u (''2028'' @ t) = Some ([CHR 0xE2, CHR 0x80, CHR 0xA8], t)"
  "unescape_u (''2029'' @ t) = Some ([CHR 0xE2, CHR 0x80, CHR 0xA9], t)"
proof -
  have h: "json_hex (CHR ''f'') = Some 15" "json_hex (CHR ''d'') = Some 13" "json_hex (CHR ''0'') = Some 0"
    "json_hex (CHR ''2'') = Some 2" "json_hex (CHR ''8'') = Some 8" "json_hex (CHR ''9'') = Some 9"
    by code_simp+
  have u: "utf8_encode 8232 = [CHR 0xE2, CHR 0x80, CHR 0xA8]" "utf8_encode 8233 = [CHR 0xE2, CHR 0x80, CHR 0xA9]"
    by (simp_all add: utf8_encode_def char_of_eq_iff)
  show "unescape_u (''fffd'' @ t) = Some (RuneError, t)"
    "unescape_u (''2028'' @ t) = Some ([CHR 0xE2, CHR 0x80, CHR 0xA8], t)"
    "unescape_u (''2029'' @ t) = Some ([CHR 0xE2, CHR 0x80, CHR 0xA9], t)"
    by (simp_all add: unescape_u_def h u RuneError_def)
qed

lemma unescape_verbatim:
  assumes "128 \<le> byte_val b" "0 < utf8_width (b # bs)"
  shows "json_unescape (take (utf8_width (b # bs)) (b # bs) @ t)
    = json_prepend (take (utf8_width (b # bs)) (b # bs)) (json_unescape t)"
proof -
  let ?w = "utf8_width (b # bs)"
  have w: "utf8_width (take ?w (b # bs) @ t) = ?w" by (rule utf8_width_take [OF assms(2)])
  have len: "length (take ?w (b # bs)) = ?w"
    using utf8_width_bound [of "b # bs"] by (simp del: utf8_width.simps)
  obtain cs where c: "take ?w (b # bs) @ t = b # cs" using assms(2) by (cases ?w) auto
  have "take ?w (b # cs) = take ?w (b # bs)" "drop ?w (b # cs) = t"
    using len unfolding c [symmetric] by (simp_all del: utf8_width.simps)
  with w assms show ?thesis
    unfolding c by (auto simp: json_unescape.simps(2) Let_def simp del: utf8_width.simps)
qed

lemma line_sep_cases:
  assumes "line_sep (b # bs) = Some e"
  shows "json_unescape (e @ t) = json_prepend (take 3 (b # bs)) (json_unescape t) \<and> utf8_width (b # bs) = 3"
proof -
  obtain x where x: "x = CHR 0xA8 \<or> x = CHR 0xA9" and t: "take 3 (b # bs) = [CHR 0xE2, CHR 0x80, x]"
    and e: "e = [CHR 0x5C] @ (if x = CHR 0xA8 then ''u2028'' else ''u2029'')"
  proof (cases "take 3 (b # bs) = [CHR 0xE2, CHR 0x80, CHR 0xA8]")
    case True
    with assms show ?thesis by (intro that [of "CHR 0xA8"]) (simp_all add: line_sep_def)
  next
    case False
    with assms show ?thesis
      by (intro that [of "CHR 0xA9"]) (simp_all add: line_sep_def split: if_splits)
  qed
  have b: "b # bs = [CHR 0xE2, CHR 0x80, x] @ drop 3 (b # bs)" by (metis append_take_drop_id t)
  have "utf8_width [CHR 0xE2, CHR 0x80, x] = 3" using x by (elim disjE; simp only:; code_simp)
  then have "utf8_width ([CHR 0xE2, CHR 0x80, x] @ drop 3 (b # bs)) = 3"
    using utf8_width_take [of "[CHR 0xE2, CHR 0x80, x]"] by simp
  with b have "utf8_width (b # bs) = 3" by metis
  moreover have "json_unescape (e @ t) = json_prepend [CHR 0xE2, CHR 0x80, x] (json_unescape t)"
    using x unescape_runes(2,3) [of t]
    by (elim disjE) (simp_all add: e json_unescape.simps(2) [of "CHR 0x5C"])
  ultimately show ?thesis unfolding t by simp
qed

text \<open>A string reads back as it was, its invalid bytes replaced.\<close>

lemma json_unescape_escape: "json_unescape (json_escape s @ CHR 0x22 # r) = Some (to_valid s, r)"
proof (induction s rule: json_escape.induct)
  case 1
  show ?case by (simp add: json_unescape.simps(2))
next
  case (2 b bs)
  let ?w = "utf8_width (b # bs)"
  show ?case
  proof (cases "byte_val b < 128")
    case True
    with 2(1) show ?thesis
      by (simp add: json_escape.simps(2) unescape_escape_ascii to_valid.simps(2) utf8_width_pos del: utf8_width.simps)
  next
    case False
    show ?thesis
    proof (cases "?w = 0")
      case True
      with False 2(2) [OF False refl True] unescape_runes(1) [of "json_escape bs @ CHR 0x22 # r"] show ?thesis
        by (simp add: json_escape.simps(2) to_valid.simps(2) Let_def json_unescape.simps(2) [of "CHR 0x5C"] del: utf8_width.simps)
    next
      case nz: False
      let ?t = "json_escape (drop ?w (b # bs)) @ CHR 0x22 # r"
      have "json_unescape ((case line_sep (b # bs) of Some e \<Rightarrow> e | None \<Rightarrow> take ?w (b # bs)) @ ?t)
          = json_prepend (take ?w (b # bs)) (json_unescape ?t)"
      proof (cases "line_sep (b # bs)")
        case None
        with unescape_verbatim [of b bs ?t] False nz show ?thesis by (simp del: utf8_width.simps)
      next
        case (Some e)
        from line_sep_cases [OF Some, of ?t] show ?thesis
          unfolding Some option.case by (metis (no_types))
      qed
      with False nz 2(3) [OF False refl nz] show ?thesis
        by (simp add: json_escape.simps(2) to_valid.simps(2) Let_def del: utf8_width.simps)
    qed
  qed
qed

section \<open>Numbers\<close>

text \<open>
  The text of a number, its parts with what follows them: a sign, the integer digits without a
  leading zero, the fraction, the exponent.
\<close>

definition json_sign :: "string \<Rightarrow> string \<times> string" where
  "json_sign t = (case t of c # r \<Rightarrow> (if c = CHR ''-'' then ([c], r) else ([], t)) | [] \<Rightarrow> ([], []))"

definition json_digits :: "string \<Rightarrow> (string \<times> string) option" where
  "json_digits t =
     (let ds = takeWhile dec_digit t in if ds = [] then None else Some (ds, dropWhile dec_digit t))"

definition json_int_part :: "string \<Rightarrow> (string \<times> string) option" where
  "json_int_part t =
     (case t of c # r \<Rightarrow> (if c = CHR ''0'' then Some ([c], r) else json_digits t) | [] \<Rightarrow> None)"

definition json_frac_part :: "string \<Rightarrow> (string \<times> string) option" where
  "json_frac_part t =
     (case t of
        c # r \<Rightarrow> (if c = CHR ''.'' then map_option (apfst ((#) c)) (json_digits r) else Some ([], t))
      | [] \<Rightarrow> Some ([], []))"

definition json_exp_part :: "string \<Rightarrow> (string \<times> string) option" where
  "json_exp_part t =
     (case t of
        c # r \<Rightarrow>
          (if c = CHR ''e'' \<or> c = CHR ''E'' then
             (let k = (if r \<noteq> [] \<and> (hd r = CHR ''-'' \<or> hd r = CHR ''+'') then 1 else 0)
              in map_option (apfst (\<lambda>ds. c # take k r @ ds)) (json_digits (drop k r)))
           else Some ([], t))
      | [] \<Rightarrow> Some ([], []))"

definition json_number :: "string \<Rightarrow> (string \<times> string) option" where
  "json_number s =
     (case json_sign s of (m, t) \<Rightarrow>
      case json_int_part t of None \<Rightarrow> None | Some (is, r) \<Rightarrow>
      case json_frac_part r of None \<Rightarrow> None | Some (fs, r) \<Rightarrow>
      case json_exp_part r of None \<Rightarrow> None | Some (es, r) \<Rightarrow> Some (m @ is @ fs @ es, r))"

definition number_text :: "string \<Rightarrow> bool" where
  "number_text lit \<longleftrightarrow> json_number lit = Some (lit, [])"

text \<open>\<open>strconv.ParseInt\<close> in base 10, of the text of a number; the range is the caller's.\<close>

definition parse_int :: "string \<Rightarrow> int option" where
  "parse_int s =
     (case json_sign s of (m, t) \<Rightarrow>
        if t \<noteq> [] \<and> list_all dec_digit t
        then Some (if m = [] then int (digits_val t) else - int (digits_val t)) else None)"

text \<open>What may follow a number in a document.\<close>

definition ends_number :: "string \<Rightarrow> bool" where
  "ends_number r \<longleftrightarrow> r = [] \<or> (\<not> dec_digit (hd r) \<and> hd r \<notin> set ''.eE'')"

text \<open>A part that is read is read in front of anything that does not continue it.\<close>

lemma json_digits_append:
  assumes "json_digits t = Some (a, b)" "b \<noteq> [] \<or> ends_number r"
  shows "json_digits (t @ r) = Some (a, b @ r)"
proof (cases "\<exists>x \<in> set t. \<not> dec_digit x")
  case True
  then show ?thesis using assms(1)
    by (auto simp: json_digits_def Let_def takeWhile_append dropWhile_append split: if_splits)
next
  case False
  then have t: "takeWhile dec_digit t = t" "dropWhile dec_digit t = []"
    by (simp_all add: takeWhile_eq_all_conv dropWhile_eq_Nil_conv)
  with assms have r: "ends_number r" "a = t" "b = []" "t \<noteq> []" by (auto simp: json_digits_def Let_def split: if_splits)
  then have "takeWhile dec_digit r = []" "dropWhile dec_digit r = r"
    by (cases r; simp add: ends_number_def)+
  with False r show ?thesis
    by (simp add: json_digits_def Let_def takeWhile_append dropWhile_append)
qed

lemma json_int_part_append:
  assumes "json_int_part t = Some (a, b)" "b \<noteq> [] \<or> ends_number r"
  shows "json_int_part (t @ r) = Some (a, b @ r)"
  using assms json_digits_append [OF _ assms(2), of t a]
  by (cases t) (auto simp: json_int_part_def split: if_splits)

lemma json_frac_part_append:
  assumes "json_frac_part t = Some (a, b)" "b \<noteq> [] \<or> ends_number r"
  shows "json_frac_part (t @ r) = Some (a, b @ r)"
proof (cases t)
  case Nil
  with assms show ?thesis by (cases r) (auto simp: json_frac_part_def ends_number_def)
next
  case (Cons c u)
  with assms json_digits_append [OF _ assms(2), of u] show ?thesis
    by (auto simp: json_frac_part_def split: if_splits)
qed

lemma json_exp_part_append:
  assumes "json_exp_part t = Some (a, b)" "b \<noteq> [] \<or> ends_number r"
  shows "json_exp_part (t @ r) = Some (a, b @ r)"
proof (cases t)
  case Nil
  with assms show ?thesis by (cases r) (auto simp: json_exp_part_def ends_number_def)
next
  case (Cons c u)
  show ?thesis
  proof (cases "u = []")
    case True
    with Cons assms show ?thesis by (auto simp: json_exp_part_def json_digits_def split: if_splits)
  next
    case False
    with Cons assms json_digits_append [OF _ assms(2), of "drop 1 u"] json_digits_append [OF _ assms(2), of u]
    show ?thesis by (cases u) (auto simp: json_exp_part_def Let_def split: if_splits)
  qed
qed

lemma json_number_append:
  assumes "json_number s = Some (lit, b)" "b \<noteq> [] \<or> ends_number r"
  shows "json_number (s @ r) = Some (lit, b @ r)"
proof -
  obtain m t where m: "json_sign s = (m, t)" by fastforce
  with assms(1) obtain ds r1 fs r2 es where p: "json_int_part t = Some (ds, r1)"
    "json_frac_part r1 = Some (fs, r2)" "json_exp_part r2 = Some (es, b)" "lit = m @ ds @ fs @ es"
    by (auto simp: json_number_def split: option.splits)
  have r2: "r2 \<noteq> [] \<or> ends_number r"
    using p(3) assms(2) by (cases r2) (auto simp: json_exp_part_def)
  have r1: "r1 \<noteq> [] \<or> ends_number r"
    using p(2) r2 by (cases r1) (auto simp: json_frac_part_def)
  have "json_sign (s @ r) = (m, t @ r)"
    using m p(1) by (cases s) (auto simp: json_sign_def json_int_part_def split: if_splits)
  with json_int_part_append [OF p(1) r1] json_frac_part_append [OF p(2) r2]
    json_exp_part_append [OF p(3) assms(2)] p(4) show ?thesis by (simp add: json_number_def)
qed

lemma json_number_text: "number_text lit \<Longrightarrow> ends_number r \<Longrightarrow> json_number (lit @ r) = Some (lit, r)"
  using json_number_append [of lit lit "[]" r] by (simp add: number_text_def)

lemma json_number_hd:
  assumes "json_number s = Some p"
  shows "\<exists>c t. s = c # t \<and> (c = CHR ''-'' \<or> dec_digit c)"
proof (cases s)
  case Nil
  with assms show ?thesis by (simp add: json_number_def json_sign_def json_int_part_def)
next
  case (Cons c t)
  with assms show ?thesis
    by (auto simp: json_number_def json_sign_def json_int_part_def json_digits_def Let_def
        split: if_splits option.splits)
qed

text \<open>The decimal text of an integer is the text of a number, and reads as it.\<close>

lemma json_int_part_decimal: "json_int_part (decimal_nat n) = Some (decimal_nat n, [])"
proof (cases "n = 0")
  case True
  then show ?thesis by (simp add: json_int_part_def decimal_nat_0)
next
  case False
  have "list_all dec_digit (decimal_nat n)" "decimal_nat n \<noteq> []" using decimal_nat_digits by simp_all
  then have "takeWhile dec_digit (decimal_nat n) = decimal_nat n" "dropWhile dec_digit (decimal_nat n) = []"
    by (simp_all add: takeWhile_eq_all_conv dropWhile_eq_Nil_conv list_all_iff)
  with False decimal_nat_leading [of n] decimal_nat_digits [of n] show ?thesis
    by (cases "decimal_nat n") (auto simp: json_int_part_def json_digits_def)
qed

lemma json_sign_decimal:
  "json_sign (decimal n) = (if n < 0 then ''-'' else [], decimal_nat (nat \<bar>n\<bar>))"
proof -
  have "decimal_nat m \<noteq> [] \<and> hd (decimal_nat m) \<noteq> CHR ''-''" for m
    using decimal_nat_digits [of m] by (cases "decimal_nat m") auto
  then show ?thesis
    by (cases "decimal_nat (nat n)") (auto simp: json_sign_def decimal_def, metis list.discI list.sel(1))
qed

lemma number_text_decimal [simp]: "number_text (decimal n)"
  by (simp add: number_text_def json_number_def json_sign_decimal json_int_part_decimal json_frac_part_def json_exp_part_def)
    (simp add: decimal_def)

lemma parse_int_decimal [simp]: "parse_int (decimal n) = Some n"
  using decimal_nat_digits [of "nat \<bar>n\<bar>"]
  by (simp add: parse_int_def json_sign_decimal digits_val_decimal)

section \<open>Documents as texts\<close>

text \<open>
  The printer: \<open>g k\<close> is the gap before an element at depth \<open>k\<close> and before
  the bracket that closes it, \<open>col\<close> the gap after a colon. \<open>Marshal\<close> has no gaps, \<open>MarshalIndent\<close> line
  breaks with two blanks per level.
\<close>

fun json_print :: "(nat \<Rightarrow> string) \<Rightarrow> string \<Rightarrow> nat \<Rightarrow> jdoc \<Rightarrow> string"
  and print_elems :: "(nat \<Rightarrow> string) \<Rightarrow> string \<Rightarrow> nat \<Rightarrow> jdoc list \<Rightarrow> string"
  and print_members ::
    "(nat \<Rightarrow> string) \<Rightarrow> string \<Rightarrow> nat \<Rightarrow> (string \<times> jdoc) list \<Rightarrow> string" where
  "json_print g col k DNull = ''null''"
| "json_print g col k (DBool b) = (if b then ''true'' else ''false'')"
| "json_print g col k (DNum lit) = lit"
| "json_print g col k (DStr s) = json_quote s"
| "json_print g col k (DArr vs) =
     (if vs = [] then ''[]'' else ''['' @ print_elems g col k vs @ g k @ '']'')"
| "json_print g col k (DObj ms) =
     (if ms = [] then ''{}'' else ''{'' @ print_members g col k ms @ g k @ ''}'')"
| "print_elems g col k [] = []"
| "print_elems g col k (v # vs) =
     g (Suc k) @ json_print g col (Suc k) v @ (if vs = [] then [] else '','' @ print_elems g col k vs)"
| "print_members g col k [] = []"
| "print_members g col k ((key, v) # ms) =
     g (Suc k) @ json_quote key @ '':'' @ col @ json_print g col (Suc k) v
     @ (if ms = [] then [] else '','' @ print_members g col k ms)"

definition json_text :: "jdoc \<Rightarrow> string" where
  "json_text = json_print (\<lambda>_. []) [] 0"

definition json_indent :: "jdoc \<Rightarrow> string" where
  "json_indent = json_print (\<lambda>k. CHR 0x0A # replicate (2 * k) (CHR '' '')) '' '' 0"

section \<open>Reading documents\<close>

definition json_space :: "char \<Rightarrow> bool" where
  "json_space c \<longleftrightarrow> c = CHR '' '' \<or> c = CHR 0x09 \<or> c = CHR 0x0A \<or> c = CHR 0x0D"

abbreviation skip_space :: "string \<Rightarrow> string" where
  "skip_space \<equiv> dropWhile json_space"

definition expect :: "string \<Rightarrow> jdoc \<Rightarrow> string \<Rightarrow> (jdoc \<times> string) option" where
  "expect w v s = (if take (length w) s = w then Some (v, drop (length w) s) else None)"

text \<open>
  The reader: \<open>n\<close> is fuel, \<open>d\<close> the depth of nesting that is still allowed (the scanner refuses
  more than 10000).
\<close>

fun json_value :: "nat \<Rightarrow> nat \<Rightarrow> string \<Rightarrow> (jdoc \<times> string) option"
  and json_elems :: "nat \<Rightarrow> nat \<Rightarrow> string \<Rightarrow> (jdoc list \<times> string) option"
  and json_members :: "nat \<Rightarrow> nat \<Rightarrow> string \<Rightarrow> ((string \<times> jdoc) list \<times> string) option" where
  "json_value 0 d s = None"
| "json_value (Suc n) d s =
     (case skip_space s of
        [] \<Rightarrow> None
      | c # r \<Rightarrow>
          (if c = CHR ''{'' then
             (if d = 0 then None
              else case skip_space r of
                e # r' \<Rightarrow>
                  (if e = CHR ''}'' then Some (DObj [], r')
                   else map_option (apfst DObj) (json_members n (d - 1) r))
              | [] \<Rightarrow> None)
           else if c = CHR ''['' then
             (if d = 0 then None
              else case skip_space r of
                e # r' \<Rightarrow>
                  (if e = CHR '']'' then Some (DArr [], r')
                   else map_option (apfst DArr) (json_elems n (d - 1) r))
              | [] \<Rightarrow> None)
           else if c = CHR 0x22 then map_option (apfst DStr) (json_unescape r)
           else if c = CHR ''n'' then expect ''ull'' DNull r
           else if c = CHR ''t'' then expect ''rue'' (DBool True) r
           else if c = CHR ''f'' then expect ''alse'' (DBool False) r
           else map_option (apfst DNum) (json_number (c # r))))"
| "json_elems 0 d s = None"
| "json_elems (Suc n) d s =
     (case json_value n d s of
        None \<Rightarrow> None
      | Some (v, r) \<Rightarrow>
          (case skip_space r of
             [] \<Rightarrow> None
           | c # r' \<Rightarrow>
               (if c = CHR '','' then map_option (apfst ((#) v)) (json_elems n d r')
                else if c = CHR '']'' then Some ([v], r') else None)))"
| "json_members 0 d s = None"
| "json_members (Suc n) d s =
     (case skip_space s of
        [] \<Rightarrow> None
      | q # r \<Rightarrow>
          (if q \<noteq> CHR 0x22 then None
           else case json_unescape r of
             None \<Rightarrow> None
           | Some (key, r1) \<Rightarrow>
               (case skip_space r1 of
                  [] \<Rightarrow> None
                | c # r2 \<Rightarrow>
                    (if c \<noteq> CHR '':'' then None
                     else case json_value n d r2 of
                       None \<Rightarrow> None
                     | Some (v, r3) \<Rightarrow>
                         (case skip_space r3 of
                            [] \<Rightarrow> None
                          | e # r4 \<Rightarrow>
                              (if e = CHR '','' then map_option (apfst ((#) (key, v))) (json_members n d r4)
                               else if e = CHR ''}'' then Some ([(key, v)], r4) else None))))))"

definition max_nesting :: nat where
  "max_nesting = 10000"

definition json_parse :: "string \<Rightarrow> jdoc option" where
  "json_parse s =
     (case json_value (2 * length s) max_nesting s of
        Some (v, r) \<Rightarrow> (if skip_space r = [] then Some v else None)
      | None \<Rightarrow> None)"

end
