(* ===== verification/GoJson_Correct.thy ===== *)
theory GoJson_Correct
  imports GoJson
begin

text \<open>
  The texts of \<open>GoJson\<close> are right: the fuel of the reader is enough for every text, and a document
  that was written in either layout reads back as itself.
\<close>

section \<open>The fuel is enough\<close>

lemma json_digits_shorter:
  assumes "json_digits t = Some (ds, r)"
  shows "length r < length t"
proof -
  have "length t = length (takeWhile dec_digit t) + length (dropWhile dec_digit t)"
    by (metis length_append takeWhile_dropWhile_id)
  with assms show ?thesis by (auto simp: json_digits_def Let_def split: if_splits)
qed

lemma json_int_part_shorter: "json_int_part t = Some (ds, r) \<Longrightarrow> length r < length t"
  by (auto simp: json_int_part_def dest: json_digits_shorter split: list.splits if_splits)

lemma json_frac_part_shorter: "json_frac_part t = Some (ds, r) \<Longrightarrow> length r \<le> length t"
  by (fastforce simp: json_frac_part_def dest: json_digits_shorter split: list.splits if_splits)

lemma json_exp_part_shorter: "json_exp_part t = Some (e, r) \<Longrightarrow> length r \<le> length t"
  by (cases t) (auto simp: json_exp_part_def Let_def dest!: json_digits_shorter split: if_splits)

lemma json_sign_shorter: "json_sign s = (m, t) \<Longrightarrow> length t \<le> length s"
  by (auto simp: json_sign_def split: list.splits if_splits)

lemma json_number_shorter: "json_number s = Some (v, r) \<Longrightarrow> length r < length s"
  by (fastforce simp: json_number_def Let_def split: option.splits prod.splits if_splits
      dest: json_sign_shorter json_int_part_shorter json_frac_part_shorter json_exp_part_shorter)

lemma json_prepend_Some: "json_prepend x y = Some (b, r) \<longleftrightarrow> (\<exists>b'. y = Some (b', r) \<and> b = x @ b')"
  by (cases y) auto

lemma json_unescape_shorter: "json_unescape s = Some (b, r) \<Longrightarrow> length r < length s"
proof (induction s arbitrary: b r rule: json_unescape.induct)
  case (2 c s)
  consider "c = CHR 0x22" | "c = CHR 0x5C" | "c \<noteq> CHR 0x22" "c \<noteq> CHR 0x5C" "byte_val c < 128"
    | "c \<noteq> CHR 0x22" "c \<noteq> CHR 0x5C" "\<not> byte_val c < 128" by blast
  then show ?case
  proof cases
    case 1
    with 2(6) show ?thesis by (simp add: json_unescape.simps(2))
  next
    case 2: 2
    with "2.prems" "2.IH" show ?thesis
      by (fastforce simp: json_unescape.simps(2) [of "CHR 0x5C"] json_prepend_Some
          split: list.splits if_splits option.splits prod.splits dest: unescape_u_length)
  next
    case 3
    with 2(6) 2(3) show ?thesis
      by (fastforce simp: json_unescape.simps(2) json_prepend_Some split: if_splits)
  next
    case 4
    let ?w = "utf8_width (c # s)"
    from 4 2(6) obtain b' where r: "(if ?w = 0 then json_unescape s else json_unescape (drop ?w (c # s))) = Some (b', r)"
      and "\<not> byte_val c < 32"
      by (auto simp: json_unescape.simps(2) Let_def json_prepend_Some split: if_splits simp del: utf8_width.simps)
    with 4 2(4,5) [OF _ _ _ _ refl] have "length r < length s \<or> ?w \<noteq> 0 \<and> length r < length (drop ?w (c # s))"
      by (metis (full_types))
    then show ?thesis by (auto simp del: utf8_width.simps)
  qed
qed simp

text \<open>The reader goes on, and needs two units of fuel per byte that it takes.\<close>

lemma expect_Some: "expect w v s = Some (v', r) \<Longrightarrow> v' = v \<and> s = w @ r"
  by (metis append_take_drop_id expect_def option.distinct(1) option.inject prod.inject)

lemma skip_space_shorter: "length (skip_space s) \<le> length s"
  by (rule length_dropWhile_le)

lemma skip_space_Cons: "skip_space s = c # r \<Longrightarrow> length r < length s"
  using skip_space_shorter [of s] by simp

text \<open>What the reader does at a value: a bracket and what follows it, or a leaf.\<close>

lemma json_value_cases:
  assumes "json_value (Suc n) d s = Some (v, r)"
  obtains (leaf) "length r < length s" "\<And>m. json_value (Suc m) d s = Some (v, r)"
  | (obj) w ms where "length w < length s" "json_members n (d - 1) w = Some (ms, r)" "v = DObj ms"
      "\<And>m. json_value (Suc m) d s = map_option (apfst DObj) (json_members m (d - 1) w)"
  | (arr) w vs where "length w < length s" "json_elems n (d - 1) w = Some (vs, r)" "v = DArr vs"
      "\<And>m. json_value (Suc m) d s = map_option (apfst DArr) (json_elems m (d - 1) w)"
proof -
  from assms obtain c w where sk: "skip_space s = c # w" by (auto split: list.splits)
  note lw = skip_space_Cons [OF sk]
  consider "c = CHR ''{''" | "c = CHR ''[''" | "c \<noteq> CHR ''{''" "c \<noteq> CHR ''[''" by blast
  then show ?thesis
  proof cases
    case 1
    from assms sk 1 obtain e u where e: "d \<noteq> 0" "skip_space w = e # u" by (auto split: list.splits if_splits)
    show ?thesis
    proof (cases "e = CHR ''}''")
      case True
      with assms sk 1 e lw skip_space_Cons [OF e(2)] show ?thesis by (intro leaf) auto
    next
      case False
      with assms sk 1 e obtain ms where "json_members n (d - 1) w = Some (ms, r)" "v = DObj ms" by auto
      with False sk 1 e lw show ?thesis by (intro obj [of w ms]) auto
    qed
  next
    case 2
    from assms sk 2 obtain e u where e: "d \<noteq> 0" "skip_space w = e # u" by (auto split: list.splits if_splits)
    show ?thesis
    proof (cases "e = CHR '']''")
      case True
      with assms sk 2 e lw skip_space_Cons [OF e(2)] show ?thesis by (intro leaf) auto
    next
      case False
      with assms sk 2 e obtain vs where "json_elems n (d - 1) w = Some (vs, r)" "v = DArr vs" by auto
      with False sk 2 e lw show ?thesis by (intro arr [of w vs]) auto
    qed
  next
    case 3
    have "length r < length s"
      using assms sk 3 lw json_unescape_shorter [of w _ r] json_number_shorter [of "c # w" _ r] skip_space_shorter [of s]
      by (auto split: if_splits dest!: expect_Some)
    with assms sk 3 show ?thesis by (intro leaf) auto
  qed
qed

lemma json_fuel:
  "json_value n d s = Some (v, r) \<Longrightarrow>
     length r < length s \<and> (\<forall>m \<ge> 2 * (length s - length r). json_value m d s = Some (v, r))"
  "json_elems n d s = Some (vs, r) \<Longrightarrow>
     length r < length s \<and> (\<forall>m \<ge> 2 * (length s - length r). json_elems m d s = Some (vs, r))"
  "json_members n d s = Some (ms, r) \<Longrightarrow>
     length r < length s \<and> (\<forall>m \<ge> 2 * (length s - length r). json_members m d s = Some (ms, r))"
proof (induction n arbitrary: d s v r vs ms)
  case 0
  { case 1 then show ?case by simp }
  { case 2 then show ?case by simp }
  { case 3 then show ?case by simp }
next
  case (Suc n)
  {
    case 1
    then show ?case
    proof (cases rule: json_value_cases)
      case leaf
      have "json_value m d s = Some (v, r)" if "2 * (length s - length r) \<le> m" for m
        using leaf that by (cases m) auto
      with leaf show ?thesis by simp
    next
      case (obj w ms)
      note IH = Suc.IH(3) [OF obj(2)]
      have "json_value m d s = Some (v, r)" if m: "2 * (length s - length r) \<le> m" for m
        using obj IH m by (cases m) auto
      with obj IH show ?thesis by auto
    next
      case (arr w vs)
      note IH = Suc.IH(2) [OF arr(2)]
      have "json_value m d s = Some (v, r)" if m: "2 * (length s - length r) \<le> m" for m
        using arr IH m by (cases m) auto
      with arr IH show ?thesis by auto
    qed
  next
    case 2
    then obtain v r1 c r2 where v: "json_value n d s = Some (v, r1)" "skip_space r1 = c # r2"
      by (auto split: option.splits list.splits)
    note IH = Suc.IH(1) [OF v(1)] and lt = skip_space_Cons [OF v(2)]
    show ?case
    proof (cases "c = CHR '',''")
      case True
      with 2 v obtain us where us: "json_elems n d r2 = Some (us, r)" "vs = v # us" by auto
      note IH2 = Suc.IH(2) [OF us(1)]
      have "json_elems m d s = Some (vs, r)" if m: "2 * (length s - length r) \<le> m" for m
      proof (cases m)
        case (Suc k)
        with m IH lt IH2 have "2 * (length s - length r1) \<le> k" "2 * (length r2 - length r) \<le> k" by auto
        with IH IH2 v(2) True us(2) Suc show ?thesis by simp
      qed (use m IH lt IH2 in auto)
      with IH lt IH2 show ?thesis by auto
    next
      case False
      with 2 v have r: "c = CHR '']''" "r2 = r" "vs = [v]" by (auto split: if_splits)
      have "json_elems m d s = Some (vs, r)" if m: "2 * (length s - length r) \<le> m" for m
      proof (cases m)
        case (Suc k)
        with m IH lt r have "2 * (length s - length r1) \<le> k" by auto
        with IH v(2) r Suc show ?thesis by simp
      qed (use m IH lt r in auto)
      with IH lt r show ?thesis by auto
    qed
  next
    case 3
    then obtain u key r1 r2 v r3 c r4 where
      k: "skip_space s = CHR 0x22 # u" "json_unescape u = Some (key, r1)" "skip_space r1 = CHR '':'' # r2" and
      v: "json_value n d r2 = Some (v, r3)" "skip_space r3 = c # r4"
      by (auto split: option.splits list.splits if_splits)
    note IH = Suc.IH(1) [OF v(1)]
      and lt = skip_space_Cons [OF k(1)] json_unescape_shorter [OF k(2)] skip_space_Cons [OF k(3)] skip_space_Cons [OF v(2)]
    show ?case
    proof (cases "c = CHR '',''")
      case True
      with 3 k v obtain us where us: "json_members n d r4 = Some (us, r)" "ms = (key, v) # us" by auto
      note IH2 = Suc.IH(3) [OF us(1)]
      have "json_members m d s = Some (ms, r)" if m: "2 * (length s - length r) \<le> m" for m
      proof (cases m)
        case (Suc l)
        with m IH lt IH2 have "2 * (length r2 - length r3) \<le> l" "2 * (length r4 - length r) \<le> l" by auto
        with IH IH2 k v(2) True us(2) Suc show ?thesis by simp
      qed (use m IH lt IH2 in auto)
      with IH lt IH2 show ?thesis by auto
    next
      case False
      with 3 k v have r: "c = CHR ''}''" "r4 = r" "ms = [(key, v)]" by (auto split: if_splits)
      have "json_members m d s = Some (ms, r)" if m: "2 * (length s - length r) \<le> m" for m
      proof (cases m)
        case (Suc l)
        with m IH lt r have "2 * (length r2 - length r3) \<le> l" by auto
        with IH k v(2) r Suc show ?thesis by simp
      qed (use m IH lt r in auto)
      with IH lt r show ?thesis by auto
    qed
  }
qed

text \<open>So \<open>json_parse\<close> finds what any amount of fuel finds.\<close>

lemma json_parse_complete:
  assumes "json_value n max_nesting s = Some (v, r)" "skip_space r = []"
  shows "json_parse s = Some v"
  using json_fuel(1) [OF assms(1)] assms(2) by (simp add: json_parse_def)

section \<open>Reading back what was written\<close>

text \<open>Given enough fuel.\<close>

definition reads_value :: "nat \<Rightarrow> string \<Rightarrow> jdoc \<Rightarrow> string \<Rightarrow> bool" where
  "reads_value d s v r \<longleftrightarrow> (\<exists>N. \<forall>m \<ge> N. json_value m d s = Some (v, r))"

definition reads_elems :: "nat \<Rightarrow> string \<Rightarrow> jdoc list \<Rightarrow> string \<Rightarrow> bool" where
  "reads_elems d s vs r \<longleftrightarrow> (\<exists>N. \<forall>m \<ge> N. json_elems m d s = Some (vs, r))"

definition reads_members :: "nat \<Rightarrow> string \<Rightarrow> (string \<times> jdoc) list \<Rightarrow> string \<Rightarrow> bool" where
  "reads_members d s ms r \<longleftrightarrow> (\<exists>N. \<forall>m \<ge> N. json_members m d s = Some (ms, r))"

lemma reads_leaf:
  assumes "\<And>m. json_value (Suc m) d s = Some (v, r)"
  shows "reads_value d s v r"
  unfolding reads_value_def using assms by (intro exI [of _ 1]) (metis One_nat_def Suc_le_D)

lemma enough_step: "(\<exists>N. \<forall>m \<ge> N. Q m) \<Longrightarrow> (\<And>m. Q m \<Longrightarrow> P (Suc m)) \<Longrightarrow> (\<exists>N. \<forall>m \<ge> N. P m)"
  by (metis Suc_le_D Suc_le_mono)

lemma enough_both: "(\<exists>N. \<forall>m \<ge> N. P m) \<Longrightarrow> (\<exists>N. \<forall>m \<ge> N. Q m) \<Longrightarrow> (\<exists>N. \<forall>m \<ge> (N :: nat). P m \<and> Q m)"
  by (metis le_cases order_trans)

lemma reads_arr:
  assumes "d \<noteq> 0" "skip_space s = CHR ''['' # w" "skip_space w = e # u" "e \<noteq> CHR '']''" "reads_elems (d - 1) w vs r"
  shows "reads_value d s (DArr vs) r"
  unfolding reads_value_def
  by (rule enough_step [OF assms(5) [unfolded reads_elems_def]]) (use assms(1-4) in simp)

lemma reads_obj:
  assumes "d \<noteq> 0" "skip_space s = CHR ''{'' # w" "skip_space w = e # u" "e \<noteq> CHR ''}''" "reads_members (d - 1) w ms r"
  shows "reads_value d s (DObj ms) r"
  unfolding reads_value_def
  by (rule enough_step [OF assms(5) [unfolded reads_members_def]]) (use assms(1-4) in simp)

lemma reads_last_elem:
  assumes "reads_value d s v r1" "skip_space r1 = CHR '']'' # r"
  shows "reads_elems d s [v] r"
  unfolding reads_elems_def
  by (rule enough_step [OF assms(1) [unfolded reads_value_def]]) (use assms(2) in simp)

lemma reads_more_elems:
  assumes "reads_value d s v r1" "skip_space r1 = CHR '','' # r2" "reads_elems d r2 vs r"
  shows "reads_elems d s (v # vs) r"
  unfolding reads_elems_def
  by (rule enough_step [OF enough_both [OF assms(1) [unfolded reads_value_def] assms(3) [unfolded reads_elems_def]]])
    (use assms(2) in simp)

lemma reads_last_member:
  assumes "skip_space s = CHR 0x22 # u" "json_unescape u = Some (key, r0)" "skip_space r0 = CHR '':'' # r1"
    and "reads_value d r1 v r2" "skip_space r2 = CHR ''}'' # r"
  shows "reads_members d s [(key, v)] r"
  unfolding reads_members_def
  by (rule enough_step [OF assms(4) [unfolded reads_value_def]]) (use assms(1-3,5) in simp)

lemma reads_more_members:
  assumes "skip_space s = CHR 0x22 # u" "json_unescape u = Some (key, r0)" "skip_space r0 = CHR '':'' # r1"
    and "reads_value d r1 v r2" "skip_space r2 = CHR '','' # r3" "reads_members d r3 ms r"
  shows "reads_members d s ((key, v) # ms) r"
  unfolding reads_members_def
  by (rule enough_step [OF enough_both [OF assms(4) [unfolded reads_value_def] assms(6) [unfolded reads_members_def]]])
    (use assms(1-3,5) in simp)

text \<open>A document with its strings made valid UTF-8; documents nested at most \<open>d\<close> deep, whose
  numbers are texts of numbers.\<close>

primrec jdoc_valid :: "jdoc \<Rightarrow> jdoc" where
  "jdoc_valid DNull = DNull"
| "jdoc_valid (DBool b) = DBool b"
| "jdoc_valid (DNum lit) = DNum lit"
| "jdoc_valid (DStr s) = DStr (to_valid s)"
| "jdoc_valid (DArr vs) = DArr (map jdoc_valid vs)"
| "jdoc_valid (DObj ms) = DObj (map (map_prod to_valid id) (map (map_prod id jdoc_valid) ms))"

primrec writable :: "jdoc \<Rightarrow> nat \<Rightarrow> bool" where
  "writable DNull = (\<lambda>d. True)"
| "writable (DBool b) = (\<lambda>d. True)"
| "writable (DNum lit) = (\<lambda>d. number_text lit)"
| "writable (DStr s) = (\<lambda>d. True)"
| "writable (DArr vs) = (\<lambda>d. d \<noteq> 0 \<and> list_all (\<lambda>p. p (d - 1)) (map writable vs))"
| "writable (DObj ms) = (\<lambda>d. d \<noteq> 0 \<and> list_all (\<lambda>(k, p). p (d - 1)) (map (map_prod id writable) ms))"

lemma skip_space_gap: "list_all json_space g \<Longrightarrow> skip_space (g @ s) = skip_space s"
  by (induction g) auto

lemma not_space [simp]:
  "\<not> json_space (CHR ''['')" "\<not> json_space (CHR '']'')" "\<not> json_space (CHR ''{'')" "\<not> json_space (CHR ''}'')"
  "\<not> json_space (CHR '','')" "\<not> json_space (CHR '':'')" "\<not> json_space (CHR 0x22)"
  "\<not> json_space (CHR ''n'')" "\<not> json_space (CHR ''t'')" "\<not> json_space (CHR ''f'')" "\<not> json_space (CHR ''-'')"
  by (simp_all add: json_space_def)

lemma number_text_start:
  assumes "number_text lit"
  obtains c t where "lit = c # t" "\<not> json_space c"
    "c \<notin> {CHR ''['', CHR '']'', CHR ''{'', CHR ''}'', CHR 0x22, CHR ''n'', CHR ''t'', CHR ''f''}"
proof -
  from assms json_number_hd [of lit] obtain c t where c: "lit = c # t" "c = CHR ''-'' \<or> dec_digit c"
    by (auto simp: number_text_def)
  show ?thesis by (rule that [OF c(1)]) (use c(2) in \<open>auto simp: dec_digit_def json_space_def\<close>)
qed

lemma json_print_hd:
  assumes "writable v d"
  shows "\<exists>c t. json_print g col k v = c # t \<and> \<not> json_space c \<and> c \<noteq> CHR '']'' \<and> c \<noteq> CHR ''}''"
proof (cases v)
  case (DNum lit)
  with assms obtain c t where "lit = c # t" "\<not> json_space c"
    "c \<notin> {CHR ''['', CHR '']'', CHR ''{'', CHR ''}'', CHR 0x22, CHR ''n'', CHR ''t'', CHR ''f''}"
    using number_text_start by auto
  with DNum show ?thesis by simp
qed (use assms in \<open>auto simp: json_quote_def\<close>)

lemma ends_number_gap:
  "list_all json_space g \<Longrightarrow> c \<in> {CHR '','', CHR '']'', CHR ''}''} \<Longrightarrow> ends_number (g @ c # r)"
  by (cases g) (auto simp: ends_number_def dec_digit_def json_space_def)

text \<open>With gaps of white space between the tokens, and in front.\<close>

lemma reads_print_elems:
  assumes g: "\<And>k. list_all json_space (g k)" and "vs \<noteq> []"
    and v: "\<And>v gap r. v \<in> set vs \<Longrightarrow> ends_number r \<Longrightarrow> list_all json_space gap \<Longrightarrow>
      reads_value d (gap @ json_print g col (Suc k) v @ r) (jdoc_valid v) r"
  shows "reads_elems d (print_elems g col k vs @ g k @ CHR '']'' # r) (map jdoc_valid vs) r"
  using assms(2) v
proof (induction vs)
  case (Cons v vs)
  show ?case
  proof (cases "vs = []")
    case True
    have v: "reads_value d (g (Suc k) @ json_print g col (Suc k) v @ g k @ CHR '']'' # r) (jdoc_valid v) (g k @ CHR '']'' # r)"
      by (rule Cons.prems(2)) (auto intro: g ends_number_gap)
    have "skip_space (g k @ CHR '']'' # r) = CHR '']'' # r" by (simp add: skip_space_gap g)
    from reads_last_elem [OF v this] True show ?thesis by simp
  next
    case False
    let ?t = "print_elems g col k vs @ g k @ CHR '']'' # r"
    have v: "reads_value d (g (Suc k) @ json_print g col (Suc k) v @ CHR '','' # ?t) (jdoc_valid v) (CHR '','' # ?t)"
      using ends_number_gap [of "[]" "CHR '',''" ?t] by (intro Cons.prems(2)) (auto intro: g)
    have "reads_elems d ?t (map jdoc_valid vs) r" by (rule Cons.IH [OF False Cons.prems(2)]) simp_all
    from reads_more_elems [OF v _ this] False show ?thesis by simp
  qed
qed simp

lemma reads_print_members:
  assumes g: "\<And>k. list_all json_space (g k)" "list_all json_space col" and "ms \<noteq> []"
    and v: "\<And>key v gap r. (key, v) \<in> set ms \<Longrightarrow> ends_number r \<Longrightarrow> list_all json_space gap \<Longrightarrow>
      reads_value d (gap @ json_print g col (Suc k) v @ r) (jdoc_valid v) r"
  shows "reads_members d (print_members g col k ms @ g k @ CHR ''}'' # r)
    (map (map_prod to_valid jdoc_valid) ms) r"
  using assms(3) v
proof (induction ms)
  case (Cons m ms)
  obtain key v where m: "m = (key, v)" by fastforce
  have start: "skip_space (g (Suc k) @ json_quote key @ t) = CHR 0x22 # json_escape key @ CHR 0x22 # t" for t
    by (simp add: skip_space_gap g(1) json_quote_def)
  show ?case
  proof (cases "ms = []")
    case True
    have v: "reads_value d (col @ json_print g col (Suc k) v @ g k @ CHR ''}'' # r) (jdoc_valid v) (g k @ CHR ''}'' # r)"
      by (rule Cons.prems(2) [of key]) (auto simp: m intro: g ends_number_gap)
    have "reads_members d (g (Suc k) @ json_quote key @ CHR '':'' # col @ json_print g col (Suc k) v @ g k @ CHR ''}'' # r)
        [(to_valid key, jdoc_valid v)] r"
      by (rule reads_last_member [OF start json_unescape_escape _ v]) (simp_all add: skip_space_gap g(1))
    then show ?thesis using True by (simp add: m)
  next
    case False
    let ?t = "print_members g col k ms @ g k @ CHR ''}'' # r"
    have v: "reads_value d (col @ json_print g col (Suc k) v @ CHR '','' # ?t) (jdoc_valid v) (CHR '','' # ?t)"
      using ends_number_gap [of "[]" "CHR '',''" ?t] by (intro Cons.prems(2) [of key]) (auto simp: m intro: g)
    have ih: "reads_members d ?t (map (map_prod to_valid jdoc_valid) ms) r"
      by (rule Cons.IH [OF False]) (rule Cons.prems(2), auto)
    have "reads_members d (g (Suc k) @ json_quote key @ CHR '':'' # col @ json_print g col (Suc k) v @ CHR '','' # ?t)
        ((to_valid key, jdoc_valid v) # map (map_prod to_valid jdoc_valid) ms) r"
      by (rule reads_more_members [OF start json_unescape_escape _ v _ ih]) simp_all
    then show ?thesis using False by (simp add: m)
  qed
qed simp

lemma reads_print:
  assumes g: "\<And>k. list_all json_space (g k)" "list_all json_space col"
  shows "writable v d \<Longrightarrow> ends_number r \<Longrightarrow> list_all json_space gap \<Longrightarrow>
    reads_value d (gap @ json_print g col k v @ r) (jdoc_valid v) r"
proof (induction v arbitrary: d k r gap)
  case (DNum lit)
  from DNum.prems(1) obtain c t where c: "lit = c # t" "\<not> json_space c"
    "c \<notin> {CHR ''['', CHR '']'', CHR ''{'', CHR ''}'', CHR 0x22, CHR ''n'', CHR ''t'', CHR ''f''}"
    using number_text_start by auto
  from json_number_text [OF _ DNum(2), of lit] DNum.prems(1) c DNum(3) show ?case
    by (intro reads_leaf) (auto simp: skip_space_gap)
next
  case (DStr s)
  then show ?case
    by (intro reads_leaf) (simp add: skip_space_gap json_quote_def json_unescape_escape)
next
  case (DArr vs)
  show ?case
  proof (cases "vs = []")
    case True
    with DArr show ?thesis by (intro reads_leaf) (simp add: skip_space_gap)
  next
    case False
    from DArr.prems have d: "d \<noteq> 0" "\<And>v. v \<in> set vs \<Longrightarrow> writable v (d - 1)" by (auto simp: list_all_iff)
    have e: "reads_elems (d - 1) (print_elems g col k vs @ g k @ CHR '']'' # r) (map jdoc_valid vs) r"
      by (rule reads_print_elems [OF g(1) False DArr.IH]) (use d(2) in simp_all)
    obtain w ws where vs: "vs = w # ws" using False by (cases vs) auto
    with d(2) json_print_hd obtain c t where c: "json_print g col (Suc k) w = c # t" "\<not> json_space c" "c \<noteq> CHR '']''"
      by (metis list.set_intros(1))
    let ?in = "print_elems g col k vs @ g k @ CHR '']'' # r"
    have "reads_value d (gap @ CHR ''['' # ?in) (DArr (map jdoc_valid vs)) r"
      by (rule reads_arr [OF d(1) _ _ c(3) e, where u = "drop 1 (skip_space ?in)"])
        (use c DArr.prems(3) in \<open>simp_all add: skip_space_gap g(1) vs\<close>)
    with False show ?thesis by simp
  qed
next
  case (DObj ms)
  show ?case
  proof (cases "ms = []")
    case True
    with DObj show ?thesis by (intro reads_leaf) (simp add: skip_space_gap)
  next
    case False
    from DObj.prems have d: "d \<noteq> 0" "\<And>k v. (k, v) \<in> set ms \<Longrightarrow> writable v (d - 1)" by (auto simp: list_all_iff)
    have e: "reads_members (d - 1) (print_members g col k ms @ g k @ CHR ''}'' # r) (map (map_prod to_valid jdoc_valid) ms) r"
      by (rule reads_print_members [OF g False DObj.IH]) (use d(2) in auto)
    let ?in = "print_members g col k ms @ g k @ CHR ''}'' # r"
    obtain u where u: "skip_space ?in = CHR 0x22 # u"
      using False by (cases ms) (auto simp: skip_space_gap [OF g(1)] json_quote_def)
    have "reads_value d (gap @ CHR ''{'' # ?in) (DObj (map (map_prod to_valid jdoc_valid) ms)) r"
      by (rule reads_obj [OF d(1) _ u _ e]) (use DObj.prems(3) in \<open>simp_all add: skip_space_gap\<close>)
    with False show ?thesis by (simp add: o_def map_prod_def case_prod_unfold)
  qed
qed (simp_all add: reads_leaf skip_space_gap expect_def)

text \<open>\<open>Unmarshal\<close> after \<open>Marshal\<close>, and after \<open>MarshalIndent\<close>.\<close>

lemma json_parse_print:
  assumes "\<And>k. list_all json_space (g k)" "list_all json_space col" "writable v max_nesting"
  shows "json_parse (json_print g col k v) = Some (jdoc_valid v)"
proof -
  have "reads_value max_nesting ([] @ json_print g col k v @ []) (jdoc_valid v) []"
    by (rule reads_print) (simp_all add: assms ends_number_def)
  then obtain N where "json_value N max_nesting (json_print g col k v) = Some (jdoc_valid v, [])"
    by (auto simp: reads_value_def)
  from json_parse_complete [OF this] show ?thesis by simp
qed

lemma json_parse_text: "writable v max_nesting \<Longrightarrow> json_parse (json_text v) = Some (jdoc_valid v)"
  unfolding json_text_def by (rule json_parse_print) simp_all

lemma json_parse_indent: "writable v max_nesting \<Longrightarrow> json_parse (json_indent v) = Some (jdoc_valid v)"
  unfolding json_indent_def by (rule json_parse_print) (simp_all add: json_space_def list_all_iff)

end
