(* ===== verification/GoRfc3339.thy ===== *)
theory GoRfc3339
  imports GoTime GoDecimal "HOL-Library.Monad_Syntax"
begin

text \<open>
  The text of a \<open>time.Time\<close> in JSON, RFC 3339 with up to nine fractional digits, and the reading of
  such texts. A time is in UTC, as the program makes them; the calendar is the proleptic
  Gregorian one.
\<close>

section \<open>The calendar\<close>

definition leap_year :: "int \<Rightarrow> bool" where
  "leap_year y \<longleftrightarrow> y mod 4 = 0 \<and> (y mod 100 \<noteq> 0 \<or> y mod 400 = 0)"

text \<open>Days from the epoch to the start of a year, and the year of a day: an estimate from the mean
  length of a year, off by one at most.\<close>

definition days_before_year :: "int \<Rightarrow> int" where
  "days_before_year y =
     365 * (y - 1970) + ((y - 1) div 4 - (y - 1) div 100 + (y - 1) div 400 - 477)"

definition year_of_day :: "int \<Rightarrow> int" where
  "year_of_day n =
     (let e = 1970 + (400 * n) div 146097
      in if n < days_before_year e then e - 1 else if days_before_year (e + 1) \<le> n then e + 1 else e)"

lemma days_before_year_bounds:
  "400 * days_before_year y \<le> 146097 * (y - 1970) + 593"
  "146097 * (y - 1970) - 607 \<le> 400 * days_before_year y"
proof -
  obtain q4 q100 q400 r4 r100 r400 where
    r: "y - 1 = 4 * q4 + r4" "y - 1 = 100 * q100 + r100" "y - 1 = 400 * q400 + r400"
      "0 \<le> r4" "r4 \<le> 3" "0 \<le> r100" "r100 \<le> 99" "0 \<le> r400" "r400 \<le> 399" and
    q: "days_before_year y = 365 * (y - 1970) + (q4 - q100 + q400 - 477)"
  proof
    show "y - 1 = 4 * ((y - 1) div 4) + (y - 1) mod 4" "y - 1 = 100 * ((y - 1) div 100) + (y - 1) mod 100"
      "y - 1 = 400 * ((y - 1) div 400) + (y - 1) mod 400" by simp_all
    show "days_before_year y = 365 * (y - 1970) + ((y - 1) div 4 - (y - 1) div 100 + (y - 1) div 400 - 477)"
      by (rule days_before_year_def)
    show "(y - 1) mod 4 \<le> 3" "(y - 1) mod 100 \<le> 99" "(y - 1) mod 400 \<le> 399"
      using pos_mod_bound [of 4 "y - 1"] pos_mod_bound [of 100 "y - 1"] pos_mod_bound [of 400 "y - 1"] by simp_all
  qed simp_all
  show "400 * days_before_year y \<le> 146097 * (y - 1970) + 593" unfolding q right_diff_distrib distrib_left using r by linarith
  show "146097 * (y - 1970) - 607 \<le> 400 * days_before_year y" unfolding q right_diff_distrib distrib_left using r by linarith
qed

lemma year_of_day:
  "days_before_year (year_of_day n) \<le> n" "n < days_before_year (year_of_day n + 1)"
proof -
  define q where "q = (400 * n) div 146097"
  define e where "e = 1970 + q"
  obtain r where "400 * n = 146097 * q + r" "0 \<le> r" "r < 146097"
    by (rule that [of "(400 * n) mod 146097"]) (simp_all add: q_def)
  then have e: "146097 * (e - 1970) \<le> 400 * n" "400 * n < 146097 * (e - 1970) + 146097"
    by (simp_all add: e_def)
  have "days_before_year (e - 1) \<le> n" "n < days_before_year (e + 2)"
    using e days_before_year_bounds(1) [of "e - 1"] days_before_year_bounds(2) [of "e + 2"]
    unfolding right_diff_distrib distrib_left by linarith+
  then show "days_before_year (year_of_day n) \<le> n" "n < days_before_year (year_of_day n + 1)"
    unfolding year_of_day_def Let_def q_def [symmetric] e_def [symmetric] by (auto simp: add.commute)
qed

lemma leap_year_div:
  "y div 4 - (y - 1) div 4 - (y div 100 - (y - 1) div 100) + (y div 400 - (y - 1) div 400)
     = (if leap_year y then 1 else 0)" for y :: int
proof -
  have step: "y div k - (y - 1) div k = (if y mod k = 0 then 1 else 0)" if k: "1 < k" for k :: int
  proof (cases "y mod k = 0")
    case True
    then have "y - 1 = k * (y div k - 1) + (k - 1)"
      using mult_div_mod_eq [of k y] by (simp add: algebra_simps)
    from int_div_pos_eq [OF this] k True show ?thesis by simp
  next
    case False
    have "y - 1 = k * (y div k) + (y mod k - 1)" by simp
    moreover have "0 \<le> y mod k - 1" "y mod k - 1 < k"
      using pos_mod_sign [of k y] pos_mod_bound [of k y] k False by linarith+
    ultimately have "(y - 1) div k = y div k" by (rule int_div_pos_eq)
    with False show ?thesis by simp
  qed
  have "y mod 400 mod 100 = y mod 100" "y mod 100 mod 4 = y mod 4" by (rule mod_mod_cancel; simp)+
  then have m: "y mod 400 = 0 \<Longrightarrow> y mod 100 = 0" "y mod 100 = 0 \<Longrightarrow> y mod 4 = 0" by auto
  have "y div 4 - (y - 1) div 4 = (if y mod 4 = 0 then 1 else 0)"
    "y div 100 - (y - 1) div 100 = (if y mod 100 = 0 then 1 else 0)"
    "y div 400 - (y - 1) div 400 = (if y mod 400 = 0 then 1 else 0)" by (rule step; simp)+
  note steps = this
  have "(if p4 then 1 else 0) - (if p100 then 1 else 0) + (if p400 then 1 else 0)
      = (if p4 \<and> (\<not> p100 \<or> p400) then 1 else (0 :: int))" if "p400 \<Longrightarrow> p100" "p100 \<Longrightarrow> p4" for p4 p100 p400
    by (cases p400; cases p100; cases p4) (use that in simp_all)
  from this [of "y mod 400 = 0" "y mod 100 = 0" "y mod 4 = 0", OF m]
  show ?thesis unfolding steps leap_year_def .
qed

definition month_lengths :: "int \<Rightarrow> int list" where
  "month_lengths y = [31, if leap_year y then 29 else 28, 31, 30, 31, 30, 31, 31, 30, 31, 30, 31]"

lemma year_length: "days_before_year (y + 1) = days_before_year y + sum_list (month_lengths y)"
proof -
  have "sum_list (month_lengths y) = 365 + (if leap_year y then 1 else 0)" by (simp add: month_lengths_def)
  moreover have "days_before_year (y + 1) = 365 * (y + 1 - 1970) + (y div 4 - y div 100 + y div 400 - 477)"
    by (simp add: days_before_year_def)
  moreover obtain a b c a' b' c' where "y div 4 = a" "y div 100 = b" "y div 400 = c"
    "(y - 1) div 4 = a'" "(y - 1) div 100 = b'" "(y - 1) div 400 = c'" by blast
  ultimately show ?thesis using leap_year_div [of y] unfolding days_before_year_def [of y] by (simp only:) simp
qed

text \<open>The month and the day in it, of a day of the year.\<close>

fun split_month :: "int list \<Rightarrow> int \<Rightarrow> nat \<times> int" where
  "split_month [] d = (0, d)"
| "split_month (l # ls) d = (if d < l then (0, d) else (case split_month ls (d - l) of (m, d) \<Rightarrow> (Suc m, d)))"

lemma split_month:
  assumes "0 \<le> d" "d < sum_list ls" "split_month ls d = (m, k)"
  shows "m < length ls" "0 \<le> k" "k < ls ! m" "sum_list (take m ls) + k = d"
proof -
  have "m < length ls \<and> 0 \<le> k \<and> k < ls ! m \<and> sum_list (take m ls) + k = d"
    using assms
  proof (induction ls arbitrary: d m k)
    case (Cons l ls)
    show ?case
    proof (cases "d < l")
      case False
      obtain m' k' where s: "split_month ls (d - l) = (m', k')" by fastforce
      from Cons.IH [OF _ _ s] False Cons.prems s show ?thesis by auto
    qed (use Cons.prems in simp)
  qed simp
  then show "m < length ls" "0 \<le> k" "k < ls ! m" "sum_list (take m ls) + k = d" by simp_all
qed

section \<open>Writing\<close>

text \<open>\<open>appendStrictRFC3339\<close>: the nanoseconds without trailing zeros; no text for a year that has not
  four digits.\<close>

definition nanos_text :: "nat \<Rightarrow> string" where
  "nanos_text f = (if f = 0 then [] else ''.'' @ rev (dropWhile (\<lambda>c. c = CHR ''0'') (rev (digits 9 f))))"

definition date_text :: "int \<Rightarrow> string" where
  "date_text n =
     (let y = year_of_day n
      in case split_month (month_lengths y) (n - days_before_year y) of (m, d) \<Rightarrow>
           digits 4 (nat y) @ ''-'' @ digits 2 (Suc m) @ ''-'' @ digits 2 (Suc (nat d)))"

definition clock_text :: "int \<Rightarrow> string" where
  "clock_text s =
     digits 2 (nat (s div 3600)) @ '':'' @ digits 2 (nat (s div 60 mod 60)) @ '':'' @ digits 2 (nat (s mod 60))"

definition day_of :: "time \<Rightarrow> int" where
  "day_of t = t div nanos_per_second div 86400"

definition json_time :: "time \<Rightarrow> bool" where
  "json_time t \<longleftrightarrow> 0 \<le> year_of_day (day_of t) \<and> year_of_day (day_of t) \<le> 9999"

definition rfc3339 :: "time \<Rightarrow> string" where
  "rfc3339 t =
     date_text (day_of t) @ ''T'' @ clock_text (t div nanos_per_second mod 86400)
     @ nanos_text (nat (t mod nanos_per_second)) @ ''Z''"

section \<open>Reading\<close>

text \<open>\<open>parseRFC3339\<close>: numbers of fixed width within bounds, an optional fraction of which nine digits
  count, and a zone.\<close>

definition scan_num :: "nat \<Rightarrow> nat \<Rightarrow> nat \<Rightarrow> string \<Rightarrow> (int \<times> string) option" where
  "scan_num w lo hi s =
     (let ds = take w s; v = digits_val ds
      in if length ds = w \<and> list_all dec_digit ds \<and> lo \<le> v \<and> v \<le> hi then Some (int v, drop w s) else None)"

definition scan_char :: "char \<Rightarrow> string \<Rightarrow> string option" where
  "scan_char c s = (case s of x # r \<Rightarrow> (if x = c then Some r else None) | [] \<Rightarrow> None)"

definition scan_nanos :: "string \<Rightarrow> int \<times> string" where
  "scan_nanos s =
     (case s of
        p # r \<Rightarrow>
          (let ds = takeWhile dec_digit r
           in if p = CHR ''.'' \<and> ds \<noteq> []
              then (int (digits_val (take 9 (ds @ replicate 9 (CHR ''0'')))), dropWhile dec_digit r)
              else (0, s))
      | [] \<Rightarrow> (0, s))"

definition scan_zone :: "string \<Rightarrow> int option" where
  "scan_zone s =
     (if s = ''Z'' then Some 0
      else case s of
        sign # r \<Rightarrow>
          (if sign = CHR ''+'' \<or> sign = CHR ''-'' then
             do {
               (h, r) \<leftarrow> scan_num 2 0 23 r;
               r \<leftarrow> scan_char (CHR '':'') r;
               (m, r) \<leftarrow> scan_num 2 0 59 r;
               if r = [] then Some ((if sign = CHR ''-'' then - 1 else 1) * (h * 60 + m) * 60) else None
             }
           else None)
      | [] \<Rightarrow> None)"

definition parse_rfc3339 :: "string \<Rightarrow> time option" where
  "parse_rfc3339 s =
     do {
       (y, s) \<leftarrow> scan_num 4 0 9999 s;
       s \<leftarrow> scan_char (CHR ''-'') s;
       (m, s) \<leftarrow> scan_num 2 1 12 s;
       s \<leftarrow> scan_char (CHR ''-'') s;
       (d, s) \<leftarrow> scan_num 2 1 (nat (month_lengths y ! nat (m - 1))) s;
       s \<leftarrow> scan_char (CHR ''T'') s;
       (hh, s) \<leftarrow> scan_num 2 0 23 s;
       s \<leftarrow> scan_char (CHR '':'') s;
       (mm, s) \<leftarrow> scan_num 2 0 59 s;
       s \<leftarrow> scan_char (CHR '':'') s;
       (ss, s) \<leftarrow> scan_num 2 0 59 s;
       case scan_nanos s of (ns, s) \<Rightarrow>
         do {
           off \<leftarrow> scan_zone s;
           Some (nanos_per_second *
             (86400 * (days_before_year y + sum_list (take (nat (m - 1)) (month_lengths y)) + (d - 1))
              + 3600 * hh + 60 * mm + ss - off) + ns)
         }
     }"

section \<open>What is written reads back\<close>

lemma scan_num_digits [simp]:
  "lo \<le> n \<Longrightarrow> n \<le> hi \<Longrightarrow> n < 10 ^ w \<Longrightarrow> scan_num w lo hi (digits w n @ s) = Some (int n, s)"
  by (simp add: scan_num_def digits_val_digits)

lemma scan_num_int:
  assumes "0 \<le> n" "int lo \<le> n" "n \<le> int hi" "n < 10 ^ w"
  shows "scan_num w lo hi (digits w (nat n) @ s) = Some (n, s)"
proof -
  have "nat n < 10 ^ w" using assms(1,4) by (simp add: nat_less_iff)
  moreover have "lo \<le> nat n" "nat n \<le> hi" using assms(1-3) by linarith+
  ultimately show ?thesis using assms(1) by simp
qed

lemma scan_char_Cons [simp]: "scan_char c (c # s) = Some s"
  by (simp add: scan_char_def)

lemma strip_zeros:
  "length s = w \<Longrightarrow> take w (rev (dropWhile (\<lambda>c. c = z) (rev s)) @ replicate w z) = s"
proof -
  assume w: "length s = w"
  let ?z = "takeWhile (\<lambda>c. c = z) (rev s)" and ?r = "dropWhile (\<lambda>c. c = z) (rev s)"
  have z: "?z = replicate (length ?z) z"
    by (rule replicate_eqI [symmetric, THEN sym]) (auto dest: set_takeWhileD)
  have s: "s = rev ?r @ rev ?z" by (metis rev_append rev_rev_ident takeWhile_dropWhile_id)
  have "length ?r + length ?z = w" using w by (metis length_append length_rev add.commute takeWhile_dropWhile_id)
  then have "take w (rev ?r @ replicate w z) = rev ?r @ replicate (length ?z) z" by simp
  also have "\<dots> = s" using s z by (metis rev_replicate)
  finally show ?thesis .
qed

lemma scan_nanos_text:
  assumes "f < 10 ^ 9"
  shows "scan_nanos (nanos_text f @ ''Z'') = (int f, ''Z'')"
proof (cases "f = 0")
  case True
  then show ?thesis by (simp add: scan_nanos_def nanos_text_def)
next
  case False
  let ?s = "rev (dropWhile (\<lambda>c. c = CHR ''0'') (rev (digits 9 f)))"
  have strip: "take 9 (?s @ replicate 9 (CHR ''0'')) = digits 9 f" by (rule strip_zeros) simp
  have all: "list_all dec_digit ?s"
    using digits_are_digits [of 9 f] by (auto simp: list_all_iff dest: set_dropWhileD)
  have ne: "?s \<noteq> []"
  proof
    assume "?s = []"
    with strip have "digits 9 f = replicate 9 (CHR ''0'')" by (simp only: append.simps take_all length_replicate)
    then have "digits_val (digits 9 f) = digits_val (replicate 9 (CHR ''0''))" by simp
    also have "\<dots> = 0" by code_simp
    finally show False using False assms by (simp add: digits_val_digits)
  qed
  have "takeWhile dec_digit (?s @ ''Z'') = ?s" "dropWhile dec_digit (?s @ ''Z'') = ''Z''"
    using all by (simp_all add: list_all_iff takeWhile_append dropWhile_append dec_digit_def)
  then show ?thesis
    using False ne strip assms unfolding nanos_text_def scan_nanos_def by (simp add: digits_val_digits)
qed

theorem parse_rfc3339_text:
  assumes "json_time t"
  shows "parse_rfc3339 (rfc3339 t) = Some t"
proof -
  define n where "n = day_of t"
  define y where "y = year_of_day n"
  define s where "s = t div nanos_per_second mod 86400"
  obtain m d where md: "split_month (month_lengths y) (n - days_before_year y) = (m, d)" by fastforce
  have y: "0 \<le> y" "y \<le> 9999" using assms by (simp_all add: json_time_def y_def n_def)
  have "0 \<le> n - days_before_year y" "n - days_before_year y < sum_list (month_lengths y)"
    using year_of_day [of n] year_length [of y] by (simp_all add: y_def)
  note month = split_month [OF this md]
  have len: "length (month_lengths y) = 12" by (simp add: month_lengths_def)
  have "month_lengths y ! m \<le> 31"
    using month(1) by (auto simp: month_lengths_def nth_Cons' less_Suc_eq numeral_eq_Suc)
  with month have d: "Suc (nat d) < 100" "Suc (nat d) \<le> nat (month_lengths y ! m)" "m < 12" by (auto simp: len)
  have s: "0 \<le> s" "s < 86400" by (simp_all add: s_def)
  have "s div 3600 = s div 60 div 60" by (simp add: zdiv_zmult2_eq [symmetric])
  then have c4: "3600 * (s div 3600) + 60 * (s div 60 mod 60) + s mod 60 = s"
    using mult_div_mod_eq [of 60 "s div 60"] mult_div_mod_eq [of 60 s] by linarith
  have f: "nat (t mod nanos_per_second) < 10 ^ 9" "0 \<le> t mod nanos_per_second"
    by (simp_all add: nanos_per_second_def)
  have t: "nanos_per_second * (86400 * n + s) + t mod nanos_per_second = t"
    by (simp add: n_def s_def day_of_def)
  have sy: "scan_num 4 0 9999 (digits 4 (nat y) @ r) = Some (y, r)" for r
    using y by (intro scan_num_int) simp_all
  have sm: "scan_num 2 1 12 (digits 2 (Suc m) @ r) = Some (int (Suc m), r)" for r
    using d(3) by (intro scan_num_digits) simp_all
  have sd: "scan_num 2 1 (nat (month_lengths y ! m)) (digits 2 (Suc (nat d)) @ r) = Some (d + 1, r)" for r
    using scan_num_digits [of 1 "Suc (nat d)" "nat (month_lengths y ! m)" 2 r] d(1,2) month(2) by simp
  have two: "scan_num 2 0 h (digits 2 (nat n) @ r) = Some (n, r)" if "0 \<le> n" "n \<le> int h" "h < 100" for n h r
    using that by (intro scan_num_int) simp_all
  have "0 \<le> s div 3600" "s div 3600 < 24" using s by (simp_all add: pos_imp_zdiv_nonneg_iff div_less_iff_less_mult)
  then have sh: "scan_num 2 0 23 (digits 2 (nat (s div 3600)) @ r) = Some (s div 3600, r)" for r
    by (intro two) linarith+
  have sc: "scan_num 2 0 59 (digits 2 (nat (k mod 60)) @ r) = Some (k mod 60, r)" for k r
    using pos_mod_bound [of 60 k] by (intro two) simp_all
  have "parse_rfc3339 (rfc3339 t) = Some (nanos_per_second *
      (86400 * (days_before_year y + sum_list (take m (month_lengths y)) + d)
       + 3600 * (s div 3600) + 60 * (s div 60 mod 60) + s mod 60) + t mod nanos_per_second)"
    using scan_nanos_text [OF f(1)] f(2)
    by (simp add: sy sm [simplified] sd [simplified] sh sc parse_rfc3339_def rfc3339_def date_text_def clock_text_def Let_def
        n_def [symmetric] y_def [symmetric] s_def [symmetric] md scan_zone_def)
  also have "\<dots> = Some t"
  proof -
    have "days_before_year y + sum_list (take m (month_lengths y)) + d = n" using month(4) by simp
    then show ?thesis using c4 t by (simp only: add.assoc)
  qed
  finally show ?thesis .
qed

end
