(* ===== verification/Wire.thy ===== *)
theory Wire
  imports Http GoJson_Correct GoRfc3339
begin

text \<open>
  Bodies as bytes: the text of a JSON value as \<open>json.Marshal\<close> writes it, and the bytes a handler's
  response has on the wire. \<open>strconv.Quote\<close>, whose tables of printable characters are the
  standard library's, is the argument \<open>quote\<close>.
\<close>

section \<open>Rendered texts\<close>

fun render_piece :: "(string \<Rightarrow> string) \<Rightarrow> piece \<Rightarrow> string" where
  "render_piece quote (Lit s) = s"
| "render_piece quote (Quoted s) = quote s"
| "render_piece quote (Dec n) = decimal n"

definition render :: "(string \<Rightarrow> string) \<Rightarrow> rendered \<Rightarrow> string" where
  "render quote t = concat (map (render_piece quote) t)"

lemma render_Lit [simp]: "render quote [Lit s] = s"
  by (simp add: render_def)

section \<open>The text of a value\<close>

text \<open>A time outside the years 0 to 9999 has no text; the value then cannot be written.\<close>

primrec doc_of :: "(string \<Rightarrow> string) \<Rightarrow> json \<Rightarrow> jdoc option" where
  "doc_of quote (JBool b) = Some (DBool b)"
| "doc_of quote (JNum n) = Some (DNum (decimal n))"
| "doc_of quote (JTime t) = (if json_time t then Some (DStr (rfc3339 t)) else None)"
| "doc_of quote (JStr r) = Some (DStr (render quote r))"
| "doc_of quote (JList vs) = map_option DArr (those (map (doc_of quote) vs))"
| "doc_of quote (JObj ms) =
     map_option DObj (those (map (\<lambda>(k, v). map_option (Pair k) v) (map (map_prod id (doc_of quote)) ms)))"

lemma doc_of_jstring [simp]: "doc_of quote (jstring s) = Some (DStr s)"
  by (simp add: jstring_def)

lemma doc_of_jstrings [simp]: "doc_of quote (jstrings xs) = Some (DArr (map DStr xs))"
proof -
  have "those (map (doc_of quote) (map jstring xs)) = Some (map DStr xs)" by (induction xs) simp_all
  then show ?thesis by (simp add: jstrings_def)
qed

text \<open>What gin sends: nothing when the value cannot be written.\<close>

definition body_text :: "(string \<Rightarrow> string) \<Rightarrow> resp_body \<Rightarrow> bytes" where
  "body_text quote b =
     (case b of
        NoBody \<Rightarrow> []
      | BodyJSON v \<Rightarrow> (case doc_of quote v of None \<Rightarrow> [] | Some d \<Rightarrow> json_text d)
      | BodyText s \<Rightarrow> s
      | BodyData ctype bs \<Rightarrow> bs)"

text \<open>What is sent reads back.\<close>

lemma parse_body_text:
  assumes "doc_of quote v = Some d" "writable d max_nesting"
  shows "json_parse (body_text quote (BodyJSON v)) = Some (jdoc_valid d)"
  using assms by (simp add: body_text_def json_parse_text)

lemma max_nesting_pos: "max_nesting = Suc 9999"
  by (simp add: max_nesting_def)

text \<open>Times are ASCII.\<close>

lemma list_all_dec_digit_ascii: "list_all dec_digit s \<Longrightarrow> list_all (\<lambda>c. byte_val c < 128) s"
  by (auto simp: list_all_iff dec_digit_def)

lemma nanos_text_ascii: "list_all (\<lambda>c. byte_val c < 128) (nanos_text f)"
  using list_all_dec_digit_ascii [OF digits_are_digits [of 9 f]]
  by (auto simp: nanos_text_def list_all_iff dest: set_dropWhileD)

lemma rfc3339_valid [simp]: "to_valid (rfc3339 t) = rfc3339 t"
proof -
  have "list_all (\<lambda>c. byte_val c < 128) (rfc3339 t)"
    using list_all_dec_digit_ascii [OF digits_are_digits]
    by (simp add: rfc3339_def date_text_def clock_text_def nanos_text_ascii Let_def split: prod.split)
  then show ?thesis by (intro to_valid_id utf8_valid_ascii)
qed

lemma RuneError_nonempty [simp]: "RuneError \<noteq> []"
  by (simp add: RuneError_def utf8_encode_def)

lemma to_valid_Nil_iff [simp]: "to_valid s = [] \<longleftrightarrow> s = []"
  by (cases s) (auto simp: to_valid.simps(2) Let_def simp del: utf8_width.simps)

lemma to_valid_graphics: "graphics s \<Longrightarrow> to_valid s = s"
  by (intro to_valid_id utf8_valid_ascii) (auto simp: graphic_def list_all_iff)

section \<open>Lines and markup\<close>

text \<open>The bytes a JSON text never has: control characters, and the characters of markup.\<close>

definition plain_char :: "char \<Rightarrow> bool" where
  "plain_char c \<longleftrightarrow> 32 \<le> byte_val c \<and> c \<notin> set ''<>&''"

lemma plain_literals [simp]:
  "plain_char (CHR ''u'')" "plain_char (CHR ''0'')" "plain_char (CHR ''2'')" "plain_char (CHR ''8'')" "plain_char (CHR ''9'')"
  "plain_char (CHR ''f'')" "plain_char (CHR ''d'')" "plain_char (CHR ''b'')" "plain_char (CHR ''n'')" "plain_char (CHR ''r'')"
  "plain_char (CHR ''t'')" "plain_char (CHR ''l'')" "plain_char (CHR ''e'')" "plain_char (CHR ''a'')" "plain_char (CHR ''s'')"
  "plain_char (CHR ''['')" "plain_char (CHR '']'')" "plain_char (CHR ''{'')" "plain_char (CHR ''}'')" "plain_char (CHR '':'')" "plain_char (CHR '','')" "plain_char (CHR ''-'')"
  "plain_char (CHR 0x5C)" "plain_char (CHR 0x22)"
  by (simp_all add: plain_char_def)

lemma plain_high: "128 \<le> byte_val c \<Longrightarrow> plain_char c"
  by (auto simp: plain_char_def)

lemma plain_dec_digit: "dec_digit c \<Longrightarrow> plain_char c"
  by (auto simp: plain_char_def dec_digit_def)

lemma plain_hex_digit: "n < 16 \<Longrightarrow> plain_char (hex_digit n)"
  using byte_val_hex_digit [of n] by (auto simp: plain_char_def split: if_splits)

lemma plain_escape_ascii:
  assumes "byte_val b < 128"
  shows "list_all plain_char (escape_ascii b)"
proof -
  have "byte_val b div 16 < 16" "byte_val b mod 16 < 16" using assms by simp_all
  then have "list_all plain_char (u00 b)" by (simp add: u00_def plain_hex_digit)
  moreover have "plain_char b" if "\<not> (byte_val b < 32 \<or> b \<in> set ''<>&'')"
    using that by (simp add: plain_char_def)
  ultimately show ?thesis by (simp add: escape_ascii_def)
qed

lemma plain_multibyte:
  assumes "\<not> byte_val b < 128"
  shows "list_all plain_char (take (utf8_width (b # bs)) (b # bs))"
proof (cases "utf8_width (b # bs) = 0")
  case False
  with assms utf8_width_multi [of b bs] have n: "2 \<le> utf8_width (b # bs)" by linarith
  then obtain c cs where c: "bs = c # cs" by (cases bs) (auto simp: Let_def seq_length_def in_range_def split: if_splits)
  from n have l: "2 \<le> seq_length b" unfolding c by (auto simp: Let_def split: if_splits)
  with n have w: "second_ok b c" "list_all is_cont (take (seq_length b - 2) cs)" "utf8_width (b # bs) = seq_length b"
    unfolding c utf8_width_long [OF l] by (auto split: if_splits)
  have "take (seq_length b) (b # c # cs) = b # c # take (seq_length b - 2) cs"
    using l by (cases "seq_length b"; cases "seq_length b - 1") auto
  moreover have "128 \<le> byte_val c" using w(1) by (auto simp: second_ok_def in_range_def split: if_splits)
  ultimately show ?thesis
    using w(2,3) assms unfolding c by (auto simp: list_all_iff in_range_def intro!: plain_high simp del: utf8_width.simps)
qed simp

lemma plain_json_escape: "list_all plain_char (json_escape s)"
proof (induction s rule: json_escape.induct)
  case (2 b bs)
  have sep: "list_all plain_char e" if "line_sep t = Some e" for t e
    using that by (auto simp: line_sep_def split: if_splits)
  show ?case
  proof (cases "byte_val b < 128")
    case True
    with 2(1) plain_escape_ascii show ?thesis by (simp add: json_escape.simps(2))
  next
    case False
    let ?w = "utf8_width (b # bs)"
    show ?thesis
    proof (cases "?w = 0")
      case True
      with False 2(2) [OF False refl True] show ?thesis
        by (simp add: json_escape.simps(2) Let_def del: utf8_width.simps)
    next
      case nz: False
      with False 2(3) [OF False refl nz] sep plain_multibyte [OF False, of bs] show ?thesis
        by (auto simp: json_escape.simps(2) Let_def simp del: utf8_width.simps take_Suc_Cons split: option.split)
    qed
  qed
qed simp

lemma plain_json_quote: "list_all plain_char (json_quote s)"
  by (simp add: json_quote_def plain_json_escape)

lemma plain_decimal: "list_all plain_char (decimal n)"
proof -
  have "list_all plain_char (decimal_nat m)" for m
    using decimal_nat_digits [of m] plain_dec_digit by (auto simp: list_all_iff)
  then show ?thesis by (simp add: decimal_def)
qed

text \<open>Documents whose numbers are decimal.\<close>

primrec decimal_numbers :: "jdoc \<Rightarrow> bool" where
  "decimal_numbers DNull = True"
| "decimal_numbers (DBool b) = True"
| "decimal_numbers (DNum lit) = list_all plain_char lit"
| "decimal_numbers (DStr s) = True"
| "decimal_numbers (DArr vs) = list_all id (map decimal_numbers vs)"
| "decimal_numbers (DObj ms) = list_all snd (map (map_prod id decimal_numbers) ms)"

lemma plain_print_elems:
  assumes "\<And>v. v \<in> set vs \<Longrightarrow> list_all plain_char (json_print (\<lambda>_. []) [] (Suc k) v)"
  shows "list_all plain_char (print_elems (\<lambda>_. []) [] k vs)"
  using assms by (induction vs) auto

lemma plain_print_members:
  assumes "\<And>key v. (key, v) \<in> set ms \<Longrightarrow> list_all plain_char (json_print (\<lambda>_. []) [] (Suc k) v)"
  shows "list_all plain_char (print_members (\<lambda>_. []) [] k ms)"
  using assms
proof (induction ms)
  case (Cons m ms)
  with plain_json_quote show ?case by (cases m) auto
qed simp

lemma plain_json_print:
  "decimal_numbers d \<Longrightarrow> list_all plain_char (json_print (\<lambda>_. []) [] k d)"
proof (induction d arbitrary: k)
  case (DStr s)
  then show ?case by (simp add: plain_json_quote)
next
  case (DArr vs)
  then have "list_all plain_char (print_elems (\<lambda>_. []) [] k vs)"
    by (intro plain_print_elems) (auto simp: list_all_iff)
  then show ?case by simp
next
  case (DObj ms)
  then have "list_all plain_char (print_members (\<lambda>_. []) [] k ms)"
    by (intro plain_print_members) (auto simp: list_all_iff)
  then show ?case by simp
qed simp_all

lemma those_Some_iff: "those xs = Some ys \<longleftrightarrow> map Some ys = xs"
  by (induction xs arbitrary: ys) (auto split: option.splits)

lemma doc_of_decimal: "doc_of quote v = Some d \<Longrightarrow> decimal_numbers d"
proof (induction v arbitrary: d)
  case (JNum n)
  then show ?case using plain_decimal by auto
next
  case (JList vs)
  then obtain ds where "d = DArr ds" "map Some ds = map (doc_of quote) vs"
    by (auto simp: those_Some_iff)
  with JList.IH show ?case
    by (auto simp: list_all_iff in_set_conv_nth) (metis length_map nth_map nth_mem)
next
  case (JObj ms)
  then obtain ds where d: "d = DObj ds"
    "map Some ds = map (\<lambda>(k, v). map_option (Pair k) v) (map (map_prod id (doc_of quote)) ms)"
    by (auto simp: those_Some_iff)
  have "decimal_numbers (snd p)" if "p \<in> set ds" for p
  proof -
    have "Some p \<in> set (map Some ds)" using that by simp
    then obtain key v where "(key, v) \<in> set ms" "Some p = map_option (Pair key) (doc_of quote v)"
      unfolding d(2) by auto
    with JObj.IH [of "(key, v)" v "snd p"] show ?thesis by (cases "doc_of quote v") auto
  qed
  then show ?case by (auto simp: d(1) list_all_iff)
qed (auto split: if_splits)

lemma plain_body_text: "list_all plain_char (body_text quote (BodyJSON v))"
  using doc_of_decimal [of quote v]
  by (auto simp: body_text_def json_text_def plain_json_print split: option.split)

end
