(* ===== verification/GoForm.thy ===== *)
theory GoForm
  imports GoUrl
begin

text \<open>
  Form bodies: \<open>url.Values.Encode\<close>, as the client library builds them, and \<open>url.ParseQuery\<close>, as
  \<open>net/http\<close> reads them on the server, with the round trip between the two.
\<close>

section \<open>Query escapes\<close>

definition unreserved :: "char \<Rightarrow> bool" where
  "unreserved c \<longleftrightarrow> is_alnum c \<or> c \<in> set ''-_.~''"

definition upper_hex :: "nat \<Rightarrow> char" where
  "upper_hex n = char_of (if n < 10 then 48 + n else 55 + n)"

fun QueryEscape :: "string \<Rightarrow> string" where
  "QueryEscape [] = []"
| "QueryEscape (c # s) =
     (if unreserved c then c # QueryEscape s
      else if c = CHR '' '' then CHR ''+'' # QueryEscape s
      else CHR ''%'' # upper_hex (byte_val c div 16) # upper_hex (byte_val c mod 16) # QueryEscape s)"

fun QueryUnescape :: "string \<Rightarrow> string option" where
  "QueryUnescape [] = Some []"
| "QueryUnescape (c # s) =
     (if c = CHR ''%'' then
        (case s of
           a # b # r \<Rightarrow>
             (if is_hex a \<and> is_hex b
              then map_option (Cons (char_of (16 * unhex a + unhex b))) (QueryUnescape r)
              else None)
         | _ \<Rightarrow> None)
      else map_option (Cons (if c = CHR ''+'' then CHR '' '' else c)) (QueryUnescape s))"

lemma byte_val_upper_hex: "n < 16 \<Longrightarrow> byte_val (upper_hex n) = (if n < 10 then 48 + n else 55 + n)"
  by (simp add: upper_hex_def)

lemma upper_hex_digit: "n < 16 \<Longrightarrow> is_hex (upper_hex n) \<and> unhex (upper_hex n) = n"
  by (simp add: is_hex_def unhex_def byte_val_upper_hex Let_def)

lemma unreserved_not_special:
  "unreserved c \<Longrightarrow> c \<noteq> CHR ''%'' \<and> c \<noteq> CHR ''+'' \<and> c \<noteq> CHR ''&'' \<and> c \<noteq> CHR ''='' \<and> c \<noteq> CHR '';''"
  by (auto simp: unreserved_def is_alnum_def Let_def)

lemma QueryUnescape_escaped:
  "QueryUnescape (CHR ''%'' # upper_hex (byte_val c div 16) # upper_hex (byte_val c mod 16) # s)
   = map_option (Cons c) (QueryUnescape s)"
proof -
  have n: "byte_val c div 16 < 16" "byte_val c mod 16 < 16"
    "16 * (byte_val c div 16) + byte_val c mod 16 = byte_val c"
    using nibbles [OF byte_val_less [of c]] by simp_all
  have "char_of (16 * unhex (upper_hex (byte_val c div 16)) + unhex (upper_hex (byte_val c mod 16))) = c"
    by (simp only: n upper_hex_digit char_of_byte_val)
  with n(1,2) show ?thesis by (simp add: upper_hex_digit)
qed

lemma QueryUnescape_QueryEscape: "QueryUnescape (QueryEscape s) = Some s"
proof (induction s)
  case (Cons c s)
  then show ?case
    using unreserved_not_special [of c]
    by (simp add: QueryUnescape_escaped del: QueryUnescape.simps(2),
        cases "unreserved c", simp_all)
qed simp

lemma upper_hex_plain: "n < 16 \<Longrightarrow> unreserved (upper_hex n)"
  by (simp add: unreserved_def is_alnum_def byte_val_upper_hex Let_def)

lemma QueryEscape_plain:
  "d \<in> set (QueryEscape s) \<Longrightarrow> d \<noteq> CHR ''&'' \<and> d \<noteq> CHR ''='' \<and> d \<noteq> CHR '';''"
proof (induction s)
  case (Cons c s)
  have "unreserved (upper_hex (byte_val c div 16))" "unreserved (upper_hex (byte_val c mod 16))"
    using nibbles(1,2) [OF byte_val_less [of c]] by (auto intro: upper_hex_plain)
  with Cons show ?case by (auto split: if_splits dest: unreserved_not_special)
qed simp

section \<open>Forms\<close>

text \<open>\<open>Encode\<close> of values given with their keys sorted, one value each.\<close>

fun form_encode :: "(string \<times> string) list \<Rightarrow> string" where
  "form_encode [] = []"
| "form_encode [(k, v)] = QueryEscape k @ ''='' @ QueryEscape v"
| "form_encode ((k, v) # ps) = QueryEscape k @ ''='' @ QueryEscape v @ ''&'' @ form_encode ps"

text \<open>One segment of a query: what cannot be unescaped, or holds a semicolon, is dropped.\<close>

definition form_pair :: "string \<Rightarrow> (string \<times> string) option" where
  "form_pair seg =
     (if CHR '';'' \<in> set seg \<or> seg = [] then None
      else case Cut seg (CHR ''='') of
        (k, v, _) \<Rightarrow>
          (case (QueryUnescape k, QueryUnescape v) of
             (Some k, Some v) \<Rightarrow> Some (k, v)
           | _ \<Rightarrow> None))"

definition ParseQuery :: "string \<Rightarrow> (string \<times> string) list" where
  "ParseQuery s = List.map_filter form_pair (Split s (CHR ''&''))"

text \<open>\<open>Values.Get\<close>: the first value of a key, or the empty string.\<close>

fun form_get :: "string \<Rightarrow> (string \<times> string) list \<Rightarrow> string" where
  "form_get key [] = []"
| "form_get key ((k, v) # ps) = (if k = key then v else form_get key ps)"

lemma form_pair_encode: "form_pair (QueryEscape k @ CHR ''='' # QueryEscape v) = Some (k, v)"
proof -
  have "CHR ''='' \<notin> set (QueryEscape k)" "CHR '';'' \<notin> set (QueryEscape k @ CHR ''='' # QueryEscape v)"
    using QueryEscape_plain by auto
  then show ?thesis by (simp add: form_pair_def Cut_found QueryUnescape_QueryEscape)
qed

lemma form_segment_plain: "CHR ''&'' \<notin> set (QueryEscape k @ CHR ''='' # QueryEscape v)"
  using QueryEscape_plain by auto

lemma ParseQuery_form_encode: "ParseQuery (form_encode ps) = ps"
proof (induction ps rule: form_encode.induct)
  case 1
  show ?case by (simp add: ParseQuery_def form_pair_def List.map_filter_def)
next
  case (2 k v)
  then show ?case
    using Split_absent [OF form_segment_plain [of k v]]
    by (simp add: ParseQuery_def List.map_filter_def form_pair_encode)
next
  case (3 k v p ps)
  have "Split ((QueryEscape k @ CHR ''='' # QueryEscape v) @ CHR ''&'' # form_encode (p # ps)) (CHR ''&'')
      = (QueryEscape k @ CHR ''='' # QueryEscape v) # Split (form_encode (p # ps)) (CHR ''&'')"
    using Split_append [OF form_segment_plain [of k v]] by simp
  with 3 show ?case
    by (simp add: ParseQuery_def List.map_filter_def form_pair_encode)
qed

end
