(* ===== verification/SdkClient.thy ===== *)
theory SdkClient
  imports Wire GoForm
begin

text \<open>
  \<open>pkg/oauth2/client/client.go\<close>: the client library with its token cache. The network (the
  \<open>http.Client\<close> and all behind it) is a parameter, a function from a request and the state of
  the world to a response, a status and the bytes of its body, or an error and the next state.
  \<open>SdkLib\<close> is what it uses of the standard library that is a table: the rule for IP literals, the
  printable characters of \<open>%q\<close>, and the layouts of \<open>time.Parse\<close>, which \<open>UnmarshalJSON\<close> of a
  time tries where the text is not in the strict form.
\<close>

record SdkLib =
  sdk_ip_literal :: "string \<Rightarrow> rendered option"
  strconv_Quote :: "string \<Rightarrow> string"
  time_Parse :: "string \<Rightarrow> time option"

section \<open>Requests to the server and their responses\<close>

record OutRequest =
  o_Method :: string
  o_URL :: string
  o_Header :: "string \<Rightarrow> string list"
  o_Body :: bytes

record OutResponse =
  p_Status :: int
  p_Body :: bytes

type_synonym 'net network = "OutRequest \<Rightarrow> 'net \<Rightarrow> (go_error + OutResponse) \<times> 'net"

definition out_set :: "string \<Rightarrow> string \<Rightarrow> OutRequest \<Rightarrow> OutRequest" where
  "out_set key v r = r\<lparr>o_Header := (o_Header r)(key := [v])\<rparr>"

text \<open>\<open>http.NewRequestWithContext\<close> with a fixed valid method: the URL must parse.\<close>

definition NewRequest :: "SdkLib \<Rightarrow> string \<Rightarrow> string \<Rightarrow> bytes \<Rightarrow> go_error + OutRequest" where
  "NewRequest lib meth u body =
     (case url_Parse (sdk_ip_literal lib) u of
        Inl e \<Rightarrow> Inl (NewError e)
      | Inr _ \<Rightarrow> Inr \<lparr>o_Method = meth, o_URL = u, o_Header = (\<lambda>_. []), o_Body = body\<rparr>)"

section \<open>\<open>json.Unmarshal\<close> into the response structs\<close>

text \<open>
  Keys match a field up to case folding; beside ASCII case, the long s (U+017F) and the Kelvin
  sign (U+212A) fold to s and k. Unknown members are skipped, \<open>null\<close> leaves a field as it is, a
  member of the wrong type makes the result an error, and the last of several wins.
\<close>

fun fold_key :: "string \<Rightarrow> string" where
  "fold_key [] = []"
| "fold_key (c # s) =
     (if byte_val c = 197 \<and> s \<noteq> [] \<and> byte_val (hd s) = 191 then CHR ''s'' # fold_key (drop 1 s)
      else if byte_val c = 226 \<and> length s \<ge> 2 \<and> byte_val (hd s) = 132 \<and> byte_val (s ! 1) = 170
        then CHR ''k'' # fold_key (drop 2 s)
      else lower_byte c # fold_key s)"

text \<open>One assignment to a field: \<open>None\<close> is a type error. A number is an \<open>int64\<close> when \<open>ParseInt\<close>
  takes its text. A slice keeps its elements where the array has \<open>null\<close>.\<close>

fun set_string :: "string \<Rightarrow> jdoc \<Rightarrow> string option" where
  "set_string old DNull = Some old"
| "set_string old (DStr s) = Some s"
| "set_string old _ = None"

fun set_int64 :: "int64 \<Rightarrow> jdoc \<Rightarrow> int64 option" where
  "set_int64 old DNull = Some old"
| "set_int64 old (DNum lit) =
     (case parse_int lit of
        None \<Rightarrow> None
      | Some n \<Rightarrow> (if - (2 ^ 63) \<le> n \<and> n < 2 ^ 63 then Some (word_of_int n) else None))"
| "set_int64 old _ = None"

fun set_bool :: "bool \<Rightarrow> jdoc \<Rightarrow> bool option" where
  "set_bool old DNull = Some old"
| "set_bool old (DBool b) = Some b"
| "set_bool old _ = None"

fun set_strings :: "string list \<Rightarrow> jdoc \<Rightarrow> string list option" where
  "set_strings old DNull = Some []"
| "set_strings old (DArr vs) = those (map2 set_string (old @ replicate (length vs) []) vs)"
| "set_strings old _ = None"

text \<open>\<open>Time.UnmarshalJSON\<close>; a time written with escapes, which it does not resolve, is not told apart
  from the same text without.\<close>

fun set_time :: "SdkLib \<Rightarrow> time \<Rightarrow> jdoc \<Rightarrow> time option" where
  "set_time lib old DNull = Some old"
| "set_time lib old (DStr s) = (case parse_rfc3339 s of Some t \<Rightarrow> Some t | None \<Rightarrow> time_Parse lib s)"
| "set_time lib old _ = None"

definition json_error :: go_error where
  "json_error = NewError [Lit ''json: ...'']"

text \<open>A failed member makes the result an error, whatever the others hold.\<close>

fun decode_members :: "(string \<Rightarrow> jdoc \<Rightarrow> 's \<Rightarrow> 's option) \<Rightarrow> (string \<times> jdoc) list \<Rightarrow> 's \<Rightarrow> go_error + 's" where
  "decode_members f [] s = Inr s"
| "decode_members f ((k, v) # ms) s =
     (case f (fold_key k) v s of
        Some s' \<Rightarrow> decode_members f ms s'
      | None \<Rightarrow> Inl json_error)"

definition Unmarshal :: "(string \<Rightarrow> jdoc \<Rightarrow> 's \<Rightarrow> 's option) \<Rightarrow> 's \<Rightarrow> bytes \<Rightarrow> go_error + 's" where
  "Unmarshal f zero body =
     (case json_parse body of
        Some (DObj ms) \<Rightarrow> decode_members f ms zero
      | Some DNull \<Rightarrow> Inr zero
      | _ \<Rightarrow> Inl json_error)"

definition token_member :: "string \<Rightarrow> jdoc \<Rightarrow> TokenResponse \<Rightarrow> TokenResponse option" where
  "token_member k v r =
     (if k = ''access_token'' then map_option (\<lambda>x. r\<lparr>AccessToken := x\<rparr>) (set_string (AccessToken r) v)
      else if k = ''token_type'' then map_option (\<lambda>x. r\<lparr>TokenType := x\<rparr>) (set_string (TokenType r) v)
      else if k = ''expires_in'' then map_option (\<lambda>x. r\<lparr>ExpiresIn := x\<rparr>) (set_int64 (ExpiresIn r) v)
      else if k = ''resource'' then map_option (\<lambda>x. r\<lparr>tresp_Resource := x\<rparr>) (set_string (tresp_Resource r) v)
      else if k = ''scope'' then map_option (\<lambda>x. r\<lparr>tresp_Scope := x\<rparr>) (set_string (tresp_Scope r) v)
      else Some r)"

definition introspect_member ::
  "string \<Rightarrow> jdoc \<Rightarrow> IntrospectResponse \<Rightarrow> IntrospectResponse option" where
  "introspect_member k v r =
     (if k = ''active'' then map_option (\<lambda>x. r\<lparr>Active := x\<rparr>) (set_bool (Active r) v)
      else if k = ''client_id'' then map_option (\<lambda>x. r\<lparr>intro_ClientID := x\<rparr>) (set_string (intro_ClientID r) v)
      else if k = ''resource'' then map_option (\<lambda>x. r\<lparr>intro_Resource := x\<rparr>) (set_string (intro_Resource r) v)
      else if k = ''scope'' then map_option (\<lambda>x. r\<lparr>intro_Scope := x\<rparr>) (set_string (intro_Scope r) v)
      else if k = ''exp'' then map_option (\<lambda>x. r\<lparr>Exp := sint x\<rparr>) (set_int64 (word_of_int (Exp r)) v)
      else if k = ''token_type'' then map_option (\<lambda>x. r\<lparr>intro_TokenType := x\<rparr>) (set_string (intro_TokenType r) v)
      else Some r)"

definition register_member ::
  "SdkLib \<Rightarrow> string \<Rightarrow> jdoc \<Rightarrow> RegisterClientResponse \<Rightarrow> RegisterClientResponse option" where
  "register_member lib k v r =
     (if k = ''client_id'' then map_option (\<lambda>x. r\<lparr>resp_ClientID := x\<rparr>) (set_string (resp_ClientID r) v)
      else if k = ''client_secret'' then map_option (\<lambda>x. r\<lparr>resp_ClientSecret := x\<rparr>) (set_string (resp_ClientSecret r) v)
      else if k = ''name'' then map_option (\<lambda>x. r\<lparr>resp_Name := x\<rparr>) (set_string (resp_Name r) v)
      else if k = ''allowed_resources'' then map_option (\<lambda>x. r\<lparr>resp_AllowedResources := x\<rparr>) (set_strings (resp_AllowedResources r) v)
      else if k = ''allowed_scopes'' then map_option (\<lambda>x. r\<lparr>resp_AllowedScopes := x\<rparr>) (set_strings (resp_AllowedScopes r) v)
      else if k = ''created_at'' then map_option (\<lambda>x. r\<lparr>resp_CreatedAt := x\<rparr>) (set_time lib (resp_CreatedAt r) v)
      else Some r)"

section \<open>The body of a registration\<close>

text \<open>\<open>json.Marshal\<close> of the request; a list is \<open>null\<close> when it is empty, as the slices of the program
  are nil until something is appended to them.\<close>

definition slice_doc :: "string list \<Rightarrow> jdoc" where
  "slice_doc xs = (if xs = [] then DNull else DArr (map DStr xs))"

definition json_Marshal_request :: "RegisterClientRequest \<Rightarrow> go_error + bytes" where
  "json_Marshal_request r = Inr (json_text (DObj
     [(''name'', DStr (reg_Name r)), (''allowed_resources'', slice_doc (reg_AllowedResources r)),
      (''allowed_scopes'', slice_doc (reg_AllowedScopes r))]))"

section \<open>The client\<close>

record Config =
  ServerURL :: string
  cfg_ClientID :: string
  cfg_ClientSecret :: string
  cfg_ExpiryBuffer :: duration

record cachedToken =
  accessToken :: string
  cachedExpiresAt :: time

text \<open>
  The cache is guarded by \<open>mu\<close>; \<open>jsonMarshal\<close> is the field the tests replace. The hook
  \<open>beforeWriteLock\<close>, nil outside tests, is left out.
\<close>

record SdkClient =
  config :: Config
  expiryBuffer :: duration
  sdkNow :: clock
  cachedTokens :: "string \<Rightarrow> cachedToken option"
  jsonMarshal :: "RegisterClientRequest \<Rightarrow> go_error + bytes"

definition tokenExpiryBuffer :: duration where
  "tokenExpiryBuffer = 30 * Second"

definition sdk_New :: "clock \<Rightarrow> Config \<Rightarrow> SdkClient" where
  "sdk_New time_now cfg =
     \<lparr>config = cfg,
      expiryBuffer = (if sint (cfg_ExpiryBuffer cfg) \<le> 0 then tokenExpiryBuffer else cfg_ExpiryBuffer cfg),
      sdkNow = time_now, cachedTokens = Map.empty, jsonMarshal = json_Marshal_request\<rparr>"

definition SetNowFunc :: "clock option \<Rightarrow> SdkClient \<Rightarrow> SdkClient" where
  "SetNowFunc fn c = (case fn of None \<Rightarrow> c | Some f \<Rightarrow> c\<lparr>sdkNow := f\<rparr>)"

definition endpoint :: "SdkClient \<Rightarrow> string \<Rightarrow> string" where
  "endpoint c path = TrimRight (ServerURL (config c)) (CHR ''/'') @ path"

text \<open>A failed status: the number and the body the server sent.\<close>

definition status_error :: "string \<Rightarrow> OutResponse \<Rightarrow> go_error" where
  "status_error what resp =
     NewError [Lit (what @ '' failed with status ''), Dec (p_Status resp), Lit '': '',
               Lit (p_Body resp)]"

section \<open>Registration through the client\<close>

definition sdk_RegisterClient ::
  "SdkLib \<Rightarrow> 'net network \<Rightarrow> RegisterClientRequest option \<Rightarrow> SdkClient \<Rightarrow> 'net
   \<Rightarrow> (go_error + RegisterClientResponse) \<times> 'net" where
  "sdk_RegisterClient lib Do reqp c net =
     (case reqp of
        None \<Rightarrow> (Inl (NewError [Lit ''request cannot be nil'']), net)
      | Some req \<Rightarrow>
     (case jsonMarshal c req of
        Inl e \<Rightarrow> (Inl (Wrapf [Lit ''failed to marshal register request: ''] e []), net)
      | Inr bodyBytes \<Rightarrow>
     (case NewRequest lib ''POST'' (endpoint c ''/oauth/clients'') bodyBytes of
        Inl e \<Rightarrow> (Inl (Wrapf [Lit ''failed to create request: ''] e []), net)
      | Inr httpReq \<Rightarrow>
     (case Do (out_set ''Content-Type'' ''application/json'' httpReq) net of
        (Inl e, net) \<Rightarrow> (Inl (Wrapf [Lit ''failed to call register endpoint: ''] e []), net)
      | (Inr resp, net) \<Rightarrow>
          (if p_Status resp \<noteq> 201 then (Inl (status_error ''register client'' resp), net)
           else case Unmarshal (register_member lib)
               \<lparr>resp_ClientID = [], resp_ClientSecret = [], resp_Name = [],
                resp_AllowedResources = [], resp_AllowedScopes = [], resp_CreatedAt = zero_time\<rparr>
               (p_Body resp) of
             Inl e \<Rightarrow> (Inl (Wrapf [Lit ''failed to decode register response: ''] e []), net)
           | Inr r \<Rightarrow> (Inr r, net))))))"

section \<open>Getting tokens\<close>

text \<open>A form post with the client's Basic credentials.\<close>

definition form_request :: "SdkClient \<Rightarrow> OutRequest \<Rightarrow> OutRequest" where
  "form_request c r =
     out_set ''Authorization''
       (basic_prefix @ StdEncoding (cfg_ClientID (config c) @ '':'' @ cfg_ClientSecret (config c)))
       (out_set ''Content-Type'' ''application/x-www-form-urlencoded'' r)"

definition fetchToken ::
  "SdkLib \<Rightarrow> 'net network \<Rightarrow> string \<Rightarrow> SdkClient \<Rightarrow> 'net \<Rightarrow> (go_error + TokenResponse) \<times> 'net" where
  "fetchToken lib Do resourceURI c net =
     (let data = [(''grant_type'', ''client_credentials'')]
                 @ (if resourceURI \<noteq> [] then [(''resource'', resourceURI)] else [])
      in case NewRequest lib ''POST'' (endpoint c ''/oauth/token'') (form_encode data) of
        Inl e \<Rightarrow> (Inl (Wrapf [Lit ''failed to create token request: ''] e []), net)
      | Inr httpReq \<Rightarrow>
     (case Do (form_request c httpReq) net of
        (Inl e, net) \<Rightarrow> (Inl (Wrapf [Lit ''failed to request token: ''] e []), net)
      | (Inr resp, net) \<Rightarrow>
          (if p_Status resp \<noteq> 200 then (Inl (status_error ''token request'' resp), net)
           else case Unmarshal token_member
               \<lparr>AccessToken = [], TokenType = [], ExpiresIn = 0, tresp_Resource = [], tresp_Scope = []\<rparr>
               (p_Body resp) of
             Inl e \<Rightarrow> (Inl (Wrapf [Lit ''failed to decode token response: ''] e []), net)
           | Inr r \<Rightarrow> (Inr r, net))))"

text \<open>The cached token of a resource, if more than the buffer is left of it at time \<open>t\<close>.\<close>

definition cached_at :: "SdkClient \<Rightarrow> string \<Rightarrow> time \<Rightarrow> string option" where
  "cached_at c resourceURI t =
     (case cachedTokens c resourceURI of
        None \<Rightarrow> None
      | Some cached \<Rightarrow>
          (if duration_greater (time_Sub (cachedExpiresAt cached) t) (expiryBuffer c)
           then Some (accessToken cached) else None))"

text \<open>\<open>c.nowFunc().UTC()\<close>\<close>

definition sdk_time :: "SdkClient \<Rightarrow> time \<times> SdkClient" where
  "sdk_time c = (case now (sdkNow c) of (t, clk) \<Rightarrow> (t, c\<lparr>sdkNow := clk\<rparr>))"

text \<open>
  The section under the write lock, entered with the time read before: check the cache again,
  fetch, and store what the server said, its lifetime in seconds multiplied in 64 bits.
\<close>

definition GetToken_locked ::
  "SdkLib \<Rightarrow> 'net network \<Rightarrow> string \<Rightarrow> time \<Rightarrow> SdkClient \<Rightarrow> 'net
   \<Rightarrow> (go_error + string) \<times> SdkClient \<times> 'net" where
  "GetToken_locked lib Do resourceURI t c net =
     (case cached_at c resourceURI t of
        Some token \<Rightarrow> (Inr token, c, net)
      | None \<Rightarrow>
     (case fetchToken lib Do resourceURI c net of
        (Inl e, net) \<Rightarrow> (Inl e, c, net)
      | (Inr tokenResp, net) \<Rightarrow>
          (let expiresAt = time_Add t (ExpiresIn tokenResp * Second)
           in (Inr (AccessToken tokenResp),
               c\<lparr>cachedTokens := (cachedTokens c)(resourceURI \<mapsto>
                   \<lparr>accessToken = AccessToken tokenResp, cachedExpiresAt = expiresAt\<rparr>)\<rparr>,
               net))))"

definition GetToken ::
  "SdkLib \<Rightarrow> 'net network \<Rightarrow> string \<Rightarrow> SdkClient \<Rightarrow> 'net \<Rightarrow> (go_error + string) \<times> SdkClient \<times> 'net" where
  "GetToken lib Do resourceURI c net =
     (case sdk_time c of (t, c) \<Rightarrow>
      case cached_at c resourceURI t of
        Some token \<Rightarrow> (Inr token, c, net)
      | None \<Rightarrow> GetToken_locked lib Do resourceURI t c net)"

section \<open>Introspection and revocation through the client\<close>

definition sdk_Introspect ::
  "SdkLib \<Rightarrow> 'net network \<Rightarrow> string \<Rightarrow> SdkClient \<Rightarrow> 'net \<Rightarrow> (go_error + IntrospectResponse) \<times> 'net" where
  "sdk_Introspect lib Do token c net =
     (case NewRequest lib ''POST'' (endpoint c ''/oauth/introspect'') (form_encode [(''token'', token)]) of
        Inl e \<Rightarrow> (Inl (Wrapf [Lit ''failed to create introspect request: ''] e []), net)
      | Inr httpReq \<Rightarrow>
     (case Do (form_request c httpReq) net of
        (Inl e, net) \<Rightarrow> (Inl (Wrapf [Lit ''failed to call introspect endpoint: ''] e []), net)
      | (Inr resp, net) \<Rightarrow>
          (if p_Status resp \<noteq> 200 then (Inl (status_error ''introspect request'' resp), net)
           else case Unmarshal introspect_member inactive_response (p_Body resp) of
             Inl e \<Rightarrow> (Inl (Wrapf [Lit ''failed to decode introspect response: ''] e []), net)
           | Inr r \<Rightarrow> (Inr r, net))))"

text \<open>The loop over the cache: every entry that holds the token goes.\<close>

definition evict :: "string \<Rightarrow> SdkClient \<Rightarrow> SdkClient" where
  "evict token c = c\<lparr>cachedTokens := (\<lambda>res. case cachedTokens c res of
       Some cached \<Rightarrow> if accessToken cached = token then None else Some cached
     | None \<Rightarrow> None)\<rparr>"

definition sdk_Revoke ::
  "SdkLib \<Rightarrow> 'net network \<Rightarrow> string \<Rightarrow> SdkClient \<Rightarrow> 'net \<Rightarrow> go_error option \<times> SdkClient \<times> 'net" where
  "sdk_Revoke lib Do token c net =
     (case NewRequest lib ''POST'' (endpoint c ''/oauth/revoke'') (form_encode [(''token'', token)]) of
        Inl e \<Rightarrow> (Some (Wrapf [Lit ''failed to create revoke request: ''] e []), c, net)
      | Inr httpReq \<Rightarrow>
     (case Do (form_request c httpReq) net of
        (Inl e, net) \<Rightarrow> (Some (Wrapf [Lit ''failed to call revoke endpoint: ''] e []), c, net)
      | (Inr resp, net) \<Rightarrow>
          (if p_Status resp \<noteq> 200 then (Some (status_error ''revoke request'' resp), c, net)
           else (None, evict token c, net))))"

end
