(* ===== verification/Transport.thy ===== *)
theory Transport
  imports SdkClient
begin

text \<open>
  \<open>pkg/oauth2/client/transport.go\<close>: an \<open>http.RoundTripper\<close> that puts a bearer token on every
  request. The transport behind it is a parameter over the same world as the network of the
  client. The request's header map is not nil, as \<open>http.NewRequest\<close> makes it.
\<close>

record UserRequest =
  u_Method :: string
  u_URL :: "url option"
  u_Header :: "string \<Rightarrow> string list"
  u_Body :: bytes

type_synonym ('net, 'resp) round_tripper = "UserRequest \<Rightarrow> 'net \<Rightarrow> (go_error + 'resp) \<times> 'net"

text \<open>The client of a Go \<open>Transport\<close> is a shared pointer; here it is passed along.\<close>

record ('net, 'resp) Transport =
  t_base :: "('net, 'resp) round_tripper"
  t_resourceURI :: string

definition NewTransport ::
  "('net, 'resp) round_tripper \<Rightarrow> ('net, 'resp) round_tripper option \<Rightarrow> string list
   \<Rightarrow> ('net, 'resp) Transport" where
  "NewTransport DefaultTransport base resourceURI =
     \<lparr>t_base = (case base of None \<Rightarrow> DefaultTransport | Some b \<Rightarrow> b),
      t_resourceURI = (case resourceURI of [] \<Rightarrow> [] | r # _ \<Rightarrow> r)\<rparr>"

text \<open>The override, or scheme, host and path of the request.\<close>

definition target_resource :: "('net, 'resp) Transport \<Rightarrow> UserRequest \<Rightarrow> string" where
  "target_resource t req =
     (if t_resourceURI t = [] then
        (case u_URL req of
           Some u \<Rightarrow> url_Scheme u @ ''://'' @ url_Host u @ url_Path u
         | None \<Rightarrow> t_resourceURI t)
      else t_resourceURI t)"

definition RoundTrip ::
  "SdkLib \<Rightarrow> 'net network \<Rightarrow> ('net, 'resp) Transport \<Rightarrow> UserRequest \<Rightarrow> SdkClient \<Rightarrow> 'net
   \<Rightarrow> (go_error + 'resp) \<times> SdkClient \<times> 'net" where
  "RoundTrip lib net_Do t req c net =
     (let targetResource = target_resource t req
      in case GetToken lib net_Do targetResource c net of
        (Inl e, c, net) \<Rightarrow>
          (Inl (Wrapf [Lit ''failed to acquire token for '', Quoted targetResource, Lit '': ''] e []),
           c, net)
      | (Inr token, c, net) \<Rightarrow>
          (case t_base t (req\<lparr>u_Header := (u_Header req)(''Authorization'' := [''Bearer '' @ token])\<rparr>) net of
             (r, net) \<Rightarrow> (r, c, net)))"

text \<open>\<open>Client.Do\<close>: one request over a new transport on the client's own transport.\<close>

definition sdk_Do ::
  "SdkLib \<Rightarrow> 'net network \<Rightarrow> ('net, 'resp) round_tripper \<Rightarrow> ('net, 'resp) round_tripper option
   \<Rightarrow> string list \<Rightarrow> UserRequest \<Rightarrow> SdkClient \<Rightarrow> 'net \<Rightarrow> (go_error + 'resp) \<times> SdkClient \<times> 'net" where
  "sdk_Do lib net_Do DefaultTransport client_transport resourceURI req c net =
     RoundTrip lib net_Do (NewTransport DefaultTransport client_transport resourceURI) req c net"

text \<open>\<open>Client.HTTPClient\<close>: the transport, with the timeout of the client's HTTP client.\<close>

definition HTTPClient ::
  "('net, 'resp) round_tripper \<Rightarrow> ('net, 'resp) round_tripper option \<Rightarrow> duration \<Rightarrow> string list
   \<Rightarrow> ('net, 'resp) Transport \<times> duration" where
  "HTTPClient DefaultTransport client_transport timeout resourceURI =
     (NewTransport DefaultTransport client_transport resourceURI, timeout)"

end
