(* ===== verification/Sdk_Properties.thy ===== *)
theory Sdk_Properties
  imports Transport Handler_Properties
begin

text \<open>
  The properties of the client library: what a call of \<open>GetToken\<close> returns and caches, what
  revocation evicts, what concurrent calls do to the network, and what the transport sends.
\<close>

section \<open>Reading responses\<close>

lemma Unmarshal_object:
  assumes "writable (DObj ms) max_nesting"
  shows "Unmarshal f zero (json_text (DObj ms)) = decode_members f (map (map_prod to_valid jdoc_valid) ms) zero"
  using json_parse_text [OF assms] by (simp add: Unmarshal_def o_def map_prod_def case_prod_unfold)

section \<open>The cache\<close>

lemma cached_at_iff:
  assumes "sint (expiryBuffer c) < maxDuration"
  shows "cached_at c r t = Some tok \<longleftrightarrow>
    (\<exists>ct. cachedTokens c r = Some ct \<and> accessToken ct = tok
        \<and> cachedExpiresAt ct - t > sint (expiryBuffer c))"
  by (auto simp: cached_at_def time_Sub_greater_iff [OF assms] split: option.split)

lemma cached_at_None_iff:
  assumes "sint (expiryBuffer c) < maxDuration"
  shows "cached_at c r t = None \<longleftrightarrow>
    (\<forall>ct. cachedTokens c r = Some ct \<longrightarrow> cachedExpiresAt ct - t \<le> sint (expiryBuffer c))"
  by (auto simp: cached_at_def time_Sub_greater_iff [OF assms] not_less split: option.split)

lemma sdk_time_eq: "sdk_time c = (next_reading (sdkNow c), c\<lparr>sdkNow := snd (now (sdkNow c))\<rparr>)"
  by (simp add: sdk_time_def now_def)

lemma cached_at_frame [simp]: "cached_at (c\<lparr>sdkNow := k\<rparr>) r t = cached_at c r t"
  by (simp add: cached_at_def split: option.split)

lemma sdk_config_frame:
  "endpoint (c\<lparr>sdkNow := k\<rparr>) p = endpoint c p"
  "endpoint (c\<lparr>cachedTokens := ts\<rparr>) p = endpoint c p"
  "form_request (c\<lparr>sdkNow := k\<rparr>) q = form_request c q"
  "form_request (c\<lparr>cachedTokens := ts\<rparr>) q = form_request c q"
  by (simp_all add: endpoint_def form_request_def)

lemma fetchToken_frame [simp]:
  "fetchToken lib Do r (c\<lparr>sdkNow := k\<rparr>) net = fetchToken lib Do r c net"
  "fetchToken lib Do r (c\<lparr>cachedTokens := ts\<rparr>) net = fetchToken lib Do r c net"
  unfolding fetchToken_def sdk_config_frame by (rule refl)+

text \<open>C35: a call of \<open>GetToken\<close> returns the cached token of the resource, without using the
  network, exactly when more than the buffer is left of it; otherwise it fetches once, and the
  fetched token is returned and cached with its lifetime counted from the start of the call; a
  failed fetch is returned and leaves the cache alone. The second look at the cache changes
  nothing when no other call intervenes.\<close>

theorem GetToken_behaviour:
  assumes "sint (expiryBuffer c) < maxDuration"
    and "GetToken lib Do r c net = (res, c1, net1)"
  shows "(case cachedTokens c r of
       Some ct \<Rightarrow> cachedExpiresAt ct - next_reading (sdkNow c) > sint (expiryBuffer c)
           \<and> res = Inr (accessToken ct) \<and> net1 = net \<and> cachedTokens c1 = cachedTokens c
     | None \<Rightarrow> False)
   \<or> (\<forall>ct. cachedTokens c r = Some ct \<longrightarrow>
          cachedExpiresAt ct - next_reading (sdkNow c) \<le> sint (expiryBuffer c))
     \<and> (case fetchToken lib Do r c net of
          (Inl e, net2) \<Rightarrow> res = Inl e \<and> net1 = net2 \<and> cachedTokens c1 = cachedTokens c
        | (Inr resp, net2) \<Rightarrow> res = Inr (AccessToken resp) \<and> net1 = net2
            \<and> cachedTokens c1 = (cachedTokens c)(r \<mapsto>
                \<lparr>accessToken = AccessToken resp,
                 cachedExpiresAt = next_reading (sdkNow c) + sint (ExpiresIn resp * Second)\<rparr>))"
proof (cases "cached_at c r (next_reading (sdkNow c))")
  case (Some tok)
  with assms(2) have "res = Inr tok" "net1 = net" "cachedTokens c1 = cachedTokens c"
    by (auto simp: GetToken_def sdk_time_eq)
  with Some cached_at_iff [OF assms(1)] show ?thesis by fastforce
next
  case None
  note n = this [unfolded cached_at_None_iff [OF assms(1)]]
  from None assms(2) have "case fetchToken lib Do r c net of
          (Inl e, net2) \<Rightarrow> res = Inl e \<and> net1 = net2 \<and> cachedTokens c1 = cachedTokens c
        | (Inr resp, net2) \<Rightarrow> res = Inr (AccessToken resp) \<and> net1 = net2
            \<and> cachedTokens c1 = (cachedTokens c)(r \<mapsto>
                \<lparr>accessToken = AccessToken resp,
                 cachedExpiresAt = next_reading (sdkNow c) + sint (ExpiresIn resp * Second)\<rparr>)"
    by (auto simp: GetToken_def sdk_time_eq GetToken_locked_def Let_def time_Add_def
        split: prod.splits sum.splits)
  with n show ?thesis by blast
qed

section \<open>A concrete client\<close>

text \<open>A client with a server whose URL parses, on a fixed clock; its network answers every
  request with one token good for an hour, and counts the requests.\<close>

definition demo_sdklib :: SdkLib where
  "demo_sdklib = \<lparr>sdk_ip_literal = (\<lambda>_. None), strconv_Quote = (\<lambda>s. s), time_Parse = (\<lambda>_. None)\<rparr>"

definition demo_config :: Config where
  "demo_config = \<lparr>ServerURL = ''http://as/'', cfg_ClientID = ''c1'', cfg_ClientSecret = ''pw'',
     cfg_ExpiryBuffer = 0\<rparr>"

definition demo_sdk :: SdkClient where
  "demo_sdk = sdk_New (fixed_clock 0) demo_config"

definition demo_body :: bytes where
  "demo_body = json_text (DObj [(''access_token'', DStr ''tok''), (''expires_in'', DNum (decimal 3600))])"

definition demo_network :: "nat network" where
  "demo_network req n = (Inr \<lparr>p_Status = 200, p_Body = demo_body\<rparr>, Suc n)"

definition demo_answer :: TokenResponse where
  "demo_answer = \<lparr>AccessToken = ''tok'', TokenType = [], ExpiresIn = 3600, tresp_Resource = [],
     tresp_Scope = []\<rparr>"

lemma demo_url: "url_Parse (\<lambda>_. None) ''http://as/oauth/token''
   = Inr \<lparr>url_Scheme = ''http'', url_Opaque = [], url_Host = ''as'', url_Path = ''/oauth/token'',
          url_RawQuery = [], url_Fragment = []\<rparr>"
  by code_simp

lemma demo_decode:
  "Unmarshal token_member
     \<lparr>AccessToken = [], TokenType = [], ExpiresIn = 0, tresp_Resource = [], tresp_Scope = []\<rparr> demo_body
   = Inr demo_answer"
proof -
  have "to_valid ''access_token'' = ''access_token''" "to_valid ''expires_in'' = ''expires_in''"
    "to_valid ''tok'' = ''tok''" "fold_key ''access_token'' = ''access_token''"
    "fold_key ''expires_in'' = ''expires_in''" by code_simp+
  then show ?thesis
    by (simp add: demo_body_def Unmarshal_object max_nesting_pos token_member_def demo_answer_def)
qed

lemma demo_fetch: "fetchToken demo_sdklib demo_network [] demo_sdk n = (Inr demo_answer, Suc n)"
proof -
  have "endpoint demo_sdk ''/oauth/token'' = ''http://as/oauth/token''" by code_simp
  then show ?thesis
    using demo_url demo_decode by (auto simp: fetchToken_def Let_def NewRequest_def demo_network_def demo_sdklib_def)
qed

lemma demo_sdk_simps [simp]:
  "expiryBuffer demo_sdk = tokenExpiryBuffer" "cachedTokens demo_sdk = Map.empty"
  "sdkNow demo_sdk = fixed_clock 0"
  by (simp_all add: demo_sdk_def sdk_New_def demo_config_def)

lemma sint_tokenExpiryBuffer: "sint tokenExpiryBuffer = 30000000000"
  by (simp add: tokenExpiryBuffer_def Second_def nanos_per_second_def)

lemma demo_buffer: "sint (expiryBuffer demo_sdk) < maxDuration"
  by (simp add: sint_tokenExpiryBuffer maxDuration_def)

theorem GetToken_behaviour_witness:
  "\<exists>c1. GetToken demo_sdklib demo_network [] demo_sdk 0 = (Inr ''tok'', c1, 1)
     \<and> cachedTokens c1 [] = Some \<lparr>accessToken = ''tok'', cachedExpiresAt = 3600000000000\<rparr>"
proof -
  obtain res c1 net1 where g: "GetToken demo_sdklib demo_network [] demo_sdk 0 = (res, c1, net1)"
    by (metis prod_cases3)
  from GetToken_behaviour [OF demo_buffer g] g show ?thesis
    by (auto simp: demo_fetch demo_answer_def fixed_clock_def)
qed

section \<open>Lifetimes\<close>

lemma sint_times_Second:
  fixes w :: int64
  assumes "\<bar>sint w\<bar> \<le> 9223372036"
  shows "sint (w * Second) = sint w * 1000000000"
proof -
  have "sint (w * Second) = signed_take_bit 63 (sint w * 1000000000)"
    by (simp add: sint_word_ariths nanos_per_second_def)
  also have "\<dots> = sint w * 1000000000"
    using assms by (intro signed_take_bit_int_eq_self) auto
  finally show ?thesis .
qed

text \<open>C36: the lifetime the cache records for a fetched token is \<open>expires_in\<close> seconds exactly for
  every value up to 9223372036 (292 years); the multiplication wraps above that, and 9223372037
  is recorded as already expired, so such a token is fetched again on every call.\<close>

theorem cached_lifetime:
  assumes "cachedTokens c r = None" "fetchToken lib Do r c net = (Inr resp, net2)"
  shows "\<exists>ct. cachedTokens (fst (snd (GetToken lib Do r c net))) r = Some ct
     \<and> (\<bar>sint (ExpiresIn resp)\<bar> \<le> 9223372036 \<longrightarrow>
          cachedExpiresAt ct = next_reading (sdkNow c) + sint (ExpiresIn resp) * 1000000000)
     \<and> (ExpiresIn resp = 9223372037 \<longrightarrow> cachedExpiresAt ct < next_reading (sdkNow c))"
proof -
  have wrap: "sint (9223372037 * Second) < 0"
    by (simp add: Second_def nanos_per_second_def)
  have none: "cached_at c r t = None" for t using assms(1) by (simp add: cached_at_def)
  have "cachedTokens (fst (snd (GetToken lib Do r c net))) r
      = Some \<lparr>accessToken = AccessToken resp,
          cachedExpiresAt = next_reading (sdkNow c) + sint (ExpiresIn resp * Second)\<rparr>"
    using assms(2) none
    by (simp add: GetToken_def sdk_time_eq GetToken_locked_def Let_def time_Add_def)
  then show ?thesis using sint_times_Second [of "ExpiresIn resp"] wrap by auto
qed

theorem cached_lifetime_witness:
  "\<exists>ct. cachedTokens (fst (snd (GetToken demo_sdklib demo_network [] demo_sdk 0))) [] = Some ct
     \<and> cachedExpiresAt ct = 3600000000000"
  using cached_lifetime [of demo_sdk "[]" demo_sdklib demo_network 0 demo_answer 1] demo_fetch [of 0]
  by (auto simp: demo_answer_def fixed_clock_def)

text \<open>A token fetched once is returned to later calls for its resource, by any later clock and
  without the network, as long as more than the buffer is left of its lifetime.\<close>

theorem GetToken_reuses:
  assumes "cachedTokens c r = None" "fetchToken lib Do r c net = (Inr resp, net2)"
    and "GetToken lib Do r c net = (res, c1, net1)"
    and "sint (expiryBuffer c) < maxDuration" "\<bar>sint (ExpiresIn resp)\<bar> \<le> 9223372036"
  shows "(\<exists>c2. GetToken lib Do r (c1\<lparr>sdkNow := k\<rparr>) net' = (Inr (AccessToken resp), c2, net')
        \<and> cachedTokens c2 = cachedTokens c1)
      \<or> next_reading k + sint (expiryBuffer c)
          \<ge> next_reading (sdkNow c) + sint (ExpiresIn resp) * 1000000000"
proof -
  have none: "cached_at c r t = None" for t using assms(1) by (simp add: cached_at_def)
  have life: "sint (ExpiresIn resp * Second) = sint (ExpiresIn resp) * 1000000000"
    using assms(5) by (rule sint_times_Second)
  have c1: "cachedTokens c1 r = Some \<lparr>accessToken = AccessToken resp,
        cachedExpiresAt = next_reading (sdkNow c) + sint (ExpiresIn resp) * 1000000000\<rparr>"
      "expiryBuffer c1 = expiryBuffer c"
    using assms(2,3) none life
    by (auto simp: GetToken_def sdk_time_eq GetToken_locked_def Let_def time_Add_def)
  show ?thesis
  proof (cases "cached_at c1 r (next_reading k)")
    case (Some tok)
    with c1(1) have "tok = AccessToken resp" by (simp add: cached_at_def split: if_splits)
    with Some show ?thesis by (simp add: GetToken_def sdk_time_eq)
  next
    case None
    with assms(4) c1 show ?thesis by (simp add: cached_at_None_iff)
  qed
qed

theorem GetToken_reuses_witness:
  "\<exists>c1 net1 c2. GetToken demo_sdklib demo_network [] demo_sdk 0 = (Inr ''tok'', c1, net1)
     \<and> GetToken demo_sdklib demo_network [] (c1\<lparr>sdkNow := fixed_clock 3569000000000\<rparr>) net1
       = (Inr ''tok'', c2, net1)"
proof -
  obtain res c1 net1 where g: "GetToken demo_sdklib demo_network [] demo_sdk 0 = (res, c1, net1)"
    by (metis prod_cases3)
  then have "res = Inr ''tok''"
    by (auto simp: GetToken_def sdk_time_eq GetToken_locked_def cached_at_def demo_fetch demo_answer_def)
  with GetToken_reuses [OF _ demo_fetch g demo_buffer, of "fixed_clock 3569000000000" net1] g
  show ?thesis by (auto simp: demo_answer_def fixed_clock_def sint_tokenExpiryBuffer)
qed

section \<open>Revocation\<close>

text \<open>After a revocation the server confirmed, the cache holds the token under no resource and
  every other entry as before; a failed revocation leaves the cache alone.\<close>

theorem sdk_Revoke_evicts:
  assumes "sdk_Revoke lib Do tok c net = (err, c1, net1)"
  shows "if err = None
     then (\<forall>r. cachedTokens c1 r = (case cachedTokens c r of None \<Rightarrow> None
             | Some ct \<Rightarrow> if accessToken ct = tok then None else Some ct))
       \<and> (\<forall>r t. cached_at c1 r t \<noteq> Some tok)
     else c1 = c"
proof -
  have "err = None \<and> c1 = evict tok c \<or> err \<noteq> None \<and> c1 = c"
    using assms by (auto simp: sdk_Revoke_def split: sum.splits prod.splits if_splits)
  then show ?thesis by (auto simp: evict_def cached_at_def split: option.splits if_splits)
qed

theorem sdk_Revoke_evicts_witness:
  "\<exists>c1. sdk_Revoke demo_sdklib demo_network ''tok''
       (demo_sdk\<lparr>cachedTokens := (\<lambda>_. Some \<lparr>accessToken = ''tok'', cachedExpiresAt = 0\<rparr>)\<rparr>) 0
     = (None, c1, 1) \<and> cachedTokens c1 ''x'' = None"
proof -
  let ?c = "demo_sdk\<lparr>cachedTokens := (\<lambda>_. Some \<lparr>accessToken = ''tok'', cachedExpiresAt = 0\<rparr>)\<rparr>"
  have u: "url_Parse (\<lambda>_. None) ''http://as/oauth/revoke''
     = Inr \<lparr>url_Scheme = ''http'', url_Opaque = [], url_Host = ''as'', url_Path = ''/oauth/revoke'',
          url_RawQuery = [], url_Fragment = []\<rparr>" by code_simp
  have "endpoint demo_sdk ''/oauth/revoke'' = ''http://as/oauth/revoke''" by code_simp
  with u obtain c1 where r: "sdk_Revoke demo_sdklib demo_network ''tok'' ?c 0 = (None, c1, 1)"
    by (simp add: sdk_Revoke_def sdk_config_frame NewRequest_def demo_network_def demo_sdklib_def)
  from sdk_Revoke_evicts [OF this] r show ?thesis by simp
qed

section \<open>The transport\<close>

text \<open>A request reaches the base transport only with a token that \<open>GetToken\<close> returned for its
  target resource, as \<open>Bearer\<close> credentials that the server's middleware reads back, and with its
  other headers as they were; when no token can be had, the base transport is not called.\<close>

theorem RoundTrip_authorizes:
  assumes "GetToken lib net_Do (target_resource t req) c net = (res, c1, net1)"
  shows "case res of
      Inl e \<Rightarrow> \<exists>msg. RoundTrip lib net_Do t req c net = (Inl (Wrapf msg e []), c1, net1)
    | Inr tok \<Rightarrow> \<exists>req'. RoundTrip lib net_Do t req c net
          = (fst (t_base t req' net1), c1, snd (t_base t req' net1))
        \<and> (\<forall>k. k \<noteq> ''Authorization'' \<longrightarrow> u_Header req' k = u_Header req k)
        \<and> u_Header req' ''Authorization'' = [''Bearer '' @ tok]
        \<and> (graphics tok \<and> tok \<noteq> [] \<longrightarrow> bearer_token (''Bearer '' @ tok) = Some tok)
        \<and> u_URL req' = u_URL req \<and> u_Method req' = u_Method req \<and> u_Body req' = u_Body req"
proof (cases res)
  case (Inl e)
  with assms show ?thesis by (simp add: RoundTrip_def Let_def)
next
  case (Inr tok)
  let ?r = "req\<lparr>u_Header := (u_Header req)(''Authorization'' := [''Bearer '' @ tok])\<rparr>"
  have "RoundTrip lib net_Do t req c net = (fst (t_base t ?r net1), c1, snd (t_base t ?r net1))"
    using assms Inr by (simp add: RoundTrip_def Let_def split: prod.splits)
  with Inr bearer_token_Bearer [of tok] show ?thesis by (auto intro!: exI [of _ ?r])
qed

theorem RoundTrip_authorizes_witness:
  "\<exists>c1. RoundTrip demo_sdklib demo_network
      (NewTransport (\<lambda>r n. (Inr (u_Header r ''Authorization''), n)) None [])
      \<lparr>u_Method = ''GET'', u_URL = None, u_Header = (\<lambda>_. []), u_Body = []\<rparr> demo_sdk 0
    = (Inr [''Bearer tok''], c1, 1)"
proof -
  let ?t = "NewTransport (\<lambda>r n. (Inr (u_Header r ''Authorization''), n)) None []
      :: (nat, string list) Transport"
  let ?r = "\<lparr>u_Method = ''GET'', u_URL = None, u_Header = (\<lambda>_. []), u_Body = []\<rparr>"
  have "target_resource ?t ?r = []" by (simp add: target_resource_def NewTransport_def)
  then obtain c1 where "GetToken demo_sdklib demo_network (target_resource ?t ?r) demo_sdk 0
      = (Inr ''tok'', c1, 1)"
    by (auto simp: GetToken_def sdk_time_eq GetToken_locked_def cached_at_def demo_fetch demo_answer_def)
  from RoundTrip_authorizes [OF this] show ?thesis by (auto simp: NewTransport_def)
qed

end
