(* ===== verification/Sdk_Concurrency.thy ===== *)
theory Sdk_Concurrency
  imports Sdk_Properties
begin

text \<open>
  Concurrent calls of \<open>GetToken\<close> on one client. Goroutine \<open>i\<close> wants a token for \<open>res i\<close>; its call
  is three atomic steps: it reads the clock, it looks into the cache under the read lock, and,
  if that missed, it runs the section under the write lock, the fetch included, which excludes
  every other access to the cache. Steps of different goroutines interleave freely.
\<close>

section \<open>The interleaving\<close>

datatype call_state = Start | Clocked time | Missed time | Done "go_error + string"

text \<open>Beside the program's state, \<open>fetches\<close> records the fetches made and what they gave.\<close>

record 'net Conc =
  cc_client :: SdkClient
  cc_net :: 'net
  cc_calls :: "nat \<Rightarrow> call_state"
  cc_fetches :: "(string \<times> (go_error + TokenResponse)) list"

inductive conc_step ::
  "SdkLib \<Rightarrow> 'net network \<Rightarrow> (nat \<Rightarrow> string) \<Rightarrow> 'net Conc \<Rightarrow> 'net Conc \<Rightarrow> bool"
  for lib Do res where
  read_clock: "cc_calls s i = Start \<Longrightarrow> sdk_time (cc_client s) = (t, c) \<Longrightarrow>
    conc_step lib Do res s (s\<lparr>cc_client := c, cc_calls := (cc_calls s)(i := Clocked t)\<rparr>)"
| hit: "cc_calls s i = Clocked t \<Longrightarrow> cached_at (cc_client s) (res i) t = Some tok \<Longrightarrow>
    conc_step lib Do res s (s\<lparr>cc_calls := (cc_calls s)(i := Done (Inr tok))\<rparr>)"
| miss: "cc_calls s i = Clocked t \<Longrightarrow> cached_at (cc_client s) (res i) t = None \<Longrightarrow>
    conc_step lib Do res s (s\<lparr>cc_calls := (cc_calls s)(i := Missed t)\<rparr>)"
| lock: "cc_calls s i = Missed t \<Longrightarrow>
    GetToken_locked lib Do (res i) t (cc_client s) (cc_net s) = (r, c, net) \<Longrightarrow>
    conc_step lib Do res s
      (s\<lparr>cc_client := c, cc_net := net, cc_calls := (cc_calls s)(i := Done r),
         cc_fetches := cc_fetches s @
           (if cached_at (cc_client s) (res i) t = None
            then [(res i, fst (fetchToken lib Do (res i) (cc_client s) (cc_net s)))] else [])\<rparr>)"

inductive conc_run ::
  "SdkLib \<Rightarrow> 'net network \<Rightarrow> (nat \<Rightarrow> string) \<Rightarrow> 'net Conc \<Rightarrow> 'net Conc \<Rightarrow> bool"
  for lib Do res s0 where
  conc_none: "conc_run lib Do res s0 s0"
| conc_more: "conc_run lib Do res s0 s \<Longrightarrow> conc_step lib Do res s s' \<Longrightarrow> conc_run lib Do res s0 s'"

text \<open>All calls at their start, on a client with an empty cache.\<close>

definition conc_init :: "SdkClient \<Rightarrow> 'net \<Rightarrow> 'net Conc" where
  "conc_init c net = \<lparr>cc_client = c\<lparr>cachedTokens := Map.empty\<rparr>, cc_net = net,
     cc_calls = (\<lambda>_. Start), cc_fetches = []\<rparr>"

text \<open>The successful fetches for one resource.\<close>

fun fetched :: "string \<Rightarrow> (string \<times> (go_error + TokenResponse)) list \<Rightarrow> TokenResponse list" where
  "fetched r [] = []"
| "fetched r ((q, Inr y) # fs) = (if q = r then y # fetched r fs else fetched r fs)"
| "fetched r ((q, Inl e) # fs) = fetched r fs"

lemma fetched_append [simp]: "fetched r (fs @ gs) = fetched r fs @ fetched r gs"
  by (induction r fs rule: fetched.induct) auto

text \<open>The two outcomes of the locked section.\<close>

lemma GetToken_locked_cases:
  assumes "GetToken_locked lib Do r t c net = (res, c', net')"
  obtains (again) tok where "cached_at c r t = Some tok" "res = Inr tok" "c' = c"
  | (failed) e where "cached_at c r t = None" "fst (fetchToken lib Do r c net) = Inl e"
      "res = Inl e" "c' = c"
  | (stored) resp where "cached_at c r t = None" "fst (fetchToken lib Do r c net) = Inr resp"
      "res = Inr (AccessToken resp)"
      "c' = c\<lparr>cachedTokens := (cachedTokens c)(r \<mapsto> \<lparr>accessToken = AccessToken resp,
         cachedExpiresAt = t + sint (ExpiresIn resp * Second)\<rparr>)\<rparr>"
  using assms
  by (auto simp: GetToken_locked_def Let_def time_Add_def split: option.splits prod.splits sum.splits)

text \<open>
  The invariant for one resource, for clock readings between \<open>T0\<close> and \<open>T1\<close>: it was never
  fetched successfully and is not cached, or it was fetched once, is cached, and stays usable
  until \<open>T1\<close>; calls that have returned a token for it returned that one.
\<close>

definition single_flight :: "(nat \<Rightarrow> string) \<Rightarrow> string \<Rightarrow> time \<Rightarrow> time \<Rightarrow> duration \<Rightarrow> 'net Conc \<Rightarrow> bool" where
  "single_flight res R T0 T1 b s \<longleftrightarrow>
     expiryBuffer (cc_client s) = b
   \<and> (\<forall>n. T0 \<le> reading (sdkNow (cc_client s)) n \<and> reading (sdkNow (cc_client s)) n \<le> T1)
   \<and> (\<forall>i t. cc_calls s i = Clocked t \<or> cc_calls s i = Missed t \<longrightarrow> T0 \<le> t \<and> t \<le> T1)
   \<and> (\<forall>i tok. res i = R \<and> cc_calls s i = Done (Inr tok) \<longrightarrow>
        (\<exists>resp. fetched R (cc_fetches s) = [resp] \<and> tok = AccessToken resp))
   \<and> (cachedTokens (cc_client s) R = None \<and> fetched R (cc_fetches s) = []
      \<or> (\<exists>resp ct. fetched R (cc_fetches s) = [resp] \<and> cachedTokens (cc_client s) R = Some ct
           \<and> accessToken ct = AccessToken resp \<and> cachedExpiresAt ct - T1 > sint b))"

lemma single_flight_hit:
  assumes "single_flight res R T0 T1 b s" "cached_at (cc_client s) R t = Some tok"
  shows "\<exists>resp. fetched R (cc_fetches s) = [resp] \<and> tok = AccessToken resp"
  using assms by (auto simp: single_flight_def cached_at_def split: option.splits if_splits)

lemma single_flight_miss:
  assumes "single_flight res R T0 T1 b s" "sint b < maxDuration" "t \<le> T1"
    and "cached_at (cc_client s) R t = None"
  shows "cachedTokens (cc_client s) R = None \<and> fetched R (cc_fetches s) = []"
  using assms by (auto simp: single_flight_def cached_at_None_iff)

lemma single_flight_step:
  assumes "conc_step lib Do res s s'" "single_flight res R T0 T1 b s" "sint b < maxDuration"
    and life: "\<And>c net resp. fst (fetchToken lib Do R c net) = Inr resp \<Longrightarrow>
        sint (ExpiresIn resp * Second) > T1 - T0 + sint b"
  shows "single_flight res R T0 T1 b s'"
  using assms(1)
proof cases
  case (read_clock i t c)
  with assms(2) show ?thesis by (auto simp: single_flight_def sdk_time_eq)
next
  case (hit i t tok)
  with single_flight_hit [OF assms(2), of t tok] assms(2) show ?thesis
    by (auto simp: single_flight_def)
next
  case (miss i t)
  with assms(2) show ?thesis by (auto simp: single_flight_def)
next
  case (lock i t r c net)
  have t: "T0 \<le> t" "t \<le> T1" using assms(2) lock(2) by (auto simp: single_flight_def)
  from lock(3) show ?thesis
  proof (cases rule: GetToken_locked_cases)
    case (again tok)
    with lock single_flight_hit [OF assms(2), of t tok] assms(2) show ?thesis
      by (auto simp: single_flight_def)
  next
    case (failed e)
    with lock assms(2) show ?thesis
      by (auto simp: single_flight_def)
  next
    case (stored resp)
    show ?thesis
    proof (cases "res i = R")
      case True
      with single_flight_miss [OF assms(2,3) t(2)] stored have
        fresh: "cachedTokens (cc_client s) R = None" "fetched R (cc_fetches s) = []" by simp_all
      have "\<not> (\<exists>j tok. res j = R \<and> cc_calls s j = Done (Inr tok))"
        using assms(2) fresh by (auto simp: single_flight_def)
      moreover have "t + sint (ExpiresIn resp * Second) - T1 > sint b"
        using life [of "cc_client s" "cc_net s" resp] stored(2) True t by simp
      ultimately show ?thesis
        using lock stored True fresh assms(2)
        by (auto simp: single_flight_def)
    next
      case False
      with lock stored assms(2) show ?thesis
        by (auto simp: single_flight_def)
    qed
  qed
qed

lemma single_flight_run:
  assumes "conc_run lib Do res s0 s" "single_flight res R T0 T1 b s0" "sint b < maxDuration"
    and "\<And>c net resp. fst (fetchToken lib Do R c net) = Inr resp \<Longrightarrow>
        sint (ExpiresIn resp * Second) > T1 - T0 + sint b"
  shows "single_flight res R T0 T1 b s"
  using assms(1) by (induction rule: conc_run.induct) (auto intro: assms(2) single_flight_step assms(3,4))

section \<open>One fetch\<close>

text \<open>C19: however many goroutines ask for tokens at once and however their steps interleave, a
  resource is fetched successfully at most once and all its callers that got a token got the
  same one, as long as the clock stays within an interval that the lifetime of the token, less
  the buffer, covers.\<close>

theorem concurrent_single_fetch:
  assumes "conc_run lib Do res (conc_init c net) s"
    and "\<And>n. T0 \<le> reading (sdkNow c) n \<and> reading (sdkNow c) n \<le> T1"
    and "sint (expiryBuffer c) < maxDuration"
    and "\<And>c' net' resp. fst (fetchToken lib Do R c' net') = Inr resp \<Longrightarrow>
        sint (ExpiresIn resp * Second) > T1 - T0 + sint (expiryBuffer c)"
  shows "length (fetched R (cc_fetches s)) \<le> 1
    \<and> (\<forall>i j tok tok'. res i = R \<and> res j = R \<and> cc_calls s i = Done (Inr tok)
         \<and> cc_calls s j = Done (Inr tok') \<longrightarrow> tok = tok' \<and> map AccessToken (fetched R (cc_fetches s)) = [tok])"
proof -
  have "single_flight res R T0 T1 (expiryBuffer c) (conc_init c net)"
    using assms(2) by (simp add: single_flight_def conc_init_def)
  have inv: "single_flight res R T0 T1 (expiryBuffer c) s"
    by (rule single_flight_run [OF assms(1) \<open>single_flight res R T0 T1 (expiryBuffer c) (conc_init c net)\<close>
        assms(3)]) (rule assms(4))
  have "length (fetched R (cc_fetches s)) \<le> 1"
    using inv by (auto simp: single_flight_def)
  moreover have one: "map AccessToken (fetched R (cc_fetches s)) = [tok]"
    if "res i = R" "cc_calls s i = Done (Inr tok)" for i tok
    using inv that unfolding single_flight_def by fastforce
  ultimately show ?thesis by (metis list.inject)
qed

lemma demo_network_answers:
  assumes "fst (fetchToken demo_sdklib demo_network r c net) = Inr resp"
  shows "ExpiresIn resp = 3600"
  using assms demo_decode by (auto simp: fetchToken_def Let_def demo_network_def demo_answer_def split: sum.splits)

lemma demo_locked:
  "GetToken_locked demo_sdklib demo_network [] 0 (demo_sdk\<lparr>sdkNow := k\<rparr>) 0
   = (Inr ''tok'', demo_sdk\<lparr>sdkNow := k, cachedTokens := [[] \<mapsto> \<lparr>accessToken = ''tok'',
        cachedExpiresAt = 3600000000000\<rparr>]\<rparr>, 1)"
  by (simp add: GetToken_locked_def cached_at_def demo_fetch demo_answer_def time_Add_def)

text \<open>Two goroutines, the second of which misses the cache before the first one fetches.\<close>

theorem concurrent_single_fetch_witness:
  "\<exists>s. conc_run demo_sdklib demo_network (\<lambda>_. []) (conc_init demo_sdk 0) s \<and> cc_net s = 1
     \<and> cc_calls s 0 = Done (Inr ''tok'') \<and> cc_calls s 1 = Done (Inr ''tok'')
     \<and> length (fetched [] (cc_fetches s)) \<le> 1"
proof -
  let ?step = "conc_step demo_sdklib demo_network (\<lambda>_. [])"
  let ?ct = "[[] \<mapsto> \<lparr>accessToken = ''tok'', cachedExpiresAt = 3600000000000\<rparr>]"
  define s0 where "s0 = conc_init demo_sdk (0::nat)"
  define k1 where "k1 = snd (now (fixed_clock 0))"
  define s1 where "s1 = s0\<lparr>cc_client := demo_sdk\<lparr>sdkNow := k1\<rparr>, cc_calls := (cc_calls s0)(0 := Clocked 0)\<rparr>"
  define k2 where "k2 = snd (now k1)"
  define s2 where "s2 = s1\<lparr>cc_client := demo_sdk\<lparr>sdkNow := k2\<rparr>, cc_calls := (cc_calls s1)(1 := Clocked 0)\<rparr>"
  define s3 where "s3 = s2\<lparr>cc_calls := (cc_calls s2)(0 := Missed 0)\<rparr>"
  define s4 where "s4 = s3\<lparr>cc_calls := (cc_calls s3)(1 := Missed 0)\<rparr>"
  define s5 where "s5 = s4\<lparr>cc_client := demo_sdk\<lparr>sdkNow := k2, cachedTokens := ?ct\<rparr>, cc_net := 1,
      cc_calls := (cc_calls s4)(0 := Done (Inr ''tok'')),
      cc_fetches := cc_fetches s4 @ [([], Inr demo_answer)]\<rparr>"
  define s6 where "s6 = s5\<lparr>cc_client := cc_client s5, cc_net := 1,
      cc_calls := (cc_calls s5)(1 := Done (Inr ''tok'')), cc_fetches := cc_fetches s5 @ []\<rparr>"
  have empty: "cc_client s0 = demo_sdk" by (simp add: s0_def conc_init_def)
  have k: "next_reading k1 = 0" by (simp add: k1_def now_def fixed_clock_def)
  have a: "?step s0 s1" unfolding s1_def
    by (rule conc_step.read_clock)
      (simp_all add: empty s0_def conc_init_def sdk_time_eq k1_def, simp_all add: fixed_clock_def)
  have b: "?step s1 s2" unfolding s2_def
    by (rule conc_step.read_clock)
      (simp_all add: s1_def s0_def conc_init_def sdk_time_eq k k2_def)
  have c: "?step s2 s3" unfolding s3_def
    by (rule conc_step.miss) (simp_all add: s2_def s1_def s0_def conc_init_def cached_at_def)
  have d: "?step s3 s4" unfolding s4_def
    by (rule conc_step.miss) (simp_all add: s3_def s2_def s1_def s0_def conc_init_def cached_at_def)
  have e: "?step s4 s5"
  proof -
    have "cached_at (cc_client s4) [] 0 = None"
      "fst (fetchToken demo_sdklib demo_network [] (cc_client s4) (cc_net s4)) = Inr demo_answer"
      by (simp_all add: s4_def s3_def s2_def s1_def s0_def conc_init_def cached_at_def demo_fetch)
    then show ?thesis
      using conc_step.lock [of s4 0 0 demo_sdklib demo_network "\<lambda>_. []" "Inr ''tok''"
          "demo_sdk\<lparr>sdkNow := k2, cachedTokens := ?ct\<rparr>" 1]
      by (simp add: s5_def demo_locked s4_def s3_def s2_def s1_def s0_def conc_init_def)
  qed
  have f: "?step s5 s6"
  proof -
    have "cached_at (cc_client s5) [] 0 = Some ''tok''"
      by (simp add: s5_def cached_at_def duration_greater_def sint_time_Sub sint_tokenExpiryBuffer
          maxDuration_def minDuration_def)
    then show ?thesis
      using conc_step.lock [of s5 1 0 demo_sdklib demo_network "\<lambda>_. []" "Inr ''tok''" "cc_client s5" 1]
      by (simp add: s6_def GetToken_locked_def) (simp add: s5_def s4_def)
  qed
  have run: "conc_run demo_sdklib demo_network (\<lambda>_. []) s0 s6"
    by (rule conc_more [OF conc_more [OF conc_more [OF conc_more [OF conc_more [OF conc_more
        [OF conc_none a] b] c] d] e] f])
  have len: "length (fetched [] (cc_fetches s6)) \<le> 1"
  proof (rule conjunct1 [OF concurrent_single_fetch [OF run [unfolded s0_def], of 0 0]])
    show "0 \<le> reading (sdkNow demo_sdk) n \<and> reading (sdkNow demo_sdk) n \<le> 0" for n
      by (simp add: fixed_clock_def)
    show "0 - 0 + sint (expiryBuffer demo_sdk) < sint (ExpiresIn resp * Second)"
      if "fst (fetchToken demo_sdklib demo_network [] c' net') = Inr resp" for c' net' resp
      using demo_network_answers [OF that] by (simp add: sint_tokenExpiryBuffer)
  qed (rule demo_buffer)
  have "cc_net s6 = 1" "cc_calls s6 0 = Done (Inr ''tok'')" "cc_calls s6 1 = Done (Inr ''tok'')"
    by (simp_all add: s6_def s5_def)
  with run len show ?thesis unfolding s0_def by blast
qed

end
