(* ===== verification/Sdk_Schedules.thy ===== *)
theory Sdk_Schedules
  imports Sdk_Concurrency
begin

text \<open>
  More on concurrent calls of \<open>GetToken\<close>: they are linearizable (every schedule gives what some
  sequential order of calls under one lock gives), no call waits for another for ever, and every
  schedule of finitely many calls ends.
\<close>

section \<open>Sequential calls under one lock\<close>

text \<open>The reference: calls one after another, each only the section under the write lock, at the
  time its clock was read.\<close>

fun locked_calls ::
  "SdkLib \<Rightarrow> 'net network \<Rightarrow> (nat \<Rightarrow> string) \<Rightarrow> (nat \<times> time) list \<Rightarrow> SdkClient \<Rightarrow> 'net
   \<Rightarrow> (nat \<times> (go_error + string)) list \<times> SdkClient \<times> 'net" where
  "locked_calls lib Do res [] c net = ([], c, net)"
| "locked_calls lib Do res ((i, t) # order) c net =
     (case GetToken_locked lib Do (res i) t c net of (r, c, net) \<Rightarrow>
      case locked_calls lib Do res order c net of (rs, c, net) \<Rightarrow> ((i, r) # rs, c, net))"

lemma locked_calls_append:
  "locked_calls lib Do res (xs @ ys) c net =
     (case locked_calls lib Do res xs c net of (rs, c, net) \<Rightarrow>
      case locked_calls lib Do res ys c net of (rs', c, net) \<Rightarrow> (rs @ rs', c, net))"
  by (induction xs arbitrary: c net) (auto split: prod.split)

lemma GetToken_locked_clock:
  assumes "GetToken_locked lib Do r t c net = (x, c', net')"
  shows "GetToken_locked lib Do r t (c\<lparr>sdkNow := k\<rparr>) net = (x, c'\<lparr>sdkNow := k\<rparr>, net')
    \<and> sdkNow c' = sdkNow c"
  using assms
  by (auto simp: GetToken_locked_def Let_def split: option.splits prod.splits sum.splits)

text \<open>The order so far reproduces the state, but for the clock, and exactly the results so far.\<close>

definition linearized ::
  "SdkLib \<Rightarrow> 'net network \<Rightarrow> (nat \<Rightarrow> string) \<Rightarrow> SdkClient \<Rightarrow> 'net \<Rightarrow> (nat \<times> time) list \<Rightarrow> 'net Conc \<Rightarrow> bool" where
  "linearized lib Do res c0 net0 order s \<longleftrightarrow>
     (\<exists>rs k. locked_calls lib Do res order c0 net0 = (rs, (cc_client s)\<lparr>sdkNow := k\<rparr>, cc_net s)
        \<and> (\<forall>i r. (i, r) \<in> set rs \<longleftrightarrow> cc_calls s i = Done r) \<and> map fst rs = map fst order)
   \<and> distinct (map fst order) \<and> (\<forall>(i, t) \<in> set order. t \<in> range (reading (sdkNow c0)))
   \<and> reading (sdkNow (cc_client s)) = reading (sdkNow c0)
   \<and> (\<forall>i t. cc_calls s i = Clocked t \<or> cc_calls s i = Missed t \<longrightarrow> t \<in> range (reading (sdkNow c0)))"

text \<open>A step that neither returns nor touches the cache keeps the order.\<close>

lemma linearized_keep:
  assumes "linearized lib Do res c0 net0 order s"
    and "\<forall>r. cc_calls s i \<noteq> Done r" "x = Clocked t \<or> x = Missed t" "t \<in> range (reading (sdkNow c0))"
    and "cc_client s' = (cc_client s)\<lparr>sdkNow := k\<rparr>" "reading k = reading (sdkNow c0)"
    and "cc_net s' = cc_net s" "cc_calls s' = (cc_calls s)(i := x)"
  shows "linearized lib Do res c0 net0 order s'"
proof -
  have "(((cc_calls s)(i := x)) j = Done r) = (cc_calls s j = Done r)" for j r
    using assms(2,3) by auto
  with assms show ?thesis unfolding linearized_def by auto
qed

lemma linearized_extend:
  assumes lin: "linearized lib Do res c0 net0 order s"
    and call: "cc_calls s i = Clocked t \<or> cc_calls s i = Missed t"
    and run: "GetToken_locked lib Do (res i) t (cc_client s) (cc_net s) = (r, c, net)"
    and s': "cc_client s' = c" "cc_net s' = net" "cc_calls s' = (cc_calls s)(i := Done r)"
  shows "linearized lib Do res c0 net0 (order @ [(i, t)]) s'"
proof -
  obtain rs k where l: "locked_calls lib Do res order c0 net0 = (rs, (cc_client s)\<lparr>sdkNow := k\<rparr>, cc_net s)"
    "\<forall>i r. (i, r) \<in> set rs \<longleftrightarrow> cc_calls s i = Done r" "map fst rs = map fst order"
    using lin by (auto simp: linearized_def)
  note g = GetToken_locked_clock [OF run, of k]
  have fresh: "(i, x) \<notin> set rs" for x using call l(2) by auto
  then have "i \<notin> set (map fst rs)" by force
  then have new: "i \<notin> set (map fst order)" by (simp only: l(3) not_False_eq_True)
  have order: "locked_calls lib Do res (order @ [(i, t)]) c0 net0 = (rs @ [(i, r)], c\<lparr>sdkNow := k\<rparr>, net)"
    using l(1) g by (simp add: locked_calls_append)
  have results: "(j, x) \<in> set (rs @ [(i, r)]) \<longleftrightarrow> cc_calls s' j = Done x" for j x
    using l(2) fresh s'(3) by auto
  show ?thesis
    unfolding linearized_def
  proof (intro conjI)
    show "\<exists>rs k. locked_calls lib Do res (order @ [(i, t)]) c0 net0 = (rs, cc_client s'\<lparr>sdkNow := k\<rparr>, cc_net s')
        \<and> (\<forall>i r. (i, r) \<in> set rs \<longleftrightarrow> cc_calls s' i = Done r) \<and> map fst rs = map fst (order @ [(i, t)])"
      using order results l(3) s' by (intro exI [of _ "rs @ [(i, r)]"] exI [of _ k]) simp
  qed (use lin call new s' g in \<open>auto simp: linearized_def\<close>)
qed

lemma linearized_step:
  assumes "conc_step lib Do res s s'" "linearized lib Do res c0 net0 order s"
  shows "\<exists>order'. linearized lib Do res c0 net0 order' s'"
  using assms(1)
proof cases
  case (read_clock i t c)
  from assms(2) have "reading (sdkNow (cc_client s)) = reading (sdkNow c0)" by (simp add: linearized_def)
  with read_clock have "linearized lib Do res c0 net0 order s'"
    by (intro linearized_keep [OF assms(2), where i = i and x = "Clocked t" and t = t
          and k = "snd (now (sdkNow (cc_client s)))"]) (auto simp: sdk_time_eq)
  then show ?thesis ..
next
  case (hit i t tok)
  then have "GetToken_locked lib Do (res i) t (cc_client s) (cc_net s) = (Inr tok, cc_client s, cc_net s)"
    by (simp add: GetToken_locked_def)
  from linearized_extend [OF assms(2) _ this, of s'] hit show ?thesis by auto
next
  case (miss i t)
  from miss assms(2) have t: "t \<in> range (reading (sdkNow c0))" "reading (sdkNow (cc_client s)) = reading (sdkNow c0)"
    by (auto simp: linearized_def)
  have "linearized lib Do res c0 net0 order s'"
    by (rule linearized_keep [OF assms(2), where i = i and x = "Missed t" and t = t
          and k = "sdkNow (cc_client s)"]) (use miss t in simp_all)
  then show ?thesis ..
next
  case (lock i t r c net)
  from linearized_extend [OF assms(2) _ lock(3), of s'] lock show ?thesis by auto
qed

lemma linearized_run:
  assumes "conc_run lib Do res (conc_init c net) s"
  shows "\<exists>order. linearized lib Do res (c\<lparr>cachedTokens := Map.empty\<rparr>) net order s"
  using assms
proof (induction rule: conc_run.induct)
  case conc_none
  have "\<exists>k. c\<lparr>cachedTokens := Map.empty\<rparr> = c\<lparr>cachedTokens := Map.empty, sdkNow := k\<rparr>"
    by (rule exI [of _ "sdkNow c"]) simp
  then have "linearized lib Do res (c\<lparr>cachedTokens := Map.empty\<rparr>) net [] (conc_init c net)"
    by (simp add: linearized_def conc_init_def)
  then show ?case ..
next
  case (conc_more s s')
  then show ?case by (blast dest: linearized_step)
qed

section \<open>Linearizability\<close>

text \<open>C18: the double-checked locking of \<open>GetToken\<close> is equivalent to a single lock: for every
  interleaving of concurrent calls there is an order in which the calls that have returned, run
  one after another each as one critical section, give the same results, the same cache and the
  same use of the network; each at a time its clock has shown.\<close>

theorem concurrent_linearizable:
  assumes "conc_run lib Do res (conc_init c net) s"
  shows "\<exists>order rs c'. locked_calls lib Do res order (c\<lparr>cachedTokens := Map.empty\<rparr>) net = (rs, c', cc_net s)
     \<and> cachedTokens c' = cachedTokens (cc_client s)
     \<and> (\<forall>i r. (i, r) \<in> set rs \<longleftrightarrow> cc_calls s i = Done r)
     \<and> distinct (map fst order) \<and> map fst rs = map fst order
     \<and> (\<forall>(i, t) \<in> set order. t \<in> range (reading (sdkNow c)))"
proof -
  from linearized_run [OF assms] obtain order where
    l: "linearized lib Do res (c\<lparr>cachedTokens := Map.empty\<rparr>) net order s" ..
  then obtain rs k where
    "locked_calls lib Do res order (c\<lparr>cachedTokens := Map.empty\<rparr>) net = (rs, (cc_client s)\<lparr>sdkNow := k\<rparr>, cc_net s)"
    "\<forall>i r. (i, r) \<in> set rs \<longleftrightarrow> cc_calls s i = Done r" "map fst rs = map fst order"
    by (auto simp: linearized_def)
  with l show ?thesis
    by (intro exI [of _ order] exI [of _ rs] exI [of _ "(cc_client s)\<lparr>sdkNow := k\<rparr>"])
      (simp add: linearized_def)
qed

section \<open>Every schedule ends\<close>

text \<open>The steps a call still has to make, at most; a call that has not been made counts as done.\<close>

fun steps_left :: "call_state \<Rightarrow> nat" where
  "steps_left Start = 3"
| "steps_left (Clocked t) = 2"
| "steps_left (Missed t) = 1"
| "steps_left (Done r) = 0"

definition work_left :: "nat \<Rightarrow> 'net Conc \<Rightarrow> nat" where
  "work_left n s = (\<Sum>i<n. steps_left (cc_calls s i))"

text \<open>\<open>n\<close> calls made on a client in any state.\<close>

definition conc_calls :: "nat \<Rightarrow> SdkClient \<Rightarrow> 'net \<Rightarrow> 'net Conc" where
  "conc_calls n c net = \<lparr>cc_client = c, cc_net = net,
     cc_calls = (\<lambda>i. if i < n then Start else Done (Inl io_EOF)), cc_fetches = []\<rparr>"

inductive conc_path ::
  "SdkLib \<Rightarrow> 'net network \<Rightarrow> (nat \<Rightarrow> string) \<Rightarrow> 'net Conc \<Rightarrow> nat \<Rightarrow> 'net Conc \<Rightarrow> bool"
  for lib Do res s0 where
  path_none: "conc_path lib Do res s0 0 s0"
| path_more: "conc_path lib Do res s0 k s \<Longrightarrow> conc_step lib Do res s s' \<Longrightarrow> conc_path lib Do res s0 (Suc k) s'"

text \<open>A step moves one call that had not returned, and only that one.\<close>

lemma conc_step_moves:
  assumes "conc_step lib Do res s s'"
  shows "\<exists>i x. cc_calls s' = (cc_calls s)(i := x) \<and> steps_left x < steps_left (cc_calls s i)"
  using assms by cases fastforce+

lemma work_left_upd:
  assumes "i < n" "cc_calls s' = (cc_calls s)(i := x)" "steps_left x < steps_left (cc_calls s i)"
  shows "work_left n s' < work_left n s"
proof -
  have "steps_left (((cc_calls s)(i := x)) j) \<le> steps_left (cc_calls s j)" for j
    using assms(3) by simp
  moreover have "steps_left (((cc_calls s)(i := x)) i) < steps_left (cc_calls s i)"
    using assms(3) by simp
  ultimately show ?thesis
    unfolding work_left_def assms(2) using assms(1)
    by (intro sum_strict_mono_ex1) auto
qed

lemma conc_step_work:
  assumes "conc_step lib Do res s s'" "\<forall>i \<ge> n. steps_left (cc_calls s i) = 0"
  shows "work_left n s' < work_left n s \<and> (\<forall>i \<ge> n. steps_left (cc_calls s' i) = 0)"
proof -
  from conc_step_moves [OF assms(1)] obtain i x where
    i: "cc_calls s' = (cc_calls s)(i := x)" "steps_left x < steps_left (cc_calls s i)" by blast
  with assms(2) have "i < n" by (metis leI not_less_zero)
  with work_left_upd [OF this i] i assms(2) show ?thesis by auto
qed

text \<open>The step that call \<open>i\<close> can make whatever the others do.\<close>

lemma conc_step_enabled:
  assumes "steps_left (cc_calls s i) \<noteq> 0"
  shows "\<exists>s'. conc_step lib Do res s s' \<and> steps_left (cc_calls s' i) < steps_left (cc_calls s i)
    \<and> (\<forall>j. j \<noteq> i \<longrightarrow> cc_calls s' j = cc_calls s j)"
proof (cases "cc_calls s i")
  case Start
  obtain t c where "sdk_time (cc_client s) = (t, c)" by fastforce
  from conc_step.read_clock [OF Start this] Start show ?thesis by fastforce
next
  case (Clocked t)
  show ?thesis
  proof (cases "cached_at (cc_client s) (res i) t")
    case None
    from conc_step.miss [where res = res and s = s and i = i, OF Clocked None] Clocked show ?thesis
      by fastforce
  next
    case (Some tok)
    from conc_step.hit [where res = res and s = s and i = i, OF Clocked Some] Clocked show ?thesis
      by fastforce
  qed
next
  case (Missed t)
  obtain r c net where "GetToken_locked lib Do (res i) t (cc_client s) (cc_net s) = (r, c, net)"
    by (metis prod_cases3)
  from conc_step.lock [where res = res and s = s and i = i, OF Missed this] Missed show ?thesis
    by fastforce
next
  case (Done r)
  with assms show ?thesis by simp
qed

lemma conc_path_work:
  "conc_path lib Do res (conc_calls n c net) k s \<Longrightarrow>
   k + work_left n s \<le> 3 * n \<and> (\<forall>i \<ge> n. steps_left (cc_calls s i) = 0)"
proof (induction rule: conc_path.induct)
  case path_none
  show ?case by (simp add: work_left_def conc_calls_def)
next
  case (path_more k s s')
  from path_more.IH have "k + work_left n s \<le> 3 * n" "\<forall>i \<ge> n. steps_left (cc_calls s i) = 0" by auto
  with conc_step_work [OF path_more.hyps(2), of n] show ?case by auto
qed

text \<open>Every schedule of \<open>n\<close> concurrent calls of \<open>GetToken\<close> ends: it has at most \<open>3 * n\<close> steps,
  and it stops exactly when all calls have returned.\<close>

theorem concurrent_terminates:
  assumes "conc_path lib Do res (conc_calls n c net) k s"
  shows "k \<le> 3 * n \<and> ((\<nexists>s'. conc_step lib Do res s s') \<longleftrightarrow> (\<forall>i < n. \<exists>r. cc_calls s i = Done r))"
proof -
  note w = conc_path_work [OF assms]
  have fin: "steps_left x = 0 \<longleftrightarrow> (\<exists>r. x = Done r)" for x by (cases x) auto
  have "\<nexists>s'. conc_step lib Do res s s'" if "\<forall>i < n. \<exists>r. cc_calls s i = Done r"
  proof -
    have "steps_left (cc_calls s i) = 0" for i using that w fin by (cases "i < n") auto
    then show ?thesis by (metis conc_step_moves not_less_zero)
  qed
  moreover have "\<exists>r. cc_calls s i = Done r" if "\<nexists>s'. conc_step lib Do res s s'" for i
    using that conc_step_enabled [of s i] fin by blast
  ultimately show ?thesis using w by auto
qed

lemma call_returns:
  "\<exists>k s' r. k \<le> 3 \<and> conc_path lib Do res s k s' \<and> cc_calls s' i = Done r
     \<and> (\<forall>j. j \<noteq> i \<longrightarrow> cc_calls s' j = cc_calls s j)"
proof -
  have "\<exists>k s' r. k \<le> m \<and> conc_path lib Do res s0 (l + k) s' \<and> cc_calls s' i = Done r
     \<and> (\<forall>j. j \<noteq> i \<longrightarrow> cc_calls s' j = cc_calls s j)"
    if "steps_left (cc_calls s i) \<le> m" "conc_path lib Do res s0 l s" for m s s0 l
    using that
  proof (induction m arbitrary: s l)
    case 0
    then obtain r where "cc_calls s i = Done r" by (cases "cc_calls s i") auto
    with 0 show ?case by (intro exI [of _ 0]) auto
  next
    case (Suc m)
    show ?case
    proof (cases "steps_left (cc_calls s i) = 0")
      case True
      then obtain r where "cc_calls s i = Done r" by (cases "cc_calls s i") auto
      with Suc.prems show ?thesis by (intro exI [of _ 0]) auto
    next
      case False
      from conc_step_enabled [OF False, of lib Do res] obtain s1 where
        s1: "conc_step lib Do res s s1" "steps_left (cc_calls s1 i) < steps_left (cc_calls s i)"
          "\<forall>j. j \<noteq> i \<longrightarrow> cc_calls s1 j = cc_calls s j" by blast
      from Suc.IH [of s1 "Suc l"] Suc.prems path_more [OF Suc.prems(2) s1(1)] s1(2) obtain k s' r where
        "k \<le> m" "conc_path lib Do res s0 (Suc l + k) s'" "cc_calls s' i = Done r"
        "\<forall>j. j \<noteq> i \<longrightarrow> cc_calls s' j = cc_calls s1 j" by auto
      with s1(3) show ?thesis by (intro exI [of _ "Suc k"]) auto
    qed
  qed
  from this [OF _ path_none] have "\<exists>k s' r. k \<le> 3 \<and> conc_path lib Do res s (0 + k) s' \<and> cc_calls s' i = Done r
     \<and> (\<forall>j. j \<noteq> i \<longrightarrow> cc_calls s' j = cc_calls s j)"
    by (cases "cc_calls s i") auto
  then show ?thesis by simp
qed



section \<open>Witnesses\<close>

text \<open>One call, run to its end.\<close>

lemma demo_one_call:
  "\<exists>k s r. k \<le> 3 \<and> conc_path demo_sdklib demo_network (\<lambda>_. []) (conc_calls 1 demo_sdk 0) k s
     \<and> cc_calls s 0 = Done r"
proof -
  obtain k s r where "k \<le> 3" "conc_path demo_sdklib demo_network (\<lambda>_. []) (conc_calls 1 demo_sdk 0) k s"
    "cc_calls s 0 = Done r"
    using call_returns [of demo_sdklib demo_network "\<lambda>_. []" "conc_calls 1 demo_sdk 0" 0] by blast
  then show ?thesis by blast
qed

theorem concurrent_terminates_witness:
  "\<exists>s. (\<nexists>s'. conc_step demo_sdklib demo_network (\<lambda>_. []) (s :: nat Conc) s')"
proof -
  obtain k s r where p: "conc_path demo_sdklib demo_network (\<lambda>_. []) (conc_calls 1 demo_sdk 0) k s"
    and d: "cc_calls s 0 = Done r"
    using demo_one_call by blast
  from concurrent_terminates [OF p] d show ?thesis by auto
qed

theorem concurrent_linearizable_witness:
  "\<exists>s order rs c'. conc_run demo_sdklib demo_network (\<lambda>_. []) (conc_init demo_sdk 0) s
     \<and> locked_calls demo_sdklib demo_network (\<lambda>_. []) order (demo_sdk\<lparr>cachedTokens := Map.empty\<rparr>) 0
       = (rs, c', cc_net s) \<and> (\<exists>r. (0, r) \<in> set rs)"
proof -
  obtain k s r where p: "conc_path demo_sdklib demo_network (\<lambda>_. []) (conc_init demo_sdk 0) k s"
    and d: "cc_calls s 0 = Done r"
    using call_returns [of demo_sdklib demo_network "\<lambda>_. []" "conc_init demo_sdk 0" 0] by blast
  from p have "conc_run demo_sdklib demo_network (\<lambda>_. []) (conc_init demo_sdk 0) s"
    by (induction rule: conc_path.induct) (auto intro: conc_none conc_more)
  from concurrent_linearizable [OF this] this d show ?thesis by blast
qed

end
