(* ===== verification/Response_Safety.thy ===== *)
theory Response_Safety
  imports Sample_Properties Wire
begin

text \<open>
  What the bytes of a response can hold. The server puts strings of requests and of its store into
  its answers (error texts that quote a resource, names, scopes); nearly all go out as JSON, whose
  encoder escapes them, so no answer carries markup or a line break that a request brought along.
\<close>

section \<open>Replies that cannot carry markup\<close>

definition plain_reply :: "GinContext \<Rightarrow> bool" where
  "plain_reply c \<longleftrightarrow> (\<forall>quote. list_all plain_char (body_text quote (w_Body c)))"

lemma plain_reply_simps [simp]:
  "plain_reply (gin_JSON code v c)" "plain_reply (AbortWithStatusJSON code v c)"
  "plain_reply (gin_Header k h c) = plain_reply c" "plain_reply (gin_Status code c) = plain_reply c"
  "plain_reply (c\<lparr>c_Request := r\<rparr>) = plain_reply c" "plain_reply (c\<lparr>c_Keys := ks\<rparr>) = plain_reply c"
  "plain_reply (new_context r ps)"
  by (simp_all add: plain_reply_def gin_defs plain_body_text new_context_def)
    (simp add: body_text_def)

lemma plain_reply_String: "list_all plain_char s \<Longrightarrow> plain_reply (gin_String code s c)"
  by (simp add: plain_reply_def gin_String_def body_text_def)

section \<open>The OAuth endpoints\<close>

lemma plain_token_error [simp]: "plain_reply (token_error e c)"
  by (simp add: token_error_def)

lemma extractTokenParam_plain: "extractTokenParam gin c = (tok, c1) \<Longrightarrow> plain_reply c1 = plain_reply c"
  by (auto simp: extractTokenParam_def Let_def split: prod.splits if_splits sum.splits)

lemma oauth_handler_plain:
  assumes "plain_reply c"
  shows "plain_reply (fst (oauth_handler gin ops lib ep c s))"
proof (cases ep)
  case EpClients
  then show ?thesis by (simp add: RegisterClientHandler_def Let_def split: prod.split sum.split)
next
  case EpToken
  then show ?thesis by (simp add: TokenHandler_def Let_def split: prod.split sum.split)
next
  case EpIntrospect
  with assms show ?thesis by (simp add: IntrospectHandler_def split: prod.split sum.split)
next
  case EpRevoke
  with assms show ?thesis
    by (simp add: RevokeHandler_def extractTokenParam_plain split: prod.split option.split)
qed

section \<open>The protected API\<close>

lemma TokenAuthMiddleware_plain:
  assumes "plain_reply c" "\<And>c sw. plain_reply c \<Longrightarrow> plain_reply (fst (next c sw))"
  shows "plain_reply (fst (TokenAuthMiddleware ops next c sw))"
  using assms
  by (simp add: TokenAuthMiddleware_def unauthorized_def Let_def split: prod.split sum.split option.split)

lemma RequireResource_plain:
  assumes "plain_reply c" "\<And>c sw. plain_reply c \<Longrightarrow> plain_reply (fst (next c sw))"
  shows "plain_reply (fst (RequireResource ex next c sw))"
  using assms
  by (simp add: RequireResource_def token_missing_def split: prod.split option.split bool.split)

lemma fst_on [simp]:
  "fst (on_certs h c sw) = fst (h c (snd sw))" "fst (on_service h' c sw) = fst (h' c (fst sw))"
  by (simp_all add: on_certs_def on_service_def split: prod.split)

lemma protected_plain:
  assumes "plain_reply c" "\<And>c w. plain_reply c \<Longrightarrow> plain_reply (fst (h c w))"
  shows "plain_reply (fst (protected base (on_certs h) c sw))"
  unfolding protected_def
  by (rule TokenAuthMiddleware_plain [OF assms(1)], rule RequireResource_plain)
    (simp_all add: assms(2))

lemma provision_plain [simp]: "plain_reply (fst (provision_challenge ops i req t c w))"
  by (simp add: provision_challenge_def internal_error_def Let_def split: prod.split option.split)

lemma StartChallenge_plain: "plain_reply (fst (StartChallenge gin ops c w))"
  by (simp add: StartChallenge_def start_after_lookup_def missing_id_def internal_error_def Let_def
      split: prod.split option.split sum.split)

lemma CompleteChallenge_plain: "plain_reply (fst (CompleteChallenge gin ops c w))"
  by (simp add: CompleteChallenge_def missing_id_def internal_error_def Let_def
      split: prod.split option.split sum.split)

lemma GetCertificate_plain: "plain_reply (fst (GetCertificate_handler ops c w))"
  by (simp add: GetCertificate_handler_def missing_id_def internal_error_def Let_def split: sum.split)

lemma ServeACMEChallenge_reply:
  "plain_reply (fst (ServeACMEChallenge cert_memory_ops c w))
   \<or> (\<exists>ch. challenges (certStore w) (c_Params c ''token'') = Some ch
        \<and> w_Body (fst (ServeACMEChallenge cert_memory_ops c w))
          = BodyData ''application/octet-stream'' (chal_KeyAuthorization ch))"
proof -
  have "list_all plain_char ''Invalid token''" "list_all plain_char ''Challenge not found''"
    "list_all plain_char ''Internal error''" by code_simp+
  then show ?thesis
    by (cases "challenges (certStore w) (c_Params c ''token'')")
      (auto simp: ServeACMEChallenge_def certmem.get_chal plain_reply_String gin_Data_def Let_def split: sum.split)
qed

section \<open>The whole server\<close>



end
