(* ===== verification/End_To_End.thy ===== *)
theory End_To_End
  imports Sample_Properties Sdk_Concurrency
begin

text \<open>
  The client library and the sample server together, as \<open>sample-server/e2e_test.go\<close> runs them:
  the network of the client is the server. What the client does not see of the server (the
  routing and the binding of forms, both gin's) enters as hypotheses that state what gin documents.
\<close>

section \<open>The responses on the wire\<close>

lemma fold_key_literals [simp]:
  "fold_key ''access_token'' = ''access_token''" "fold_key ''token_type'' = ''token_type''"
  "fold_key ''expires_in'' = ''expires_in''" "fold_key ''resource'' = ''resource''"
  "fold_key ''scope'' = ''scope''" "fold_key ''active'' = ''active''"
  "fold_key ''client_id'' = ''client_id''" "fold_key ''exp'' = ''exp''"
  "fold_key ''client_secret'' = ''client_secret''" "fold_key ''name'' = ''name''"
  "fold_key ''allowed_resources'' = ''allowed_resources''"
  "fold_key ''allowed_scopes'' = ''allowed_scopes''" "fold_key ''created_at'' = ''created_at''"
  by code_simp+

declare fold_key.simps [simp del]

lemma token_member_simps [simp]:
  "token_member ''access_token'' v r = map_option (\<lambda>x. r\<lparr>AccessToken := x\<rparr>) (set_string (AccessToken r) v)"
  "token_member ''token_type'' v r = map_option (\<lambda>x. r\<lparr>TokenType := x\<rparr>) (set_string (TokenType r) v)"
  "token_member ''expires_in'' v r = map_option (\<lambda>x. r\<lparr>ExpiresIn := x\<rparr>) (set_int64 (ExpiresIn r) v)"
  "token_member ''resource'' v r = map_option (\<lambda>x. r\<lparr>tresp_Resource := x\<rparr>) (set_string (tresp_Resource r) v)"
  "token_member ''scope'' v r = map_option (\<lambda>x. r\<lparr>tresp_Scope := x\<rparr>) (set_string (tresp_Scope r) v)"
  by (simp_all add: token_member_def)

lemma introspect_member_simps [simp]:
  "introspect_member ''active'' v r = map_option (\<lambda>x. r\<lparr>Active := x\<rparr>) (set_bool (Active r) v)"
  "introspect_member ''client_id'' v r = map_option (\<lambda>x. r\<lparr>intro_ClientID := x\<rparr>) (set_string (intro_ClientID r) v)"
  "introspect_member ''resource'' v r = map_option (\<lambda>x. r\<lparr>intro_Resource := x\<rparr>) (set_string (intro_Resource r) v)"
  "introspect_member ''scope'' v r = map_option (\<lambda>x. r\<lparr>intro_Scope := x\<rparr>) (set_string (intro_Scope r) v)"
  "introspect_member ''exp'' v r = map_option (\<lambda>x. r\<lparr>Exp := sint x\<rparr>) (set_int64 (word_of_int (Exp r)) v)"
  "introspect_member ''token_type'' v r = map_option (\<lambda>x. r\<lparr>intro_TokenType := x\<rparr>) (set_string (intro_TokenType r) v)"
  by (simp_all add: introspect_member_def)

lemma register_member_simps [simp]:
  "register_member lib ''client_id'' v r = map_option (\<lambda>x. r\<lparr>resp_ClientID := x\<rparr>) (set_string (resp_ClientID r) v)"
  "register_member lib ''client_secret'' v r = map_option (\<lambda>x. r\<lparr>resp_ClientSecret := x\<rparr>) (set_string (resp_ClientSecret r) v)"
  "register_member lib ''name'' v r = map_option (\<lambda>x. r\<lparr>resp_Name := x\<rparr>) (set_string (resp_Name r) v)"
  "register_member lib ''allowed_resources'' v r = map_option (\<lambda>x. r\<lparr>resp_AllowedResources := x\<rparr>) (set_strings (resp_AllowedResources r) v)"
  "register_member lib ''allowed_scopes'' v r = map_option (\<lambda>x. r\<lparr>resp_AllowedScopes := x\<rparr>) (set_strings (resp_AllowedScopes r) v)"
  "register_member lib ''created_at'' v r = map_option (\<lambda>x. r\<lparr>resp_CreatedAt := x\<rparr>) (set_time lib (resp_CreatedAt r) v)"
  by (simp_all add: register_member_def)

lemma set_string_each:
  "length xs \<le> length old \<Longrightarrow> those (map2 set_string old (map DStr xs)) = Some xs"
  by (induction xs arbitrary: old) (auto simp: Suc_le_length_iff)

lemma set_strings_all [simp]:
  "set_strings old (DArr (map DStr xs)) = Some xs"
  "set_strings old (DArr (map (DStr \<circ> f) ys)) = Some (map f ys)"
  using set_string_each [of xs "old @ replicate (length xs) []"]
    set_string_each [of "map f ys" "old @ replicate (length ys) []"] by simp_all

text \<open>Reading an object that was written, member by member.\<close>

definition sendable :: "(string \<Rightarrow> string) \<Rightarrow> json \<Rightarrow> bool" where
  "sendable q v \<longleftrightarrow> (case doc_of q v of None \<Rightarrow> False | Some d \<Rightarrow> writable d 9999)"

definition received :: "(string \<Rightarrow> string) \<Rightarrow> string \<times> json \<Rightarrow> string \<times> jdoc" where
  "received q m = (to_valid (fst m), jdoc_valid (the (doc_of q (snd m))))"

lemma Unmarshal_sent:
  assumes "list_all (\<lambda>m. sendable q (snd m)) ms"
  shows "Unmarshal f zero (body_text q (BodyJSON (JObj ms))) = decode_members f (map (received q) ms) zero"
proof -
  let ?ds = "map (\<lambda>m. (fst m, the (doc_of q (snd m)))) ms"
  have "those (map (\<lambda>(k, v). map_option (Pair k) v) (map (map_prod id (doc_of q)) ms)) = Some ?ds"
    using assms by (induction ms) (auto simp: sendable_def split: option.splits)
  then have "doc_of q (JObj ms) = Some (DObj ?ds)" by simp
  moreover have "writable (DObj ?ds) max_nesting"
    using assms by (auto simp: sendable_def max_nesting_pos list_all_iff split: option.splits)
  moreover have "received q = (\<lambda>m. (to_valid (fst m), jdoc_valid (the (doc_of q (snd m)))))"
    by (rule ext) (rule received_def)
  ultimately show ?thesis by (simp add: Unmarshal_object body_text_def o_def)
qed

lemma sendable_simps [simp]:
  "sendable q (jstring s)" "sendable q (JNum n)" "sendable q (JBool b)" "sendable q (jstrings xs)"
  "json_time t \<Longrightarrow> sendable q (JTime t)"
  by (auto simp: sendable_def list_all_iff)

lemma received_simps [simp]:
  "received q (k, jstring s) = (to_valid k, DStr (to_valid s))"
  "received q (k, JNum n) = (to_valid k, DNum (decimal n))"
  "received q (k, JBool b) = (to_valid k, DBool b)"
  "received q (k, jstrings xs) = (to_valid k, DArr (map (DStr \<circ> to_valid) xs))"
  "json_time t \<Longrightarrow> received q (k, JTime t) = (to_valid k, DStr (rfc3339 t))"
  by (simp_all add: received_def o_def)

lemma decode_append:
  "decode_members f (ms @ ns) s = (case decode_members f ms s of Inl e \<Rightarrow> Inl e | Inr s \<Rightarrow> decode_members f ns s)"
  by (induction f ms s rule: decode_members.induct) (auto split: option.split)

lemma decode_omit_empty:
  "decode_members f (map (received q) (omit_empty k v)) s =
     (if v = [] then Inr s
      else case f (fold_key (to_valid k)) (DStr (to_valid v)) s of Some s \<Rightarrow> Inr s | None \<Rightarrow> Inl json_error)"
  by (simp add: omit_empty_def split: option.split)

lemma sendable_omit_empty [simp]: "list_all (\<lambda>m. sendable q (snd m)) (omit_empty k v)"
  by (simp add: omit_empty_def)

lemma key_literals [simp]:
  "to_valid ''access_token'' = ''access_token''" "to_valid ''token_type'' = ''token_type''"
  "to_valid ''expires_in'' = ''expires_in''" "to_valid ''resource'' = ''resource''"
  "to_valid ''scope'' = ''scope''" "to_valid ''active'' = ''active''"
  "to_valid ''client_id'' = ''client_id''" "to_valid ''exp'' = ''exp''"
  "to_valid ''client_secret'' = ''client_secret''" "to_valid ''name'' = ''name''"
  "to_valid ''allowed_resources'' = ''allowed_resources''"
  "to_valid ''allowed_scopes'' = ''allowed_scopes''" "to_valid ''created_at'' = ''created_at''"
  by code_simp+

text \<open>The responses with the bytes replaced that are not UTF-8.\<close>

definition valid_token :: "TokenResponse \<Rightarrow> TokenResponse" where
  "valid_token r = r\<lparr>AccessToken := to_valid (AccessToken r), TokenType := to_valid (TokenType r),
     tresp_Resource := to_valid (tresp_Resource r), tresp_Scope := to_valid (tresp_Scope r)\<rparr>"

definition valid_intro :: "IntrospectResponse \<Rightarrow> IntrospectResponse" where
  "valid_intro r = r\<lparr>intro_ClientID := to_valid (intro_ClientID r), intro_Resource := to_valid (intro_Resource r),
     intro_Scope := to_valid (intro_Scope r), intro_TokenType := to_valid (intro_TokenType r)\<rparr>"

definition valid_register :: "RegisterClientResponse \<Rightarrow> RegisterClientResponse" where
  "valid_register r = r\<lparr>resp_ClientID := to_valid (resp_ClientID r), resp_ClientSecret := to_valid (resp_ClientSecret r),
     resp_Name := to_valid (resp_Name r), resp_AllowedResources := map to_valid (resp_AllowedResources r),
     resp_AllowedScopes := map to_valid (resp_AllowedScopes r)\<rparr>"

lemma AccessToken_valid_token [simp]:
  "AccessToken (valid_token r) = to_valid (AccessToken r)" "to_valid (opaque_token b) = opaque_token b"
  by (simp_all add: valid_token_def to_valid_graphics graphics_opaque_token)

lemma decode_token:
  "Unmarshal token_member
     \<lparr>AccessToken = [], TokenType = [], ExpiresIn = 0, tresp_Resource = [], tresp_Scope = []\<rparr>
     (body_text q (BodyJSON (json_of_TokenResponse r))) = Inr (valid_token r)"
proof -
  have "- (2 ^ 63) \<le> sint (ExpiresIn r)" "sint (ExpiresIn r) < 2 ^ 63"
    using sint_range_size [of "ExpiresIn r"] by (simp_all add: word_size)
  then show ?thesis
    by (simp add: Unmarshal_sent json_of_TokenResponse_def decode_append decode_omit_empty valid_token_def)
qed

lemma decode_introspect:
  assumes "- (2 ^ 63) \<le> Exp r" "Exp r < 2 ^ 63"
  shows "Unmarshal introspect_member inactive_response (body_text q (BodyJSON (json_of_IntrospectResponse r)))
    = Inr (valid_intro r)"
proof -
  have "sint (word_of_int (Exp r) :: int64) = Exp r"
    using assms by (simp add: signed_of_int signed_take_bit_int_eq_self)
  with assms show ?thesis
    by (simp add: Unmarshal_sent json_of_IntrospectResponse_def decode_append decode_omit_empty inactive_response_def
        valid_intro_def)
qed

lemma decode_register:
  assumes "json_time (resp_CreatedAt r)"
  shows "Unmarshal (register_member lib)
     \<lparr>resp_ClientID = [], resp_ClientSecret = [], resp_Name = [], resp_AllowedResources = [],
      resp_AllowedScopes = [], resp_CreatedAt = zero_time\<rparr>
     (body_text q (BodyJSON (json_of_RegisterClientResponse r))) = Inr (valid_register r)"
  using assms parse_rfc3339_text [OF assms]
  by (simp add: Unmarshal_sent json_of_RegisterClientResponse_def valid_register_def del: set_strings.simps)

text \<open>C37: what the server sends, the client library reads back as it was, through the text of the
  JSON on the wire: token, introspection and registration responses, with members left out when
  empty, every string with all its escapes, the time in RFC 3339. Bytes that are not UTF-8 are
  replaced, the expiry of an introspection response must be within 64 bits, and the time of a
  registration within the years 0 to 9999.\<close>

theorem responses_roundtrip:
  assumes "- (2 ^ 63) \<le> Exp ir" "Exp ir < 2 ^ 63" "json_time (resp_CreatedAt rr)"
  shows "Unmarshal token_member
       \<lparr>AccessToken = [], TokenType = [], ExpiresIn = 0, tresp_Resource = [], tresp_Scope = []\<rparr>
       (body_text q (BodyJSON (json_of_TokenResponse tr))) = Inr (valid_token tr)
   \<and> Unmarshal introspect_member inactive_response (body_text q (BodyJSON (json_of_IntrospectResponse ir)))
     = Inr (valid_intro ir)
   \<and> Unmarshal (register_member lib)
       \<lparr>resp_ClientID = [], resp_ClientSecret = [], resp_Name = [], resp_AllowedResources = [],
        resp_AllowedScopes = [], resp_CreatedAt = zero_time\<rparr>
       (body_text q (BodyJSON (json_of_RegisterClientResponse rr))) = Inr (valid_register rr)"
  by (simp only: decode_token decode_introspect [OF assms(1,2)] decode_register [OF assms(3)])

definition demo_registered :: RegisterClientResponse where
  "demo_registered = \<lparr>resp_ClientID = ''c1'', resp_ClientSecret = ''p<w'', resp_Name = ''n'',
     resp_AllowedResources = [''r1'', ''r2''], resp_AllowedScopes = [], resp_CreatedAt = 0\<rparr>"

theorem responses_roundtrip_witness:
  "Unmarshal (register_member demo_sdklib)
       \<lparr>resp_ClientID = [], resp_ClientSecret = [], resp_Name = [], resp_AllowedResources = [],
        resp_AllowedScopes = [], resp_CreatedAt = zero_time\<rparr>
     (body_text (strconv_Quote demo_sdklib) (BodyJSON (json_of_RegisterClientResponse demo_registered)))
   = Inr demo_registered"
proof -
  have "json_time (resp_CreatedAt demo_registered)"
    by (simp add: demo_registered_def json_time_def day_of_def year_of_day_def days_before_year_def)
  note r = responses_roundtrip [where ir = inactive_response and rr = demo_registered, OF _ _ this]
  have "valid_register demo_registered = demo_registered" by code_simp
  with r show ?thesis by (simp add: inactive_response_def)
qed

section \<open>The server as the network of the client\<close>

text \<open>One HTTP exchange: the server sees the method, the path and query of the URL, the headers and
  the body; the client gets the status and the body of the answer.\<close>

definition deliver ::
  "SdkLib \<Rightarrow> SampleLib \<Rightarrow> string \<Rightarrow> string \<Rightarrow> url \<Rightarrow> (string \<Rightarrow> string list) \<Rightarrow> bytes \<Rightarrow> Sample
   \<Rightarrow> (go_error + OutResponse) \<times> Sample" where
  "deliver lib sl base meth u hdr body w =
     (case sample_serve sl base
             \<lparr>r_Method = meth, r_Path = url_Path u, r_Query = url_RawQuery u, r_Header = hdr, r_Body = body,
              r_Context = \<lparr>span_recording = False\<rparr>\<rparr> w of
        (c, w) \<Rightarrow> (Inr \<lparr>p_Status = w_Status c, p_Body = body_text (strconv_Quote lib) (w_Body c)\<rparr>, w))"

definition loopback :: "SdkLib \<Rightarrow> SampleLib \<Rightarrow> string \<Rightarrow> Sample network" where
  "loopback lib sl base req w =
     (case url_Parse (ip_literal (s_lib sl)) (o_URL req) of
        Inl e \<Rightarrow> (Inl (NewError e), w)
      | Inr u \<Rightarrow> deliver lib sl base (o_Method req) u (o_Header req) (o_Body req) w)"

definition loopback_transport :: "SdkLib \<Rightarrow> SampleLib \<Rightarrow> string \<Rightarrow> (Sample, OutResponse) round_tripper" where
  "loopback_transport lib sl base req w =
     (case u_URL req of
        None \<Rightarrow> (Inl (NewError [Lit ''http: nil Request.URL'']), w)
      | Some u \<Rightarrow> deliver lib sl base (u_Method req) u (u_Header req) (u_Body req) w)"

section \<open>What gin documents\<close>

text \<open>
  A form body is bound field by field, and reading it leaves headers and context as they are; a
  request whose method and path match a pattern goes to the first such route.
\<close>

definition forms_bound :: "Gin \<Rightarrow> bool" where
  "forms_bound gin \<longleftrightarrow>
     (\<forall>r ps. header_get ''Content-Type'' r = ''application/x-www-form-urlencoded''
        \<and> r_Method r = ''POST'' \<and> r_Query r = [] \<and> r_Body r = form_encode ps \<longrightarrow>
        gin_ContentType gin r = ''application/x-www-form-urlencoded''
      \<and> (\<exists>r'. bind_token_form gin r =
             (Inr \<lparr>req_GrantType = form_get ''grant_type'' ps, req_ClientID = form_get ''client_id'' ps,
                   req_ClientSecret = form_get ''client_secret'' ps, req_Resource = form_get ''resource'' ps,
                   req_Scope = form_get ''scope'' ps\<rparr>, r')
           \<and> r_Header r' = r_Header r \<and> r_Context r' = r_Context r)
      \<and> fst (gin_PostForm gin ''token'' (gin_ParseForm gin r)) = form_get ''token'' ps)"

definition routes_matched :: "SampleLib \<Rightarrow> bool" where
  "routes_matched sl \<longleftrightarrow>
     (\<forall>rs r n ps. first_match 0 rs (r_Method r) (r_Path r) = Some (n, ps) \<longrightarrow>
        gin_match sl rs r = Some (n, ps))"

text \<open>The client's server URL leads to the server.\<close>

definition server_at :: "SdkLib \<Rightarrow> SampleLib \<Rightarrow> SdkClient \<Rightarrow> bool" where
  "server_at lib sl c \<longleftrightarrow> sdk_ip_literal lib = ip_literal (s_lib sl)
     \<and> (\<forall>p \<in> {''/oauth/token'', ''/oauth/revoke''}. \<exists>u. url_Parse (ip_literal (s_lib sl)) (endpoint c p) = Inr u
          \<and> url_Path u = p \<and> url_RawQuery u = [])"

definition deployed :: "SdkLib \<Rightarrow> SampleLib \<Rightarrow> SdkClient \<Rightarrow> bool" where
  "deployed lib sl c \<longleftrightarrow> server_at lib sl c \<and> forms_bound (s_gin sl) \<and> routes_matched sl
     \<and> CHR '':'' \<notin> set (cfg_ClientID (config c))"

section \<open>Tokens end to end\<close>

text \<open>The token request that reaches the service for a call of \<open>GetToken\<close>.\<close>

definition client_request :: "SdkClient \<Rightarrow> string \<Rightarrow> TokenRequest" where
  "client_request c resourceURI =
     \<lparr>req_GrantType = ''client_credentials'', req_ClientID = cfg_ClientID (config c),
      req_ClientSecret = cfg_ClientSecret (config c), req_Resource = resourceURI, req_Scope = []\<rparr>"

lemma static_route:
  assumes "routes_matched sl" "r_Method r = m" "r_Path r = p"
    and "map_option fst (first_match 0 (map (\<lambda>(m, p, ep). (m, p)) sample_routes) m p) = Some n"
    and "n < length sample_routes" "snd (snd (sample_routes ! n)) = ep"
  shows "\<exists>ps. sample_route sl r = Some (ep, ps)"
proof -
  from assms(4) obtain ps where "first_match 0 (map (\<lambda>(m, p, ep). (m, p)) sample_routes) m p = Some (n, ps)"
    by auto
  with assms have "gin_match sl (map (\<lambda>(m, p, ep). (m, p)) sample_routes) r = Some (n, ps)"
    by (simp add: routes_matched_def)
  with assms(5,6) show ?thesis by (simp add: sample_route_def)
qed

lemma route_numbers:
  "map_option fst (first_match 0 (map (\<lambda>(m, p, ep). (m, p)) sample_routes) ''POST'' ''/oauth/token'') = Some 3"
  "map_option fst (first_match 0 (map (\<lambda>(m, p, ep). (m, p)) sample_routes) ''POST'' ''/oauth/revoke'') = Some 5"
  "length sample_routes = 10"
  "snd (snd (sample_routes ! 3)) = EpOAuth EpToken" "snd (snd (sample_routes ! 5)) = EpOAuth EpRevoke"
  by code_simp+

lemma token_route:
  assumes "routes_matched sl" "r_Method r = ''POST''" "r_Path r = ''/oauth/token''"
  shows "\<exists>ps. sample_route sl r = Some (EpOAuth EpToken, ps)"
  by (rule static_route [OF assms route_numbers(1)]) (simp_all add: route_numbers)

lemma revoke_route:
  assumes "routes_matched sl" "r_Method r = ''POST''" "r_Path r = ''/oauth/revoke''"
  shows "\<exists>ps. sample_route sl r = Some (EpOAuth EpRevoke, ps)"
  by (rule static_route [OF assms route_numbers(2)]) (simp_all add: route_numbers)

text \<open>The server's answer on an OAuth route.\<close>

lemma deliver_oauth:
  assumes "sample_route sl
      \<lparr>r_Method = m, r_Path = url_Path u, r_Query = url_RawQuery u, r_Header = hdr, r_Body = body,
       r_Context = \<lparr>span_recording = False\<rparr>\<rparr> = Some (EpOAuth ep, ps)"
    and "oauth_handler (s_gin sl) memory_ops (s_lib sl) ep (new_context
      \<lparr>r_Method = m, r_Path = url_Path u, r_Query = url_RawQuery u, r_Header = hdr, r_Body = body,
       r_Context = \<lparr>span_recording = False\<rparr>\<rparr> ps) (svc w) = (c, s)"
  shows "\<exists>w'. deliver lib sl base m u hdr body w = (Inr \<lparr>p_Status = w_Status c, p_Body = body_text (strconv_Quote lib) (w_Body c)\<rparr>, w')
    \<and> svc w' = s \<and> certs w' = certs w"
  using assms by (simp add: deliver_def sample_serve_def on_service_def now_def)

lemma BasicAuth_form_request:
  assumes "CHR '':'' \<notin> set (cfg_ClientID (config c))" "r_Header r = o_Header (form_request c q)"
  shows "BasicAuth r = Some (cfg_ClientID (config c), cfg_ClientSecret (config c))"
proof -
  have "header_get ''Authorization'' r = header_get ''Authorization''
      (SetBasicAuth (cfg_ClientID (config c)) (cfg_ClientSecret (config c)) r)"
    using assms(2) by (simp add: header_get_def SetBasicAuth_def header_set_def form_request_def out_set_def)
  with BasicAuth_SetBasicAuth [OF assms(1), of "cfg_ClientSecret (config c)" r] show ?thesis
    by (simp add: BasicAuth_def)
qed

text \<open>A form post of the client arrives on the route of its path, with its form bound, and the
  handler's answer comes back.\<close>

definition posted :: "SdkClient \<Rightarrow> string \<Rightarrow> (string \<times> string) list \<Rightarrow> OutRequest" where
  "posted c p ps = \<lparr>o_Method = ''POST'', o_URL = endpoint c p, o_Header = (\<lambda>_. []), o_Body = form_encode ps\<rparr>"

lemma client_post:
  assumes dep: "deployed lib sl c"
    and p: "p = ''/oauth/token'' \<and> ep = EpToken \<or> p = ''/oauth/revoke'' \<and> ep = EpRevoke"
  obtains rq pp r' where "NewRequest lib ''POST'' (endpoint c p) (form_encode ps) = Inr (posted c p ps)"
    "\<And>gc gs. oauth_handler (s_gin sl) memory_ops (s_lib sl) ep (new_context rq pp) (svc w) = (gc, gs) \<Longrightarrow>
       \<exists>w1. loopback lib sl base (form_request c (posted c p ps)) w
              = (Inr \<lparr>p_Status = w_Status gc, p_Body = body_text (strconv_Quote lib) (w_Body gc)\<rparr>, w1)
          \<and> svc w1 = gs \<and> certs w1 = certs w"
    "gin_ContentType (s_gin sl) rq = ''application/x-www-form-urlencoded''"
    "bind_token_form (s_gin sl) rq =
       (Inr \<lparr>req_GrantType = form_get ''grant_type'' ps, req_ClientID = form_get ''client_id'' ps,
             req_ClientSecret = form_get ''client_secret'' ps, req_Resource = form_get ''resource'' ps,
             req_Scope = form_get ''scope'' ps\<rparr>, r')"
    "r_Context r' = \<lparr>span_recording = False\<rparr>"
    "BasicAuth r' = Some (cfg_ClientID (config c), cfg_ClientSecret (config c))"
    "fst (gin_PostForm (s_gin sl) ''token'' (gin_ParseForm (s_gin sl) rq)) = form_get ''token'' ps"
proof -
  obtain u where u: "url_Parse (ip_literal (s_lib sl)) (endpoint c p) = Inr u" "url_Path u = p"
    "url_RawQuery u = []" "sdk_ip_literal lib = ip_literal (s_lib sl)"
    using dep p by (auto simp: deployed_def server_at_def)
  define q where "q = form_request c (posted c p ps)"
  define rq where "rq = \<lparr>r_Method = ''POST'', r_Path = url_Path u, r_Query = url_RawQuery u,
     r_Header = o_Header q, r_Body = form_encode ps, r_Context = \<lparr>span_recording = False\<rparr>\<rparr>"
  note fields = form_request_def out_set_def posted_def
  have d: "routes_matched sl" "forms_bound (s_gin sl)" "CHR '':'' \<notin> set (cfg_ClientID (config c))"
    using dep by (simp_all add: deployed_def)
  have "header_get ''Content-Type'' rq = ''application/x-www-form-urlencoded''"
    by (simp add: rq_def q_def header_get_def fields)
  then obtain r' where r': "gin_ContentType (s_gin sl) rq = ''application/x-www-form-urlencoded''"
    "bind_token_form (s_gin sl) rq =
       (Inr \<lparr>req_GrantType = form_get ''grant_type'' ps, req_ClientID = form_get ''client_id'' ps,
             req_ClientSecret = form_get ''client_secret'' ps, req_Resource = form_get ''resource'' ps,
             req_Scope = form_get ''scope'' ps\<rparr>, r')"
    "r_Header r' = r_Header rq" "r_Context r' = r_Context rq"
    "fst (gin_PostForm (s_gin sl) ''token'' (gin_ParseForm (s_gin sl) rq)) = form_get ''token'' ps"
    using d(2) [unfolded forms_bound_def, rule_format, of rq ps] u by (auto simp: rq_def)
  have "\<exists>pp. sample_route sl rq = Some (EpOAuth ep, pp)"
    using p token_route [OF d(1), of rq] revoke_route [OF d(1), of rq] u by (auto simp: rq_def)
  then obtain pp where route: "sample_route sl rq = Some (EpOAuth ep, pp)" by blast
  show ?thesis
  proof (rule that [of rq pp r'])
    show "BasicAuth r' = Some (cfg_ClientID (config c), cfg_ClientSecret (config c))"
      using BasicAuth_form_request [OF d(3)] r'(3) by (simp add: rq_def q_def)
    show "\<exists>w1. loopback lib sl base (form_request c (posted c p ps)) w
              = (Inr \<lparr>p_Status = w_Status gc, p_Body = body_text (strconv_Quote lib) (w_Body gc)\<rparr>, w1) \<and> svc w1 = gs \<and> certs w1 = certs w"
      if "oauth_handler (s_gin sl) memory_ops (s_lib sl) ep (new_context rq pp) (svc w) = (gc, gs)" for gc gs
      using deliver_oauth [OF route [unfolded rq_def] that [unfolded rq_def], of lib base] u
      by (simp add: loopback_def q_def fields)
  qed (use u r' in \<open>simp_all add: NewRequest_def posted_def, simp_all add: rq_def\<close>)
qed

text \<open>A fetch over the loopback is one call of \<open>IssueToken\<close> on the server.\<close>

lemma fetch_issues:
  assumes dep: "deployed lib sl c"
    and iss: "IssueToken memory_ops (s_lib sl) \<lparr>span_recording = False\<rparr> (Some (client_request c res)) (svc w) = (r, s)"
    and run: "fetchToken lib (loopback lib sl base) res c w = (x, w')"
  shows "svc w' = s \<and> certs w' = certs w
     \<and> (case r of Inr resp \<Rightarrow> x = Inr (valid_token resp) | Inl _ \<Rightarrow> \<exists>e. x = Inl e)"
proof -
  define ps where "ps = [(''grant_type'', ''client_credentials'')]
                 @ (if res \<noteq> [] then [(''resource'', res)] else [])"
  obtain rq pp r' where nr: "NewRequest lib ''POST'' (endpoint c ''/oauth/token'') (form_encode ps)
      = Inr (posted c ''/oauth/token'' ps)"
    and net: "\<And>gc gs. oauth_handler (s_gin sl) memory_ops (s_lib sl) EpToken (new_context rq pp) (svc w) = (gc, gs) \<Longrightarrow>
       \<exists>w1. loopback lib sl base (form_request c (posted c ''/oauth/token'' ps)) w
              = (Inr \<lparr>p_Status = w_Status gc, p_Body = body_text (strconv_Quote lib) (w_Body gc)\<rparr>, w1)
          \<and> svc w1 = gs \<and> certs w1 = certs w"
    and ct: "gin_ContentType (s_gin sl) rq = ''application/x-www-form-urlencoded''"
    and bnd: "bind_token_form (s_gin sl) rq =
       (Inr \<lparr>req_GrantType = form_get ''grant_type'' ps, req_ClientID = form_get ''client_id'' ps,
             req_ClientSecret = form_get ''client_secret'' ps, req_Resource = form_get ''resource'' ps,
             req_Scope = form_get ''scope'' ps\<rparr>, r')"
    and r': "r_Context r' = \<lparr>span_recording = False\<rparr>"
      "BasicAuth r' = Some (cfg_ClientID (config c), cfg_ClientSecret (config c))"
    by (rule client_post [OF dep, of "''/oauth/token''" EpToken]) auto
  let ?req = "\<lparr>req_GrantType = ''client_credentials'', req_ClientID = [], req_ClientSecret = [],
             req_Resource = res, req_Scope = []\<rparr>"
  have "\<not> Contains ''application/x-www-form-urlencoded'' ''application/json''" by code_simp
  then have bound: "bound_token_request (s_gin sl) (c_Request (new_context rq pp)) = (Inr ?req, r')"
    using ct bnd by (simp add: bound_token_request_def new_context_def ps_def)
  have cred: "with_credentials r' ?req = client_request c res"
    using r'(2) by (simp add: with_credentials_def client_request_def)
  obtain gc gs where tok: "TokenHandler (s_gin sl) memory_ops (s_lib sl) (new_context rq pp) (svc w) = (gc, gs)"
    by fastforce
  with TokenHandler_bound [OF bound, of memory_ops "s_lib sl" "svc w"] iss cred r'(1)
  have gs: "gs = s" and gc: "case r of Inr resp \<Rightarrow> w_Status gc = 200 \<and> w_Body gc = BodyJSON (json_of_TokenResponse resp)
      | Inl e \<Rightarrow> w_Status gc \<in> {400, 401}"
    using token_error_status by (auto simp: gin_defs split: sum.splits)
  from net tok obtain w1 where w1: "loopback lib sl base (form_request c (posted c ''/oauth/token'' ps)) w
      = (Inr \<lparr>p_Status = w_Status gc, p_Body = body_text (strconv_Quote lib) (w_Body gc)\<rparr>, w1)" "svc w1 = gs" "certs w1 = certs w"
    by auto
  with run nr gs gc decode_token [of "strconv_Quote lib"] show ?thesis
    by (cases r) (auto simp: fetchToken_def Let_def ps_def)
qed


section \<open>Revocation end to end\<close>

lemma RevokeHandler_posted:
  assumes "fst (gin_PostForm gin ''token'' (gin_ParseForm gin (c_Request gc))) = tok" "tok \<noteq> []"
    and "RevokeHandler gin memory_ops gc s = (c', s')"
  shows "w_Status c' = 200 \<and> s' = snd (RevokeToken memory_ops tok s)"
proof -
  obtain r s1 where v: "RevokeToken memory_ops tok s = (r, s1)" by fastforce
  with mem.RevokeToken_result [of tok s] have "r = None" by simp
  with v assms show ?thesis
    by (auto simp: RevokeHandler_def extractTokenParam_def Let_def gin_defs split: prod.splits if_splits)
qed


section \<open>Access end to end\<close>

text \<open>The path of a certificate leads to its route, with its ID as the parameter.\<close>

lemma certificate_path:
  assumes "i \<noteq> []" "CHR ''/'' \<notin> set i"
  shows "\<exists>ps. first_match 0 (map (\<lambda>(m, p, ep). (m, p)) sample_routes) ''GET'' (''/v1/certificates/'' @ i)
      = Some (9, ps) \<and> ps ''id'' = i"
proof -
  have "Split (''/v1/certificates/'' @ i) (CHR ''/'') = [[], ''v1'', ''certificates'', i]"
    using Split_append [of "CHR ''/''" "[]" "''v1/certificates/'' @ i"]
      Split_append [of "CHR ''/''" "''v1''" "''certificates/'' @ i"]
      Split_append [of "CHR ''/''" "''certificates''" i] Split_absent [OF assms(2)]
    by simp
  moreover have "Split ''/v1/certificates/:id'' (CHR ''/'') = [[], ''v1'', ''certificates'', '':id'']"
    "Split ''/healthz'' (CHR ''/'') = [[], ''healthz'']" "Split ''/metrics'' (CHR ''/'') = [[], ''metrics'']"
    "Split ''/.well-known/acme-challenge/:token'' (CHR ''/'') = [[], ''.well-known'', ''acme-challenge'', '':token'']"
    by code_simp+
  moreover have "map (\<lambda>(m, p, ep). (m, p)) sample_routes
    = [(''GET'', ''/healthz''), (''GET'', ''/metrics''), (''POST'', ''/oauth/clients''), (''POST'', ''/oauth/token''),
       (''POST'', ''/oauth/introspect''), (''POST'', ''/oauth/revoke''),
       (''GET'', ''/.well-known/acme-challenge/:token''),
       (''POST'', ''/v1/certificates/:id/challenges/http-01/start''),
       (''POST'', ''/v1/certificates/:id/challenges/http-01/complete''), (''GET'', ''/v1/certificates/:id'')]"
    by code_simp
  ultimately show ?thesis using assms(1) by (simp add: path_params_def)
qed

lemma certificate_route:
  assumes "routes_matched sl" "r_Method r = ''GET''" "r_Path r = ''/v1/certificates/'' @ i"
    and "i \<noteq> []" "CHR ''/'' \<notin> set i"
  obtains ps where "sample_route sl r = Some (EpGetCertificate, ps)" "ps ''id'' = i"
proof -
  from certificate_path [OF assms(4,5)] obtain ps where
    "first_match 0 (map (\<lambda>(m, p, ep). (m, p)) sample_routes) ''GET'' (''/v1/certificates/'' @ i) = Some (9, ps)"
    and i: "ps ''id'' = i" by blast
  with assms have m: "gin_match sl (map (\<lambda>(m, p, ep). (m, p)) sample_routes) r = Some (9, ps)"
    by (simp add: routes_matched_def)
  have "snd (snd (sample_routes ! 9)) = EpGetCertificate" "length sample_routes = 10" by code_simp+
  with m i show ?thesis by (intro that [of ps]) (simp_all add: sample_route_def)
qed

text \<open>With a good token for the certificate, the server answers with the certificate or 404.\<close>

lemma deliver_certificate:
  assumes "routes_matched sl" "url_Path u = ''/v1/certificates/'' @ i" "i \<noteq> []" "CHR ''/'' \<notin> set i"
    and "hdr ''Authorization'' = [''Bearer '' @ opaque_token b]"
    and "tokens (store (svc w)) (ComputeTokenHash (opaque_token b)) = Some t"
    and "\<not> IsRevoked t" "\<not> IsExpired t (next_reading (nowFunc (svc w)))"
    and "Resource t = TrimRight base (CHR ''/'') @ ''/v1/certificates/'' @ i"
  shows "\<exists>resp w'. deliver lib sl base ''GET'' u hdr body w = (Inr resp, w')
     \<and> (case certificates (certStore (certs w)) i of
          None \<Rightarrow> p_Status resp = 404
        | Some k \<Rightarrow> p_Status resp = 200 \<and> p_Body resp = body_text (strconv_Quote lib) (BodyJSON (json_of_Certificate k)))"
proof -
  let ?rq = "\<lparr>r_Method = ''GET'', r_Path = url_Path u, r_Query = url_RawQuery u, r_Header = hdr, r_Body = body,
     r_Context = \<lparr>span_recording = False\<rparr>\<rparr>"
  obtain ps where ps: "sample_route sl ?rq = Some (EpGetCertificate, ps)" "ps ''id'' = i"
    by (rule certificate_route [OF assms(1), of ?rq i]) (use assms(2-4) in auto)
  let ?c = "new_context ?rq ps" and ?h = "on_certs (GetCertificate_handler cert_memory_ops)"
  have "presented ?c (svc w) = Some t"
    by (rule presented_opaque_token [of _ b]) (use assms in \<open>simp_all add: new_context_def header_get_def\<close>)
  moreover have "Resource t = resource_extractor base ?c"
    using assms(9) ps(2) by (simp add: resource_extractor_def new_context_def)
  ultimately obtain s1 where run: "protected base ?h ?c (svc w, certs w) = ?h (with_token t ?c) (s1, certs w)"
    using protected_allows [of ?c "svc w" t base ?h "certs w"] by auto
  obtain gc gw where h: "GetCertificate_handler cert_memory_ops (with_token t ?c) (certs w) = (gc, gw)"
    by fastforce
  obtain w' where "deliver lib sl base ''GET'' u hdr body w = (Inr \<lparr>p_Status = w_Status gc, p_Body = body_text (strconv_Quote lib) (w_Body gc)\<rparr>, w')"
    using ps(1) run h by (simp add: deliver_def sample_serve_def on_certs_def now_def)
  moreover have "case certificates (certStore (certs w)) i of
      None \<Rightarrow> w_Status gc = 404
    | Some k \<Rightarrow> w_Status gc = 200 \<and> w_Body gc = BodyJSON (json_of_Certificate k)"
    using h ps(2) assms(3)
    by (auto simp: GetCertificate_handler_def with_token_def new_context_def certmem.get_cert gin_defs
        split: option.splits)
  ultimately show ?thesis
    by (intro exI [of _ "\<lparr>p_Status = w_Status gc, p_Body = body_text (strconv_Quote lib) (w_Body gc)\<rparr>"] exI [of _ w'])
      (simp split: option.splits)
qed

text \<open>A fetch and then the request with its token.\<close>

lemma certificate_access:
  assumes dep: "deployed lib sl c" "cachedTokens c R = None"
    and R: "R = TrimRight base (CHR ''/'') @ ''/v1/certificates/'' @ i" "i \<noteq> []" "CHR ''/'' \<notin> set i"
    and may: "clients (store (svc w)) (cfg_ClientID (config c)) = Some k"
      "client_may (s_lib sl) (client_request c R) k"
    and rand: "ReadFull [] tokenEntropyLen (randReader (svc w)) = (Inr b, rd)"
    and clock: "\<And>n. T \<le> reading (nowFunc (svc w)) n
        \<and> reading (nowFunc (svc w)) n \<le> T + sint (tokenTTL (svc w))"
    and req: "u_Method req = ''GET''" "u_URL req = Some u" "url_Path u = ''/v1/certificates/'' @ i"
    and run: "RoundTrip lib (loopback lib sl base)
      (NewTransport (loopback_transport lib sl base) None [R]) req c w = (x, c1, w1)"
  shows "\<exists>resp. x = Inr resp \<and> (case certificates (certStore (certs w)) i of
       None \<Rightarrow> p_Status resp = 404
     | Some cert \<Rightarrow> p_Status resp = 200 \<and> p_Body resp = body_text (strconv_Quote lib) (BodyJSON (json_of_Certificate cert)))"
proof -
  let ?rq = "client_request c R" and ?tr = "NewTransport (loopback_transport lib sl base) None [R]"
  obtain r s where iss: "IssueToken memory_ops (s_lib sl) \<lparr>span_recording = False\<rparr> (Some ?rq) (svc w) = (r, s)"
    by fastforce
  have r: "r = Inr (new_response (opaque_token b) ?rq (tokenTTL (svc w)))"
    using mem.IssueToken_complete [OF _ may(2) rand, of "\<lparr>span_recording = False\<rparr>"] may(1) iss
    by (simp add: client_request_def)
  let ?t = "new_token (opaque_token b) ?rq k (issue_time (svc w)) (tokenTTL (svc w))"
  have tok: "tokens (store s) (ComputeTokenHash (opaque_token b)) = Some ?t"
    using iss unfolding r
    by (cases rule: mem.IssueToken_cases) (use rand may(1) in \<open>auto simp: client_request_def\<close>)
  have rd: "reading (nowFunc s) = reading (nowFunc (svc w))"
    using IssueToken_reading [of memory_ops "s_lib sl" "\<lparr>span_recording = False\<rparr>" "Some ?rq" "svc w"] iss by simp
  obtain y w2 where f: "fetchToken lib (loopback lib sl base) R c w = (y, w2)" by fastforce
  from fetch_issues [OF dep(1) iss f] r have
    w2: "svc w2 = s" "certs w2 = certs w" "y = Inr (valid_token (new_response (opaque_token b) ?rq (tokenTTL (svc w))))"
    by auto
  have "target_resource ?tr req = R" using R(2) by (simp add: target_resource_def NewTransport_def R(1))
  with f w2(3) dep(2) obtain c2 where g: "GetToken lib (loopback lib sl base) (target_resource ?tr req) c w
      = (Inr (opaque_token b), c2, w2)"
    by (auto simp: GetToken_def sdk_time_eq cached_at_def GetToken_locked_def Let_def new_response_def)
  let ?hdr = "(u_Header req)(''Authorization'' := [''Bearer '' @ opaque_token b])"
  have "\<not> IsExpired ?t (next_reading (nowFunc s))"
    using clock [of "readings_taken (nowFunc s)"] clock [of "Suc (readings_taken (nowFunc (svc w)))"] rd
    by (simp add: IsExpired_def new_token_def time_After_def time_Add_def issue_time_def)
  then obtain resp w3 where d: "deliver lib sl base ''GET'' u ?hdr (u_Body req) w2 = (Inr resp, w3)"
    "case certificates (certStore (certs w2)) i of
       None \<Rightarrow> p_Status resp = 404
     | Some cert \<Rightarrow> p_Status resp = 200 \<and> p_Body resp = body_text (strconv_Quote lib) (BodyJSON (json_of_Certificate cert))"
    using deliver_certificate [OF _ req(3) R(2,3), of sl ?hdr b w2 ?t base lib "u_Body req"] dep(1) tok w2(1) R(1)
    by (auto simp: deployed_def new_token_def client_request_def IsRevoked_def)
  with run g req w2(2) show ?thesis
    by (auto simp: RoundTrip_def Let_def NewTransport_def loopback_transport_def)
qed


section \<open>A concrete deployment\<close>

text \<open>Gin's form binding by \<open>url.ParseQuery\<close>, the router of \<open>first_match\<close>, and the concrete client
  and server of the other theories.\<close>

definition form_gin :: Gin where
  "form_gin = \<lparr>gin_ContentType = header_get ''Content-Type'', bind_register = (\<lambda>r. (Inl io_EOF, r)),
     bind_token_json = (\<lambda>r. (Inl io_EOF, r)),
     bind_token_form = (\<lambda>r. let ps = ParseQuery (r_Body r) in
       (Inr \<lparr>req_GrantType = form_get ''grant_type'' ps, req_ClientID = form_get ''client_id'' ps,
             req_ClientSecret = form_get ''client_secret'' ps, req_Resource = form_get ''resource'' ps,
             req_Scope = form_get ''scope'' ps\<rparr>, r\<lparr>r_Body := []\<rparr>)),
     gin_ParseForm = (\<lambda>r. r), gin_PostForm = (\<lambda>k r. (form_get k (ParseQuery (r_Body r)), r)),
     gin_Query = (\<lambda>k r. form_get k (ParseQuery (r_Query r))), bind_token_body = (\<lambda>r. (Inl io_EOF, r))\<rparr>"

definition demo_e2e_lib :: SampleLib where
  "demo_e2e_lib = demo_sample_lib\<lparr>s_gin := form_gin\<rparr>"

definition demo_fresh :: Sample where
  "demo_fresh = demo_sample\<lparr>svc := demo_server\<rparr>"

lemma demo_e2e_simps [simp]:
  "s_lib demo_e2e_lib = demo_lib" "svc demo_fresh = demo_server" "certs demo_fresh = demo_certs"
  by (simp_all add: demo_e2e_lib_def demo_sample_lib_def demo_fresh_def demo_sample_def)

lemma demo_sdk_config:
  "cfg_ClientID (config demo_sdk) = ''c1''" "cfg_ClientSecret (config demo_sdk) = ''pw''"
  by (simp_all add: demo_sdk_def sdk_New_def demo_config_def)

lemma demo_deployed: "deployed demo_sdklib demo_e2e_lib demo_sdk"
proof -
  have "forms_bound form_gin"
    by (simp add: forms_bound_def form_gin_def ParseQuery_form_encode Let_def)
  moreover have "routes_matched demo_e2e_lib"
    by (simp add: routes_matched_def demo_e2e_lib_def demo_sample_lib_def)
  moreover have "endpoint demo_sdk ''/oauth/token'' = ''http://as/oauth/token''"
    "endpoint demo_sdk ''/oauth/revoke'' = ''http://as/oauth/revoke''" by code_simp+
  moreover have "url_Parse (\<lambda>_. None) ''http://as/oauth/revoke''
     = Inr \<lparr>url_Scheme = ''http'', url_Opaque = [], url_Host = ''as'', url_Path = ''/oauth/revoke'',
          url_RawQuery = [], url_Fragment = []\<rparr>" by code_simp
  ultimately show ?thesis
    using demo_url
    by (simp add: deployed_def server_at_def demo_sdk_config demo_sdklib_def demo_lib_def)
      (simp add: demo_e2e_lib_def)
qed

lemma demo_client_request: "client_may demo_lib (client_request demo_sdk []) demo_client"
  by (simp add: client_may_def client_request_def demo_sdk_config demo_client_def demo_lib_def)




end
