(* ===== verification/Registration_End_To_End.thy ===== *)
theory Registration_End_To_End
  imports End_To_End
begin

text \<open>
  The client library registers a client at the sample server and then uses the credentials it was
  given: the two requests, the JSON texts of both directions, and the form of the token request,
  from an empty server to a token.
\<close>

section \<open>What gin does with a registration\<close>

text \<open>\<open>json.Unmarshal\<close> into a \<open>RegisterClientRequest\<close>; gin documents that \<open>ShouldBindJSON\<close> decodes
  the body so, and the struct has no rules for gin to check beside.\<close>

definition request_member :: "string \<Rightarrow> jdoc \<Rightarrow> RegisterClientRequest \<Rightarrow> RegisterClientRequest option" where
  "request_member k v r =
     (if k = ''name'' then map_option (\<lambda>x. r\<lparr>reg_Name := x\<rparr>) (set_string (reg_Name r) v)
      else if k = ''allowed_resources'' then
        map_option (\<lambda>x. r\<lparr>reg_AllowedResources := x\<rparr>) (set_strings (reg_AllowedResources r) v)
      else if k = ''allowed_scopes'' then
        map_option (\<lambda>x. r\<lparr>reg_AllowedScopes := x\<rparr>) (set_strings (reg_AllowedScopes r) v)
      else Some r)"

definition zero_request :: RegisterClientRequest where
  "zero_request = \<lparr>reg_Name = [], reg_AllowedResources = [], reg_AllowedScopes = []\<rparr>"

definition registration_bound :: "Gin \<Rightarrow> bool" where
  "registration_bound gin \<longleftrightarrow>
     (\<forall>r req. Unmarshal request_member zero_request (r_Body r) = Inr req \<longrightarrow>
        (\<exists>r'. bind_register gin r = (Inr req, r')))"

definition registration_served :: "SdkLib \<Rightarrow> SampleLib \<Rightarrow> SdkClient \<Rightarrow> bool" where
  "registration_served lib sl c \<longleftrightarrow>
     sdk_ip_literal lib = ip_literal (s_lib sl) \<and> routes_matched sl \<and> registration_bound (s_gin sl)
     \<and> jsonMarshal c = json_Marshal_request
     \<and> (\<exists>u. url_Parse (ip_literal (s_lib sl)) (endpoint c ''/oauth/clients'') = Inr u
          \<and> url_Path u = ''/oauth/clients'' \<and> url_RawQuery u = [])"

text \<open>The strings of a request that are not UTF-8 arrive with their invalid bytes replaced.\<close>

definition valid_request :: "RegisterClientRequest \<Rightarrow> RegisterClientRequest" where
  "valid_request r = r\<lparr>reg_Name := to_valid (reg_Name r),
     reg_AllowedResources := map to_valid (reg_AllowedResources r),
     reg_AllowedScopes := map to_valid (reg_AllowedScopes r)\<rparr>"

lemma set_strings_slice [simp]: "set_strings [] (jdoc_valid (slice_doc xs)) = Some (map to_valid xs)"
  using set_string_each [of "map to_valid xs" "replicate (length xs) []"] by (simp add: slice_doc_def o_def)

lemma decode_registration:
  assumes "json_Marshal_request req = Inr body"
  shows "Unmarshal request_member zero_request body = Inr (valid_request req)"
proof -
  have "writable (slice_doc xs) 9999" for xs by (simp add: slice_doc_def list_all_iff)
  with assms show ?thesis
    by (auto simp: json_Marshal_request_def Unmarshal_object max_nesting_pos request_member_def
        zero_request_def valid_request_def)
qed

section \<open>A registration is one call of \<open>RegisterClient\<close>\<close>

lemma clients_route:
  assumes "routes_matched sl" "r_Method r = ''POST''" "r_Path r = ''/oauth/clients''"
  shows "\<exists>ps. sample_route sl r = Some (EpOAuth EpClients, ps)"
proof -
  have "map_option fst (first_match 0 (map (\<lambda>(m, p, ep). (m, p)) sample_routes) ''POST'' ''/oauth/clients'') = Some 2"
    "snd (snd (sample_routes ! 2)) = EpOAuth EpClients" by code_simp+
  with static_route [OF assms this(1)] show ?thesis by (simp add: route_numbers)
qed

text \<open>A response that has no text is not read.\<close>

lemma unsent_register:
  assumes "\<not> json_time (resp_CreatedAt r)"
  shows "Unmarshal f zero (body_text q (BodyJSON (json_of_RegisterClientResponse r))) = Inl json_error"
proof -
  have "body_text q (BodyJSON (json_of_RegisterClientResponse r)) = []"
    using assms by (simp add: body_text_def json_of_RegisterClientResponse_def)
  moreover have "json_parse [] = None" by (simp add: json_parse_def)
  ultimately show ?thesis by (simp add: Unmarshal_def)
qed

lemma register_posts:
  assumes srv: "registration_served lib sl c" and utf8: "valid_request req = req"
    and reg: "RegisterClient memory_ops (s_lib sl) (Some req) (svc w) = (r, s)"
  shows "\<exists>x w1. sdk_RegisterClient lib (loopback lib sl base) (Some req) c w = (x, w1)
    \<and> svc w1 = s \<and> certs w1 = certs w
    \<and> (case r of
         Inl e \<Rightarrow> isl x
       | Inr r0 \<Rightarrow> if json_time (resp_CreatedAt r0) then x = Inr (valid_register r0) else isl x)"
proof -
  obtain u where u: "url_Parse (ip_literal (s_lib sl)) (endpoint c ''/oauth/clients'') = Inr u"
    "url_Path u = ''/oauth/clients''" "url_RawQuery u = []" "sdk_ip_literal lib = ip_literal (s_lib sl)"
    using srv by (auto simp: registration_served_def)
  obtain body where body: "jsonMarshal c req = Inr body" "json_Marshal_request req = Inr body"
    using srv by (simp add: registration_served_def json_Marshal_request_def)
  let ?hdr = "(\<lambda>_. [])(''Content-Type'' := [''application/json''])"
  define rq where "rq = \<lparr>r_Method = ''POST'', r_Path = url_Path u, r_Query = url_RawQuery u, r_Header = ?hdr,
     r_Body = body, r_Context = \<lparr>span_recording = False\<rparr>\<rparr>"
  have "Unmarshal request_member zero_request (r_Body rq) = Inr req"
    using decode_registration [OF body(2)] utf8 by (simp add: rq_def)
  with srv obtain r' where bnd: "bind_register (s_gin sl) rq = (Inr req, r')"
    unfolding registration_served_def registration_bound_def by blast
  obtain ps where route: "sample_route sl rq = Some (EpOAuth EpClients, ps)"
    using clients_route [of sl rq] srv u by (auto simp: registration_served_def rq_def)
  obtain gc gs where h: "oauth_handler (s_gin sl) memory_ops (s_lib sl) EpClients (new_context rq ps) (svc w) = (gc, gs)"
    by fastforce
  have gs: "gs = s" and gc: "case r of Inl e \<Rightarrow> w_Status gc = 400
      | Inr r0 \<Rightarrow> w_Status gc = 201 \<and> w_Body gc = BodyJSON (json_of_RegisterClientResponse r0)"
    using h bnd reg by (auto simp: RegisterClientHandler_def new_context_def gin_defs Let_def split: sum.splits)
  from deliver_oauth [OF route [unfolded rq_def] h [unfolded rq_def], of lib base] obtain w2 where
    w2: "deliver lib sl base ''POST'' u ?hdr body w
        = (Inr \<lparr>p_Status = w_Status gc, p_Body = body_text (strconv_Quote lib) (w_Body gc)\<rparr>, w2)"
      "svc w2 = gs" "certs w2 = certs w" by auto
  have run: "sdk_RegisterClient lib (loopback lib sl base) (Some req) c w =
     (if w_Status gc \<noteq> 201
      then (Inl (status_error ''register client'' \<lparr>p_Status = w_Status gc, p_Body = body_text (strconv_Quote lib) (w_Body gc)\<rparr>), w2)
      else case Unmarshal (register_member lib)
           \<lparr>resp_ClientID = [], resp_ClientSecret = [], resp_Name = [], resp_AllowedResources = [],
            resp_AllowedScopes = [], resp_CreatedAt = zero_time\<rparr>
           (body_text (strconv_Quote lib) (w_Body gc)) of
         Inl e \<Rightarrow> (Inl (Wrapf [Lit ''failed to decode register response: ''] e []), w2)
       | Inr x \<Rightarrow> (Inr x, w2))"
    using body(1) u w2(1) by (simp add: sdk_RegisterClient_def NewRequest_def out_set_def loopback_def)
  show ?thesis
  proof (cases r)
    case (Inl e)
    with run gc gs w2(2,3) show ?thesis by simp
  next
    case (Inr r0)
    with run gc gs w2(2,3) decode_register [of r0 lib "strconv_Quote lib"]
      unsent_register [of r0 "register_member lib" _ "strconv_Quote lib"]
    show ?thesis by (cases "json_time (resp_CreatedAt r0)") simp_all
  qed
qed

section \<open>From a registration to a token\<close>

lemma credentials_ascii:
  assumes "RegisterClient memory_ops lib (Some req) s = (Inr r0, s1)"
  shows "to_valid (resp_ClientID r0) = resp_ClientID r0" "to_valid (resp_ClientSecret r0) = resp_ClientSecret r0"
    "CHR '':'' \<notin> set (resp_ClientID r0)"
proof -
  have "list_all is_hex_digit (resp_ClientID r0) \<and> graphics (resp_ClientSecret r0)"
    using assms
  proof (cases rule: mem.RegisterClient_cases)
    case (registered req' b1 b2 rd rd' h)
    then show ?thesis by (simp add: register_response_def hex_encode_digits RawURLEncoding_graphic)
  qed auto
  moreover have "byte_val c < 128 \<and> c \<noteq> CHR '':''" if "is_hex_digit c" for c
    using that by (auto simp: is_hex_digit_def Let_def)
  ultimately show "to_valid (resp_ClientID r0) = resp_ClientID r0" "to_valid (resp_ClientSecret r0) = resp_ClientSecret r0"
    "CHR '':'' \<notin> set (resp_ClientID r0)"
    by (auto simp: list_all_iff to_valid_graphics intro!: to_valid_id utf8_valid_ascii)
qed

text \<open>The client with the credentials of a registration.\<close>

definition with_registration :: "RegisterClientResponse \<Rightarrow> SdkClient \<Rightarrow> SdkClient" where
  "with_registration resp c = c\<lparr>cachedTokens := Map.empty,
     config := (config c)\<lparr>cfg_ClientID := resp_ClientID resp, cfg_ClientSecret := resp_ClientSecret resp\<rparr>\<rparr>"

text \<open>C8: a client that registers itself through the library can use what it got: whenever the
  library's \<open>RegisterClient\<close> returns a response, its \<open>GetToken\<close> with the credentials of that response
  gets a token for every resource the registration allows (any absolute URI or none, when it allows
  all), given 32 random bytes at the server and no required scope, and the server has stored the
  token for that client and resource. The request's strings are UTF-8, and bcrypt accepts the password a
  hash was made from.\<close>

theorem register_then_token_end_to_end:
  assumes srv: "registration_served lib sl c" "server_at lib sl c" "forms_bound (s_gin sl)"
    and utf8: "valid_request req = req"
    and bcrypt: "\<And>n pw cost h. bcrypt_GenerateFromPassword (s_lib sl) n pw cost = Inr h \<Longrightarrow>
      bcrypt_CompareHashAndPassword (s_lib sl) h pw = None"
    and reg: "sdk_RegisterClient lib (loopback lib sl base) (Some req) c w = (Inr resp, w1)"
    and res: "if reg_AllowedResources req = []
        then resource = [] \<or> ValidateAbsoluteURI (ip_literal (s_lib sl)) resource = None
        else resource \<in> set (reg_AllowedResources req)"
    and rand: "ReadFull [] tokenEntropyLen (randReader (svc w1)) = (Inr b, rd)"
  shows "\<exists>c2 w2 t. GetToken lib (loopback lib sl base) resource (with_registration resp c) w1
        = (Inr (opaque_token b), c2, w2)
     \<and> tokens (store (svc w2)) (ComputeTokenHash (opaque_token b)) = Some t
     \<and> ClientID t = resp_ClientID resp \<and> Resource t = resource"
proof -
  let ?c = "with_registration resp c"
  obtain r' s' where r': "RegisterClient memory_ops (s_lib sl) (Some req) (svc w) = (r', s')" by fastforce
  from register_posts [OF srv(1) utf8 this, of base] reg obtain r0 where
    r0: "RegisterClient memory_ops (s_lib sl) (Some req) (svc w) = (Inr r0, svc w1)" "resp = valid_register r0"
    by (auto simp: r' split: sum.splits if_splits)
  have id: "resp_ClientID resp = resp_ClientID r0" "resp_ClientSecret resp = resp_ClientSecret r0"
    "CHR '':'' \<notin> set (resp_ClientID r0)"
    using credentials_ascii [OF r0(1)] by (simp_all add: r0(2) valid_register_def)
  have scope: "reg_AllowedScopes req = [] \<or> set (Fields []) \<subseteq> set (reg_AllowedScopes req)" by simp
  have "\<exists>k. clients (store (svc w1)) (resp_ClientID r0) = Some k
      \<and> client_may (s_lib sl) \<lparr>req_GrantType = ''client_credentials'', req_ClientID = resp_ClientID r0,
             req_ClientSecret = resp_ClientSecret r0, req_Resource = resource, req_Scope = []\<rparr> k
      \<and> ID k = resp_ClientID r0"
    by (rule registered_client_may [OF _ r0(1) res scope]) (rule bcrypt)
  then obtain k where k: "clients (store (svc w1)) (req_ClientID (client_request ?c resource)) = Some k"
    "client_may (s_lib sl) (client_request ?c resource) k" "ID k = resp_ClientID resp"
    by (auto simp: client_request_def with_registration_def id)
  have dep: "deployed lib sl ?c"
    using srv id by (simp add: deployed_def registration_served_def server_at_def endpoint_def with_registration_def)
  obtain r s where iss: "IssueToken memory_ops (s_lib sl) \<lparr>span_recording = False\<rparr>
      (Some (client_request ?c resource)) (svc w1) = (r, s)" by fastforce
  have r: "r = Inr (new_response (opaque_token b) (client_request ?c resource) (tokenTTL (svc w1)))"
    using mem.IssueToken_complete [OF k(1,2) rand, of "\<lparr>span_recording = False\<rparr>"] iss
    by (simp add: client_request_def)
  let ?t = "new_token (opaque_token b) (client_request ?c resource) k (issue_time (svc w1)) (tokenTTL (svc w1))"
  have t: "tokens (store s) (ComputeTokenHash (opaque_token b)) = Some ?t"
    using iss unfolding r by (cases rule: mem.IssueToken_cases) (use rand k(1) in auto)
  obtain y w2 where f: "fetchToken lib (loopback lib sl base) resource ?c w1 = (y, w2)" by fastforce
  from fetch_issues [OF dep iss f] r have
    "svc w2 = s" "y = Inr (valid_token (new_response (opaque_token b) (client_request ?c resource) (tokenTTL (svc w1))))"
    by auto
  moreover have "cachedTokens ?c resource = None" by (simp add: with_registration_def)
  ultimately show ?thesis
    using f t k(3) by (auto simp: GetToken_def sdk_time_eq cached_at_def GetToken_locked_def Let_def new_response_def
        new_token_def client_request_def)
qed

section \<open>A registration at an empty server\<close>

text \<open>Gin's binding by \<open>Unmarshal\<close>.\<close>

definition json_gin :: Gin where
  "json_gin = form_gin\<lparr>bind_register := (\<lambda>r.
     case Unmarshal request_member zero_request (r_Body r) of
       Inl e \<Rightarrow> (Inl e, r) | Inr req \<Rightarrow> (Inr req, r\<lparr>r_Body := []\<rparr>))\<rparr>"

definition demo_reg_lib :: SampleLib where
  "demo_reg_lib = demo_sample_lib\<lparr>s_gin := json_gin\<rparr>"

definition demo_empty :: Sample where
  "demo_empty = demo_sample\<lparr>svc := demo_new demo_entropy\<rparr>"

lemma demo_reg_simps [simp]:
  "s_lib demo_reg_lib = demo_lib" "s_gin demo_reg_lib = json_gin" "svc demo_empty = demo_new demo_entropy"
  by (simp_all add: demo_reg_lib_def demo_sample_lib_def demo_empty_def)

lemma demo_registration_served:
  "registration_served demo_sdklib demo_reg_lib demo_sdk" "server_at demo_sdklib demo_reg_lib demo_sdk"
  "forms_bound json_gin"
proof -
  have "registration_bound json_gin" by (auto simp: registration_bound_def json_gin_def)
  moreover have "routes_matched demo_reg_lib"
    by (simp add: routes_matched_def demo_reg_lib_def demo_sample_lib_def)
  moreover have "endpoint demo_sdk ''/oauth/clients'' = ''http://as/oauth/clients''" by code_simp
  moreover have "url_Parse (\<lambda>_. None) ''http://as/oauth/clients''
     = Inr \<lparr>url_Scheme = ''http'', url_Opaque = [], url_Host = ''as'', url_Path = ''/oauth/clients'',
          url_RawQuery = [], url_Fragment = []\<rparr>" by code_simp
  moreover have "sdk_ip_literal demo_sdklib = ip_literal demo_lib" "ip_literal demo_lib = (\<lambda>_. None)"
    by (simp_all add: demo_sdklib_def demo_lib_def)
  ultimately show "registration_served demo_sdklib demo_reg_lib demo_sdk"
    by (simp add: registration_served_def) (simp add: demo_sdk_def sdk_New_def)
  have "s_gin demo_e2e_lib = form_gin" by (simp add: demo_e2e_lib_def)
  then show "server_at demo_sdklib demo_reg_lib demo_sdk" "forms_bound json_gin"
    using demo_deployed by (simp_all add: deployed_def server_at_def) (simp add: json_gin_def forms_bound_def)
qed

theorem register_then_token_end_to_end_witness:
  "\<exists>resp w1 c2 w2. sdk_RegisterClient demo_sdklib (loopback demo_sdklib demo_reg_lib []) (Some demo_registration)
       demo_sdk demo_empty = (Inr resp, w1)
     \<and> GetToken demo_sdklib (loopback demo_sdklib demo_reg_lib []) [] (with_registration resp demo_sdk) w1
       = (Inr (opaque_token demo_bytes), c2, w2)"
proof -
  obtain r0 s' where r0: "RegisterClient memory_ops demo_lib (Some demo_registration) (demo_new demo_entropy) = (Inr r0, s')"
    "resp_CreatedAt r0 = 0" "randReader s' = [Data demo_bytes]"
    using demo_registered by (auto simp: register_response_def)
  have utf8: "valid_request demo_registration = demo_registration" by code_simp
  have "json_time 0" by (simp add: json_time_def day_of_def year_of_day_def days_before_year_def)
  with register_posts [OF demo_registration_served(1) utf8, where w = demo_empty and base = "[]"] r0 obtain w1 where
    reg: "sdk_RegisterClient demo_sdklib (loopback demo_sdklib demo_reg_lib []) (Some demo_registration)
       demo_sdk demo_empty = (Inr (valid_register r0), w1)" "svc w1 = s'" by auto
  have "\<exists>c2 w2 t. GetToken demo_sdklib (loopback demo_sdklib demo_reg_lib []) []
        (with_registration (valid_register r0) demo_sdk) w1 = (Inr (opaque_token demo_bytes), c2, w2)
     \<and> tokens (store (svc w2)) (ComputeTokenHash (opaque_token demo_bytes)) = Some t
     \<and> ClientID t = resp_ClientID (valid_register r0) \<and> Resource t = []"
    by (rule register_then_token_end_to_end [OF demo_registration_served(1,2) _ utf8 _ reg(1), where b = demo_bytes and rd = "[]"])
      (use demo_registration_served(3) reg(2) r0(3) demo_read in
        \<open>auto simp: demo_registration_def demo_lib_def\<close>)
  with reg(1) show ?thesis by blast
qed

end
