(* ===== verification/Cli.thy ===== *)
theory Cli
  imports Transport Handlers
begin

text \<open>
  \<open>cmd/oauth-cli/main.go\<close>: the command line client. Each command is its flags and its action, a
  function from the values of the flags (\<open>c.String\<close>) and the world to what it prints, the error
  it returns, and the world after it. The parsing of the arguments is \<open>urfave/cli\<close>'s; the network is
  the record \<open>CliNet\<close>. \<open>float_text\<close> of \<open>CliLib\<close> is the text of a number after its way through a
  \<open>float64\<close> (\<open>ParseFloat\<close>, then the encoder's format), or \<open>None\<close> out of range.
\<close>

section \<open>What the commands use\<close>

record CliLib =
  cli_sdk :: SdkLib
  cli_now :: clock
  float_text :: "string \<Rightarrow> string option"

record CliResponse = OutResponse +
  p_ContentType :: string

record 'net CliNet =
  net_Do :: "'net network"
  default_transport :: "('net, OutResponse) round_tripper"
  http_Get :: "string \<Rightarrow> 'net \<Rightarrow> (go_error + CliResponse) \<times> 'net"

type_synonym 'net cli_action =
  "CliLib \<Rightarrow> 'net CliNet \<Rightarrow> (string \<Rightarrow> string) \<Rightarrow> 'net \<Rightarrow> string \<times> go_error option \<times> 'net"

definition line :: "string \<Rightarrow> string" where
  "line s = s @ [CHR 0x0A]"

text \<open>\<open>http.NewRequestWithContext\<close> for a request the user describes: an empty method is \<open>GET\<close>, any
  other must be a token of RFC 7230; the URL must parse, and an empty port goes.\<close>

definition token_char :: "char \<Rightarrow> bool" where
  "token_char c \<longleftrightarrow> is_alnum c \<or> c \<in> set ''!#$%&*+-.^_`|~'' \<or> byte_val c = 39"

definition valid_method :: "string \<Rightarrow> bool" where
  "valid_method m \<longleftrightarrow> m \<noteq> [] \<and> list_all token_char m"

definition removeEmptyPort :: "string \<Rightarrow> string" where
  "removeEmptyPort host = (if host \<noteq> [] \<and> last host = CHR '':'' then butlast host else host)"

definition NewUserRequest :: "SdkLib \<Rightarrow> string \<Rightarrow> string \<Rightarrow> bytes \<Rightarrow> go_error + UserRequest" where
  "NewUserRequest lib meth u body =
     (let meth = (if meth = [] then ''GET'' else meth)
      in if \<not> valid_method meth then Inl (NewError [Lit ''net/http: invalid method '', Quoted meth])
      else case url_Parse (sdk_ip_literal lib) u of
        Inl e \<Rightarrow> Inl (NewError e)
      | Inr url \<Rightarrow>
          Inr \<lparr>u_Method = meth, u_URL = Some (url\<lparr>url_Host := removeEmptyPort (url_Host url)\<rparr>),
               u_Header = (\<lambda>_. []), u_Body = body\<rparr>)"

definition set_json :: "UserRequest \<Rightarrow> UserRequest" where
  "set_json r = r\<lparr>u_Header := (u_Header r)(''Content-Type'' := [''application/json''])\<rparr>"

section \<open>JSON values of the program\<close>

text \<open>A map keeps one value per key, the last; it is written in the order of the keys' bytes.\<close>

fun string_less :: "string \<Rightarrow> string \<Rightarrow> bool" where
  "string_less [] t = (t \<noteq> [])"
| "string_less (a # s) [] = False"
| "string_less (a # s) (b # t) = (byte_val a < byte_val b \<or> a = b \<and> string_less s t)"

fun map_put :: "string \<times> 'a \<Rightarrow> (string \<times> 'a) list \<Rightarrow> (string \<times> 'a) list" where
  "map_put (k, v) [] = [(k, v)]"
| "map_put (k, v) ((k', v') # ms) =
     (if k = k' then (k, v) # ms
      else if string_less k k' then (k, v) # (k', v') # ms
      else (k', v') # map_put (k, v) ms)"

definition map_of_members :: "(string \<times> 'a) list \<Rightarrow> (string \<times> 'a) list" where
  "map_of_members ms = foldl (\<lambda>m p. map_put p m) [] ms"

text \<open>\<open>json.Unmarshal\<close> into an \<open>any\<close>, as the document it is written as.\<close>

primrec any_of :: "(string \<Rightarrow> string option) \<Rightarrow> jdoc \<Rightarrow> jdoc option" where
  "any_of ft DNull = Some DNull"
| "any_of ft (DBool b) = Some (DBool b)"
| "any_of ft (DNum lit) = map_option DNum (ft lit)"
| "any_of ft (DStr s) = Some (DStr s)"
| "any_of ft (DArr vs) = map_option DArr (those (map (any_of ft) vs))"
| "any_of ft (DObj ms) =
     map_option (\<lambda>ms. DObj (map_of_members ms))
       (those (map (\<lambda>(k, v). map_option (Pair k) v) (map (map_prod id (any_of ft)) ms)))"

definition json_Unmarshal_any :: "CliLib \<Rightarrow> string \<Rightarrow> jdoc option" where
  "json_Unmarshal_any lib body = Option.bind (json_parse body) (any_of (float_text lib))"

text \<open>\<open>json.Marshal\<close> of a \<open>map[string]string\<close>\<close>

definition json_Marshal_map :: "(string \<times> string) list \<Rightarrow> bytes" where
  "json_Marshal_map ms = json_text (DObj (map_of_members (map (map_prod id DStr) ms)))"

section \<open>Helpers of the program\<close>

definition defaultServerURL :: "(string \<Rightarrow> string) \<Rightarrow> string" where
  "defaultServerURL getenv =
     (if getenv ''SERVER_URL'' \<noteq> [] then getenv ''SERVER_URL'' else ''http://localhost:8080'')"

text \<open>\<open>MarshalIndent\<close> fails for a value with no text.\<close>

definition printPrettyJSON :: "jdoc option \<Rightarrow> string \<times> go_error option" where
  "printPrettyJSON v =
     (case v of None \<Rightarrow> ([], Some json_error) | Some d \<Rightarrow> (line (json_indent d), None))"

text \<open>The client of a command, for a server and the credentials of the flags.\<close>

definition cli_client :: "CliLib \<Rightarrow> string \<Rightarrow> (string \<Rightarrow> string) \<Rightarrow> SdkClient" where
  "cli_client lib serverURL String = sdk_New (cli_now lib)
     \<lparr>ServerURL = serverURL, cfg_ClientID = String ''client-id'',
      cfg_ClientSecret = String ''client-secret'', cfg_ExpiryBuffer = 0\<rparr>"

text \<open>The end of the commands that call an API: status and body, the body as JSON where it is.\<close>

definition print_response :: "CliLib \<Rightarrow> OutResponse \<Rightarrow> string \<times> go_error option" where
  "print_response lib resp =
     (let body = p_Body resp;
          head = line (''HTTP Status: '' @ decimal (p_Status resp))
      in case json_Unmarshal_any lib body of
        Some parsed \<Rightarrow> (case printPrettyJSON (Some parsed) of (out, e) \<Rightarrow> (head @ out, e))
      | None \<Rightarrow> (head @ line body, None))"

definition authorized_call ::
  "CliLib \<Rightarrow> 'net CliNet \<Rightarrow> string \<Rightarrow> SdkClient \<Rightarrow> UserRequest \<Rightarrow> string \<Rightarrow> 'net
   \<Rightarrow> string \<times> go_error option \<times> 'net" where
  "authorized_call lib nt failure client httpReq resource net =
     (case sdk_Do (cli_sdk lib) (net_Do nt) (default_transport nt) None [resource] httpReq client net of
        (Inl e, _, net) \<Rightarrow> ([], Some (Wrapf [Lit failure] e []), net)
      | (Inr resp, _, net) \<Rightarrow>
          (case print_response lib resp of (out, e) \<Rightarrow> (out, e, net)))"

definition resource_uri :: "(string \<Rightarrow> string) \<Rightarrow> string" where
  "resource_uri String =
     TrimRight (String ''resource-base-url'') (CHR ''/'') @ ''/v1/certificates/'' @ String ''cert-id''"

section \<open>The actions\<close>

definition register_resources :: "string \<Rightarrow> string list" where
  "register_resources raw =
     (if raw = [] then []
      else filter (\<lambda>tr. tr \<noteq> []) (map TrimSpace (Split raw (CHR '',''))))"

definition register_scopes :: "string \<Rightarrow> string list" where
  "register_scopes raw = (if raw = [] then [] else Fields raw)"

definition register_action :: "'net cli_action" where
  "register_action lib nt String net =
     (case sdk_RegisterClient (cli_sdk lib) (net_Do nt)
             (Some \<lparr>reg_Name = String ''name'', reg_AllowedResources = register_resources (String ''resources''),
                    reg_AllowedScopes = register_scopes (String ''scopes'')\<rparr>)
             (sdk_New (cli_now lib)
                \<lparr>ServerURL = String ''server-url'', cfg_ClientID = [], cfg_ClientSecret = [],
                 cfg_ExpiryBuffer = 0\<rparr>) net of
        (Inl e, net) \<Rightarrow> ([], Some (Wrapf [Lit ''registration failed: ''] e []), net)
      | (Inr resp, net) \<Rightarrow>
          (case printPrettyJSON (doc_of (strconv_Quote (cli_sdk lib)) (json_of_RegisterClientResponse resp)) of
             (out, e) \<Rightarrow> (line ''Client successfully registered:'' @ out, e, net)))"

definition token_action :: "'net cli_action" where
  "token_action lib nt String net =
     (case GetToken (cli_sdk lib) (net_Do nt) (String ''resource'')
             (cli_client lib (String ''server-url'') String) net of
        (Inl e, _, net) \<Rightarrow> ([], Some (Wrapf [Lit ''failed to obtain token: ''] e []), net)
      | (Inr token, _, net) \<Rightarrow> (line (''Access Token: '' @ token), None, net))"

text \<open>A request to the API of a certificate, with a JSON payload or none.\<close>

definition certificate_call ::
  "string \<Rightarrow> string \<Rightarrow> (string \<times> string) list option \<Rightarrow> 'net cli_action" where
  "certificate_call meth path payload lib nt String net =
     (let serverURL = TrimRight (String ''server-url'') (CHR ''/'');
          target = serverURL @ ''/v1/certificates/'' @ String ''cert-id'' @ path
      in case NewUserRequest (cli_sdk lib) meth target
                (case payload of None \<Rightarrow> [] | Some members \<Rightarrow> json_Marshal_map members) of
        Inl e \<Rightarrow> ([], Some e, net)
      | Inr httpReq \<Rightarrow>
          authorized_call lib nt ''API call failed: '' (cli_client lib serverURL String)
            (if payload = None then httpReq else set_json httpReq) (resource_uri String) net)"

definition challenge_start_action :: "'net cli_action" where
  "challenge_start_action lib nt String net =
     certificate_call ''POST'' ''/challenges/http-01/start''
       (Some [(''domain'', String ''domain''), (''token'', String ''token''),
              (''key_authorization'', String ''key-auth'')]) lib nt String net"

definition challenge_complete_action :: "'net cli_action" where
  "challenge_complete_action lib nt String net =
     certificate_call ''POST'' ''/challenges/http-01/complete'' (Some [(''token'', String ''token'')])
       lib nt String net"

definition get_cert_action :: "'net cli_action" where
  "get_cert_action lib nt String net = certificate_call ''GET'' [] None lib nt String net"

definition challenge_verify_action :: "'net cli_action" where
  "challenge_verify_action lib nt String net =
     (let target = TrimRight (String ''server-url'') (CHR ''/'') @ ''/.well-known/acme-challenge/''
            @ String ''token''
      in case http_Get nt target net of
        (Inl e, net) \<Rightarrow> ([], Some (Wrapf [Lit ''failed to fetch challenge: ''] e []), net)
      | (Inr resp, net) \<Rightarrow>
          (line (''HTTP Status: '' @ decimal (p_Status resp))
           @ line (''Content-Type: '' @ p_ContentType resp)
           @ line (''Key Authorization: '' @ p_Body resp), None, net))"

definition introspect_action :: "'net cli_action" where
  "introspect_action lib nt String net =
     (case sdk_Introspect (cli_sdk lib) (net_Do nt) (String ''token'')
             (cli_client lib (String ''server-url'') String) net of
        (Inl e, net) \<Rightarrow> ([], Some (Wrapf [Lit ''introspection failed: ''] e []), net)
      | (Inr resp, net) \<Rightarrow>
          (case printPrettyJSON (doc_of (strconv_Quote (cli_sdk lib)) (json_of_IntrospectResponse resp)) of
             (out, e) \<Rightarrow> (line ''Introspection Response:'' @ out, e, net)))"

definition revoke_action :: "'net cli_action" where
  "revoke_action lib nt String net =
     (case sdk_Revoke (cli_sdk lib) (net_Do nt) (String ''token'')
             (cli_client lib (String ''server-url'') String) net of
        (Some e, _, net) \<Rightarrow> ([], Some (Wrapf [Lit ''revocation failed: ''] e []), net)
      | (None, _, net) \<Rightarrow> (line ''Token revoked successfully.'', None, net))"

definition call_action :: "'net cli_action" where
  "call_action lib nt String net =
     (let serverURL = TrimRight (String ''server-url'') (CHR ''/'');
          rawBody = String ''body''
      in case NewUserRequest (cli_sdk lib) (String ''method'') (serverURL @ String ''path'') rawBody of
        Inl e \<Rightarrow> ([], Some e, net)
      | Inr httpReq \<Rightarrow>
          authorized_call lib nt ''request execution failed: '' (cli_client lib serverURL String)
            (if rawBody = [] then httpReq else set_json httpReq) (String ''resource'') net)"

section \<open>The commands\<close>

record CliFlag =
  flag_Name :: string
  flag_Value :: string
  flag_Required :: bool
  flag_EnvVars :: "string list"

record 'net CliCommand =
  cmd_Name :: string
  cmd_Flags :: "CliFlag list"
  cmd_Action :: "'net cli_action"

definition optional_flag :: "string \<Rightarrow> string \<Rightarrow> CliFlag" where
  "optional_flag n v = \<lparr>flag_Name = n, flag_Value = v, flag_Required = False, flag_EnvVars = []\<rparr>"

definition required_flag :: "string \<Rightarrow> string list \<Rightarrow> CliFlag" where
  "required_flag n env = \<lparr>flag_Name = n, flag_Value = [], flag_Required = True, flag_EnvVars = env\<rparr>"

text \<open>The flags for the server and the credentials, the same in all commands that have them.\<close>

definition server_flag :: "(string \<Rightarrow> string) \<Rightarrow> CliFlag" where
  "server_flag getenv = optional_flag ''server-url'' (defaultServerURL getenv)"

definition credential_flags :: "CliFlag list" where
  "credential_flags = [required_flag ''client-id'' [''CLIENT_ID''], required_flag ''client-secret'' [''CLIENT_SECRET'']]"

definition base_flag :: CliFlag where
  "base_flag = optional_flag ''resource-base-url'' ''https://api.example.com''"

definition registerCommand :: "(string \<Rightarrow> string) \<Rightarrow> 'net CliCommand" where
  "registerCommand getenv = \<lparr>cmd_Name = ''register'',
     cmd_Flags = [server_flag getenv, required_flag ''name'' [], optional_flag ''resources'' [],
       optional_flag ''scopes'' []],
     cmd_Action = register_action\<rparr>"

definition tokenCommand :: "(string \<Rightarrow> string) \<Rightarrow> 'net CliCommand" where
  "tokenCommand getenv = \<lparr>cmd_Name = ''token'',
     cmd_Flags = server_flag getenv # credential_flags @ [optional_flag ''resource'' []],
     cmd_Action = token_action\<rparr>"

definition challengeStartCommand :: "(string \<Rightarrow> string) \<Rightarrow> 'net CliCommand" where
  "challengeStartCommand getenv = \<lparr>cmd_Name = ''challenge-start'',
     cmd_Flags = server_flag getenv # credential_flags @
       [required_flag ''cert-id'' [], required_flag ''domain'' [], required_flag ''token'' [],
        required_flag ''key-auth'' [], base_flag],
     cmd_Action = challenge_start_action\<rparr>"

definition challengeVerifyCommand :: "(string \<Rightarrow> string) \<Rightarrow> 'net CliCommand" where
  "challengeVerifyCommand getenv = \<lparr>cmd_Name = ''challenge-verify'',
     cmd_Flags = [server_flag getenv, required_flag ''token'' []], cmd_Action = challenge_verify_action\<rparr>"

definition challengeCompleteCommand :: "(string \<Rightarrow> string) \<Rightarrow> 'net CliCommand" where
  "challengeCompleteCommand getenv = \<lparr>cmd_Name = ''challenge-complete'',
     cmd_Flags = server_flag getenv # credential_flags @
       [required_flag ''cert-id'' [], required_flag ''token'' [], base_flag],
     cmd_Action = challenge_complete_action\<rparr>"

definition getCertCommand :: "(string \<Rightarrow> string) \<Rightarrow> 'net CliCommand" where
  "getCertCommand getenv = \<lparr>cmd_Name = ''get-cert'',
     cmd_Flags = server_flag getenv # credential_flags @ [required_flag ''cert-id'' [], base_flag],
     cmd_Action = get_cert_action\<rparr>"

definition introspectCommand :: "(string \<Rightarrow> string) \<Rightarrow> 'net CliCommand" where
  "introspectCommand getenv = \<lparr>cmd_Name = ''introspect'',
     cmd_Flags = server_flag getenv # credential_flags @ [required_flag ''token'' []],
     cmd_Action = introspect_action\<rparr>"

definition revokeCommand :: "(string \<Rightarrow> string) \<Rightarrow> 'net CliCommand" where
  "revokeCommand getenv = \<lparr>cmd_Name = ''revoke'',
     cmd_Flags = server_flag getenv # credential_flags @ [required_flag ''token'' []],
     cmd_Action = revoke_action\<rparr>"

definition callCommand :: "(string \<Rightarrow> string) \<Rightarrow> 'net CliCommand" where
  "callCommand getenv = \<lparr>cmd_Name = ''call'',
     cmd_Flags = server_flag getenv # credential_flags @
       [optional_flag ''resource'' [], optional_flag ''method'' ''GET'', required_flag ''path'' [],
        optional_flag ''body'' []],
     cmd_Action = call_action\<rparr>"

definition cli_commands :: "(string \<Rightarrow> string) \<Rightarrow> 'net CliCommand list" where
  "cli_commands getenv =
     [registerCommand getenv, tokenCommand getenv, challengeStartCommand getenv,
      challengeVerifyCommand getenv, challengeCompleteCommand getenv, getCertCommand getenv,
      introspectCommand getenv, revokeCommand getenv, callCommand getenv]"

section \<open>The program\<close>

record cli_exit =
  stdout :: string
  stderr :: string
  exit_code :: int

text \<open>
  What \<open>urfave/cli\<close> makes of the arguments, the parameter \<open>parse\<close>: an error (an unknown command
  aside, a missing required flag or a flag not defined), a command with the values of its flags,
  or nothing left to run (the help text). An error of the application or of the action goes to
  standard error, with exit code 1.
\<close>

definition cli_main ::
  "((string \<times> CliFlag list) list \<Rightarrow> string list \<Rightarrow> (go_error + (nat \<times> (string \<Rightarrow> string)) option) \<times> string)
   \<Rightarrow> CliLib \<Rightarrow> 'net CliNet \<Rightarrow> (string \<Rightarrow> string) \<Rightarrow> string list \<Rightarrow> 'net \<Rightarrow> cli_exit \<times> 'net" where
  "cli_main parse lib nt getenv args net =
     (let commands = cli_commands getenv;
          fatal = (\<lambda>e. line (''Error: '' @ render (strconv_Quote (cli_sdk lib)) (error_text e)))
      in case parse (map (\<lambda>cmd. (cmd_Name cmd, cmd_Flags cmd)) commands) args of
        (Inl e, help) \<Rightarrow> (\<lparr>stdout = help, stderr = fatal e, exit_code = 1\<rparr>, net)
      | (Inr None, help) \<Rightarrow> (\<lparr>stdout = help, stderr = [], exit_code = 0\<rparr>, net)
      | (Inr (Some (n, String)), help) \<Rightarrow>
          (if n < length commands then
             (case cmd_Action (commands ! n) lib nt String net of
                (out, None, net) \<Rightarrow> (\<lparr>stdout = help @ out, stderr = [], exit_code = 0\<rparr>, net)
              | (out, Some e, net) \<Rightarrow> (\<lparr>stdout = help @ out, stderr = fatal e, exit_code = 1\<rparr>, net))
           else (\<lparr>stdout = help, stderr = [], exit_code = 0\<rparr>, net)))"

end
