(* ===== verification/Cli_Properties.thy ===== *)
theory Cli_Properties
  imports Cli End_To_End
begin

text \<open>
  The properties of the command line client: how it reads lists from its flags, how it reports
  what the server answers, and one command against the sample server.
\<close>

section \<open>Lists in flags\<close>

fun join_commas :: "string list \<Rightarrow> string" where
  "join_commas [] = []"
| "join_commas [r] = r"
| "join_commas (r # rs) = r @ '','' @ join_commas rs"

lemma Split_join_commas:
  assumes "rs \<noteq> []" "list_all (\<lambda>r. CHR '','' \<notin> set r) rs"
  shows "Split (join_commas rs) (CHR '','') = rs"
  using assms
proof (induction rs rule: join_commas.induct)
  case (2 r)
  then show ?case by (simp add: Split_absent)
next
  case (3 r r' rs)
  then show ?case using Split_append [of "CHR '',''" r "join_commas (r' # rs)"] by simp
qed simp

text \<open>The lists of a registration survive the command line: resources joined by commas and scopes
  joined by blanks, each without white space, commas or other characters outside graphic ASCII,
  are read back as they were; and no flag value whatever gives an empty entry.\<close>

theorem register_flags_roundtrip:
  assumes "list_all (\<lambda>r. graphics r \<and> r \<noteq> [] \<and> CHR '','' \<notin> set r) rs"
    and "list_all (\<lambda>w. graphics w \<and> w \<noteq> []) ws"
  shows "register_resources (join_commas rs) = rs \<and> register_scopes (join_spaces ws) = ws
    \<and> [] \<notin> set (register_resources raw) \<and> [] \<notin> set (register_scopes raw)"
proof -
  have "register_resources (join_commas rs) = rs"
  proof (cases "rs = []")
    case False
    have "map TrimSpace rs = rs" "filter (\<lambda>tr. tr \<noteq> []) rs = rs"
      using assms(1) by (induction rs) (auto simp: TrimSpace_graphic)
    moreover have "Split (join_commas rs) (CHR '','') = rs"
      using False assms(1) by (intro Split_join_commas) (auto simp: list_all_iff)
    moreover have "join_commas rs \<noteq> []"
      using False assms(1) by (cases rs rule: join_commas.cases) auto
    ultimately show ?thesis by (simp add: register_resources_def)
  qed (simp add: register_resources_def)
  moreover have "register_scopes (join_spaces ws) = ws"
    using Fields_join_spaces [OF assms(2)] by (auto simp: register_scopes_def)
  ultimately show ?thesis
    by (auto simp: register_resources_def register_scopes_def dest: Fields_nonempty [THEN notE])
qed

theorem register_flags_roundtrip_witness:
  "register_resources ''https://a/x,https://b/y'' = [''https://a/x'', ''https://b/y'']"
proof -
  have "list_all (\<lambda>r. graphics r \<and> r \<noteq> [] \<and> CHR '','' \<notin> set r) [''https://a/x'', ''https://b/y'']"
    by code_simp
  from register_flags_roundtrip [OF this, of "[]" "[]"] show ?thesis by simp
qed

section \<open>Exit codes\<close>

text \<open>The commands that call the API of a certificate, with the request each makes.\<close>

definition certificate_commands :: "(nat \<times> string \<times> string \<times> ((string \<Rightarrow> string) \<Rightarrow> (string \<times> string) list option)) list" where
  "certificate_commands =
     [(2, ''POST'', ''/challenges/http-01/start'', \<lambda>String. Some
         [(''domain'', String ''domain''), (''token'', String ''token''), (''key_authorization'', String ''key-auth'')]),
      (4, ''POST'', ''/challenges/http-01/complete'', \<lambda>String. Some [(''token'', String ''token'')]),
      (5, ''GET'', [], \<lambda>String. None)]"

lemma certificate_commands_action:
  assumes "(n, meth, path, payload) \<in> set certificate_commands"
  shows "n < length (cli_commands getenv)"
    "cmd_Action (cli_commands getenv ! n) lib nt String net
       = certificate_call meth path (payload String) lib nt String net"
  using assms
  by (auto simp: certificate_commands_def cli_commands_def challengeStartCommand_def
      challengeCompleteCommand_def getCertCommand_def challenge_start_action_def
      challenge_complete_action_def get_cert_action_def)

definition certificate_request ::
  "CliLib \<Rightarrow> string \<Rightarrow> string \<Rightarrow> (string \<times> string) list option \<Rightarrow> (string \<Rightarrow> string) \<Rightarrow> go_error + UserRequest" where
  "certificate_request lib meth path payload String =
     (case NewUserRequest (cli_sdk lib) meth
             (TrimRight (String ''server-url'') (CHR ''/'') @ ''/v1/certificates/'' @ String ''cert-id'' @ path)
             (case payload of None \<Rightarrow> [] | Some members \<Rightarrow> json_Marshal_map members) of
        Inl e \<Rightarrow> Inl e
      | Inr r \<Rightarrow> Inr (if payload = None then r else set_json r))"

lemma certificate_call_request:
  "certificate_call meth path payload lib nt String net =
     (case certificate_request lib meth path payload String of
        Inl e \<Rightarrow> ([], Some e, net)
      | Inr req \<Rightarrow> authorized_call lib nt ''API call failed: ''
          (cli_client lib (TrimRight (String ''server-url'') (CHR ''/'')) String) req (resource_uri String) net)"
  by (simp add: certificate_call_def certificate_request_def Let_def split: sum.split)

lemma print_response_total:
  shows "snd (print_response lib resp) = None
    \<and> (\<exists>rest. fst (print_response lib resp) = line (''HTTP Status: '' @ decimal (p_Status resp)) @ rest)"
  by (cases "json_Unmarshal_any lib (p_Body resp)") (simp_all add: print_response_def printPrettyJSON_def)

text \<open>The exit code of the certificate commands tells whether an answer came, not what it was:
  when the server answers with any status, 401, 403 or 500 included, the status is printed, nothing
  goes to standard error, and the exit code is 0; when the token or the answer cannot be had, the
  exit code is 1 and the error goes to standard error.\<close>

theorem cli_exit_code_ignores_status:
  assumes "parse (map (\<lambda>cmd. (cmd_Name cmd, cmd_Flags cmd)) (cli_commands getenv :: 'net CliCommand list)) args
      = (Inr (Some (n, String)), help)"
    and "(n, meth, path, payload) \<in> set certificate_commands"
    and "certificate_request lib meth path (payload String) String = Inr req"
    and "sdk_Do (cli_sdk lib) (net_Do nt) (default_transport nt) None [resource_uri String] req
      (cli_client lib (TrimRight (String ''server-url'') (CHR ''/'')) String) net = (answer, c', net')"
    and "cli_main parse lib (nt :: 'net CliNet) getenv args net = (x, net'')"
  shows "net'' = net' \<and> (case answer of
      Inr resp \<Rightarrow> exit_code x = 0 \<and> stderr x = []
        \<and> (\<exists>rest. stdout x = help @ line (''HTTP Status: '' @ decimal (p_Status resp)) @ rest)
    | Inl e \<Rightarrow> exit_code x = 1 \<and> stdout x = help \<and> stderr x \<noteq> [])"
proof -
  have act: "n < length (cli_commands getenv :: 'net CliCommand list)"
    by (rule certificate_commands_action(1) [OF assms(2)])
  have run: "cmd_Action (cli_commands getenv ! n) lib nt String net
      = authorized_call lib nt ''API call failed: ''
          (cli_client lib (TrimRight (String ''server-url'') (CHR ''/'')) String) req (resource_uri String) net"
    by (simp add: certificate_commands_action(2) [OF assms(2)] certificate_call_request assms(3))
  show ?thesis
  proof (cases answer)
    case (Inl e)
    with run assms(1,4,5) act show ?thesis
      by (auto simp: cli_main_def Let_def authorized_call_def line_def)
  next
    case (Inr resp)
    from print_response_total [of lib resp] obtain rest where
      "print_response lib resp = (line (''HTTP Status: '' @ decimal (p_Status resp)) @ rest, None)"
      by (metis prod.collapse)
    with Inr run assms(1,4,5) act show ?thesis
      by (auto simp: cli_main_def Let_def authorized_call_def)
  qed
qed

section \<open>A command against the sample server\<close>

text \<open>The certificate as \<open>get-cert\<close> prints it: the members of the server's answer in the order of
  their names.\<close>

definition certificate_doc :: "Certificate \<Rightarrow> jdoc" where
  "certificate_doc cert = DObj
     [(''created_at'', DStr (rfc3339 (cert_CreatedAt cert))), (''domain'', DStr (to_valid (cert_Domain cert))),
      (''expires_at'', DStr (rfc3339 (cert_ExpiresAt cert))), (''id'', DStr (to_valid (cert_ID cert))),
      (''status'', DStr (to_valid (cert_Status cert)))]"

lemma map_of_certificate_members:
  "map_of_members [(''id'', a), (''domain'', b), (''status'', c), (''created_at'', d), (''expires_at'', e)]
   = [(''created_at'', d), (''domain'', b), (''expires_at'', e), (''id'', a), (''status'', c)]"
  by (simp add: map_of_members_def)

lemma certificate_keys:
  "to_valid ''id'' = ''id''" "to_valid ''domain'' = ''domain''" "to_valid ''status'' = ''status''"
  "to_valid ''expires_at'' = ''expires_at''"
  by code_simp+

lemma read_certificate:
  assumes "json_time (cert_CreatedAt cert)" "json_time (cert_ExpiresAt cert)"
  shows "json_Unmarshal_any lib (body_text q (BodyJSON (json_of_Certificate cert))) = Some (certificate_doc cert)"
proof -
  let ?d = "DObj [(''id'', DStr (cert_ID cert)), (''domain'', DStr (cert_Domain cert)), (''status'', DStr (cert_Status cert)),
    (''created_at'', DStr (rfc3339 (cert_CreatedAt cert))), (''expires_at'', DStr (rfc3339 (cert_ExpiresAt cert)))]"
  have "doc_of q (json_of_Certificate cert) = Some ?d"
    using assms by (simp add: json_of_Certificate_def)
  moreover have "writable ?d max_nesting" by (simp add: max_nesting_pos)
  ultimately have "json_parse (body_text q (BodyJSON (json_of_Certificate cert))) = Some (jdoc_valid ?d)"
    by (rule parse_body_text)
  then show ?thesis
    by (simp add: json_Unmarshal_any_def certificate_keys map_of_certificate_members certificate_doc_def)
qed


section \<open>A concrete command line\<close>

definition demo_flags :: "string \<Rightarrow> string" where
  "demo_flags n =
     (if n = ''server-url'' then ''http://as/'' else if n = ''client-id'' then ''c1''
      else if n = ''client-secret'' then ''pw'' else if n = ''cert-id'' then ''x''
      else if n = ''resource-base-url'' then ''https://a.b'' else [])"

definition demo_cli :: CliLib where
  "demo_cli = \<lparr>cli_sdk = demo_sdklib, cli_now = fixed_clock 0, float_text = Some\<rparr>"

definition demo_net :: "Sample CliNet" where
  "demo_net = \<lparr>net_Do = loopback demo_sdklib demo_e2e_lib ''https://a.b'',
     default_transport = loopback_transport demo_sdklib demo_e2e_lib ''https://a.b'',
     http_Get = (\<lambda>_ w. (Inl io_EOF, w))\<rparr>"

definition demo_parse ::
  "(string \<times> CliFlag list) list \<Rightarrow> string list \<Rightarrow> (go_error + (nat \<times> (string \<Rightarrow> string)) option) \<times> string" where
  "demo_parse cmds args = (Inr (Some (5, demo_flags)), [])"

lemma demo_cli_deployed:
  "deployed demo_sdklib demo_e2e_lib (cli_client demo_cli (TrimRight (demo_flags ''server-url'') (CHR ''/'')) demo_flags)"
proof -
  let ?c = "cli_client demo_cli (TrimRight (demo_flags ''server-url'') (CHR ''/'')) demo_flags"
  have "endpoint ?c ''/oauth/token'' = endpoint demo_sdk ''/oauth/token''"
    "endpoint ?c ''/oauth/revoke'' = endpoint demo_sdk ''/oauth/revoke''" by code_simp+
  moreover have "cfg_ClientID (config ?c) = cfg_ClientID (config demo_sdk)"
    by (simp add: demo_sdk_config) (simp add: cli_client_def sdk_New_def demo_flags_def)
  ultimately show ?thesis
    using demo_deployed by (simp add: deployed_def server_at_def)
qed

text \<open>The server with one certificate.\<close>

definition demo_certificate :: Certificate where
  "demo_certificate = \<lparr>cert_ID = ''x'', cert_Domain = ''a.b'', cert_Status = ''issued'', cert_CreatedAt = 0,
     cert_ExpiresAt = 86400000000000\<rparr>"

definition demo_held :: Sample where
  "demo_held = demo_fresh\<lparr>certs := demo_certs\<lparr>certStore := (certStore demo_certs)\<lparr>certificates := [''x'' \<mapsto> demo_certificate]\<rparr>\<rparr>\<rparr>"

lemma demo_held_simps [simp]:
  "svc demo_held = demo_server" "certificates (certStore (certs demo_held)) = [''x'' \<mapsto> demo_certificate]"
  by (simp_all add: demo_held_def)

lemma demo_certificate_times: "json_time (cert_CreatedAt demo_certificate)" "json_time (cert_ExpiresAt demo_certificate)"
  by (simp_all add: demo_certificate_def json_time_def day_of_def nanos_per_second_def year_of_day_def days_before_year_def)


theorem cli_exit_code_ignores_status_witness:
  "exit_code (fst (cli_main demo_parse demo_cli demo_net (\<lambda>_. []) [] demo_fresh)) \<in> {0, 1}"
proof -
  let ?c = "cli_client demo_cli (TrimRight (demo_flags ''server-url'') (CHR ''/'')) demo_flags"
  have "valid_method ''GET''" "isl (url_Parse (\<lambda>_. None) (TrimRight (demo_flags ''server-url'') (CHR ''/'')
      @ ''/v1/certificates/'' @ demo_flags ''cert-id'' @ [])) = False" by code_simp+
  then have "\<exists>req. certificate_request demo_cli ''GET'' [] None demo_flags = Inr req"
    by (auto simp: certificate_request_def NewUserRequest_def demo_cli_def demo_sdklib_def isl_def split: sum.split)
  then obtain req where req: "certificate_request demo_cli ''GET'' [] ((\<lambda>_. None) demo_flags) demo_flags = Inr req" by auto
  obtain answer c' net' where d: "sdk_Do (cli_sdk demo_cli) (net_Do demo_net) (default_transport demo_net) None
      [resource_uri demo_flags] req ?c demo_fresh = (answer, c', net')" by (metis prod_cases3)
  obtain x net'' where m: "cli_main demo_parse demo_cli demo_net (\<lambda>_. []) [] demo_fresh = (x, net'')" by fastforce
  have "demo_parse (map (\<lambda>cmd. (cmd_Name cmd, cmd_Flags cmd)) (cli_commands (\<lambda>_. []) :: Sample CliCommand list)) []
      = (Inr (Some (5, demo_flags)), [])" by (simp add: demo_parse_def)
  moreover have "(5, ''GET'', [], \<lambda>_. None) \<in> set certificate_commands" by (simp add: certificate_commands_def)
  ultimately show ?thesis
    using cli_exit_code_ignores_status [OF _ _ req d m] m
    by (cases answer) (auto simp: demo_cli_def)
qed

end
