(* ===== verification/GoSha256_Vectors.thy ===== *)
theory GoSha256_Vectors
  imports GoSha256
begin

text \<open>
  The model of SHA-256 against a test vector of FIPS 180-4, computed by the simplifier.
\<close>

text \<open>Byte constants that occur in padded messages.\<close>

lemma char_of_small:
  "char_of (0 :: nat) = CHR 0x00" "char_of (24 :: nat) = CHR 0x18" "char_of (128 :: nat) = CHR 0x80"
  by code_simp+

text \<open>
  The standard's one-block example, the digest of \<open>abc\<close>, evaluated by the kernel: the padded
  block, its message schedule, the 64 rounds in four stages, and the digest.
\<close>

definition abc_block :: "w32 list" where
  "abc_block = [0x61626380, 0, 0, 0, 0, 0, 0, 0, 0, 0, 0, 0, 0, 0, 0, 24]"

definition abc_schedule :: "w32 list" where
  "abc_schedule = [
    0x61626380, 0x00000000, 0x00000000, 0x00000000, 0x00000000, 0x00000000, 0x00000000, 0x00000000,
    0x00000000, 0x00000000, 0x00000000, 0x00000000, 0x00000000, 0x00000000, 0x00000000, 0x00000018,
    0x61626380, 0x000f0000, 0x7da86405, 0x600003c6, 0x3e9d7b78, 0x0183fc00, 0x12dcbfdb, 0xe2e2c38e,
    0xc8215c1a, 0xb73679a2, 0xe5bc3909, 0x32663c5b, 0x9d209d67, 0xec8726cb, 0x702138a4, 0xd3b7973b,
    0x93f5997f, 0x3b68ba73, 0xaff4ffc1, 0xf10a5c62, 0x0a8b3996, 0x72af830a, 0x9409e33e, 0x24641522,
    0x9f47bf94, 0xf0a64f5a, 0x3e246a79, 0x27333ba3, 0x0c4763f2, 0x840abf27, 0x7a290d5d, 0x065c43da,
    0xfb3e89cb, 0xcc7617db, 0xb9e66c34, 0xa9993667, 0x84badedd, 0xc21462bc, 0x1487472c, 0xb20f7a99,
    0xef57b9cd, 0xebe6b238, 0x9fe3095e, 0x78bc8d4b, 0xa43fcf15, 0x668b2ff8, 0xeeaba2cc, 0x12b1edeb]"

lemma replicate_52:
  "replicate 52 c = [c, c, c, c, c, c, c, c, c, c, c, c, c, c, c, c, c, c, c, c, c, c, c, c, c, c,
     c, c, c, c, c, c, c, c, c, c, c, c, c, c, c, c, c, c, c, c, c, c, c, c, c, c]"
  by (simp add: eval_nat_numeral)

lemma abc_padded: "be_words (sha_pad ''abc'') = abc_block"
  by (simp add: sha_pad_def be_bytes_def upt_rec char_of_small replicate_52 abc_block_def)

lemma abc_scheduled: "sha_schedule 48 (rev abc_block) = abc_schedule"
  by code_simp

definition abc_regs1 :: sha_state where
  "abc_regs1 = Regs 0xb0fa238e 0xc0645fde 0xd932eb16 0x87912990
                    0x07590dcd 0x0b92f20c 0x745a48de 0x1e578218"

lemma abc_rounds1:
  "foldl sha_round sha_init (zip (take 16 (drop 0 sha_K)) (take 16 (drop 0 abc_schedule))) = abc_regs1"
  by code_simp

definition abc_regs2 :: sha_state where
  "abc_regs2 = Regs 0x73b33bf5 0xea992a22 0xa0060b30 0x363482c9
                    0xba591112 0x0109ab3a 0xade79437 0x6112a3b7"

lemma abc_rounds2:
  "foldl sha_round abc_regs1 (zip (take 16 (drop 16 sha_K)) (take 16 (drop 16 abc_schedule))) = abc_regs2"
  by code_simp

definition abc_regs3 :: sha_state where
  "abc_regs3 = Regs 0x4172328d 0xa14c14b0 0x72ab4b91 0x26628815
                    0xfecf0bc6 0xd57b94a9 0xb7755da1 0xa80f11f0"

lemma abc_rounds3:
  "foldl sha_round abc_regs2 (zip (take 16 (drop 32 sha_K)) (take 16 (drop 32 abc_schedule))) = abc_regs3"
  by code_simp

definition abc_regs4 :: sha_state where
  "abc_regs4 = Regs 0x506e3058 0xd39a2165 0x04d24d6c 0xb85e2ce9
                    0x5ef50f24 0xfb121210 0x948d25b6 0x961f4894"

lemma abc_rounds4:
  "foldl sha_round abc_regs3 (zip (take 16 (drop 48 sha_K)) (take 16 (drop 48 abc_schedule))) = abc_regs4"
  by code_simp

text \<open>A fold over two zipped lists of 64 elements, in four stages.\<close>

lemma four_stages:
  assumes "length zs = 64"
  shows "zs = take 16 (drop 0 zs) @ take 16 (drop 16 zs) @ take 16 (drop 32 zs) @ take 16 (drop 48 zs)"
proof -
  have "drop 48 zs = take 16 (drop 48 zs)" using assms by simp
  moreover have "drop 32 zs = take 16 (drop 32 zs) @ drop 48 zs"
    using append_take_drop_id [of 16 "drop 32 zs"] by simp
  moreover have "drop 16 zs = take 16 (drop 16 zs) @ drop 32 zs"
    using append_take_drop_id [of 16 "drop 16 zs"] by simp
  moreover have "zs = take 16 (drop 0 zs) @ drop 16 zs" by simp
  ultimately show ?thesis by metis
qed

lemma abc_rounds: "foldl sha_round sha_init (zip sha_K abc_schedule) = abc_regs4"
proof -
  have "length (zip sha_K abc_schedule) = 64"
    by (simp add: sha_K_def abc_schedule_def)
  from four_stages [OF this] have "foldl sha_round sha_init (zip sha_K abc_schedule)
      = foldl sha_round (foldl sha_round (foldl sha_round (foldl sha_round sha_init
          (take 16 (drop 0 (zip sha_K abc_schedule)))) (take 16 (drop 16 (zip sha_K abc_schedule))))
          (take 16 (drop 32 (zip sha_K abc_schedule)))) (take 16 (drop 48 (zip sha_K abc_schedule)))"
    by (metis foldl_append)
  also have "\<dots> = abc_regs4"
    by (simp only: take_zip drop_zip abc_rounds1 abc_rounds2 abc_rounds3 abc_rounds4)
  finally show ?thesis .
qed

lemma hex_digit_table:
  "map hex_digit [0, 1, 2, 3, 4, 5, 6, 7, 8, 9, 10, 11, 12, 13, 14, 15] = ''0123456789abcdef''"
  by code_simp

lemma abc_digest:
  "hex_encode (sha_digest (sha_add sha_init abc_regs4))
   = ''ba7816bf8f01cfea414140de5dae2223b00361a396177a9cb410ff61f20015ad''"
  using hex_digit_table
  by (simp add: sha_init_def abc_regs4_def word_bytes_def be_bytes_def upt_rec)

lemma Sum256_abc:
  "hex_encode (Sum256 ''abc'')
   = ''ba7816bf8f01cfea414140de5dae2223b00361a396177a9cb410ff61f20015ad''"
  by (simp add: Sum256_one_block sha_block_def abc_padded abc_scheduled abc_rounds abc_digest)

end
