(* ===== verification/Spec2Isabelle.thy ===== *)
theory Spec2Isabelle
  imports Service_Properties Service_Refinement Service_Linearizable Lifecycle Handler_Properties Middleware_Properties Sdk_Properties
    Sdk_Concurrency Sdk_Schedules Certificate_Properties Sample_Properties Response_Safety End_To_End
    Registration_End_To_End Cli_Properties GoSha256_Vectors
begin

text \<open>
  A verification development for an OAuth 2.0 client-credentials authorization server in Go, its
  client library, the sample server built with it, and its command line client.

  \<^bold>\<open>The program.\<close> \<open>pkg/oauth2\<close> is the authorization server: a service registers clients, issues
  opaque tokens for RFC 8707 resources, validates, introspects and revokes them, and keeps only the
  SHA-256 hash of a token in its store; gin handlers and middleware put it behind HTTP.
  \<open>pkg/oauth2/client\<close> is the client library: it fetches tokens, caches them per resource under a
  read-write lock, and wraps an HTTP transport that authorizes requests. \<open>sample-server\<close> protects an
  API for certificates and ACME HTTP-01 challenges with that middleware. \<open>cmd/oauth-cli\<close> drives all
  of it from the command line.

  \<^bold>\<open>Theories and what they model.\<close>
  \<^item> \<open>Prelude\<close>: strings and byte slices (both lists of bytes), rendered texts, error values with
    wrapping and \<open>errors.Is\<close>, \<open>io.Reader\<close> and \<open>io.ReadFull\<close>, clocks.
  \<^item> \<open>GoStrings\<close>, \<open>GoEncoding\<close>, \<open>GoSha256\<close>, \<open>GoTime\<close>, \<open>GoUrl\<close>, \<open>GoForm\<close>: what the source uses of the
    standard library: \<open>strings\<close>, hexadecimal and base64, SHA-256 on 32-bit words, times as integers
    of nanoseconds with durations as 64-bit words and the rounding of \<open>Duration.Seconds\<close>,
    \<open>url.Parse\<close>, forms. \<open>GoSha256_Vectors\<close> evaluates the hash on published vectors.
  \<^item> \<open>GoUtf8\<close>, \<open>GoDecimal\<close>, \<open>GoJson\<close>, \<open>GoRfc3339\<close>: the texts of \<open>encoding/json\<close> byte by byte (what is a
    valid string, the escapes of the encoder, one printer for \<open>Marshal\<close> and \<open>MarshalIndent\<close>, the
    reader with its limit on nesting) and times in RFC 3339 over the Gregorian calendar.
    \<open>GoJson_Correct\<close>: the reader's fuel is enough, and what was written reads back. \<open>Wire\<close>: the bytes
    of a handler's response.
  \<^item> \<open>OAuthTypes\<close> (\<open>types.go\<close>), \<open>OAuthStore\<close> (\<open>store.go\<close>, \<open>store_memory.go\<close>), \<open>Telemetry\<close>
    (\<open>telemetry.go\<close>), \<open>Service\<close> (\<open>service.go\<close>). A store is a record of operations on a state, its
    contract the locale \<open>oauth_store\<close>, interpreted for \<open>MemoryStore\<close>. A method takes the service and
    returns its result with the service after it: the store, the random reader, the clocks and the
    telemetry move, on every path, errors included. \<open>Service_Concurrency\<close> has the same methods as
    sequences of their accesses to what requests share (the store, the random reader, the clocks, the
    telemetry), and the requests of a server whose accesses interleave in any order.
  \<^item> \<open>Http\<close>, \<open>Handlers\<close> (\<open>handlers.go\<close>), \<open>Middleware\<close> (\<open>middleware.go\<close>): the gin context as a
    record; a handler takes it with the service; a middleware takes the handlers behind it.
  \<^item> \<open>SdkClient\<close> (\<open>client/client.go\<close>) and \<open>Transport\<close> (\<open>client/transport.go\<close>): the client over a
    network parameter that returns a status and bytes, with the encoding of its registration and the
    decoding of the responses from those bytes into the structs.
  \<^item> \<open>Certificate\<close> (\<open>sample-server/internal/certificate\<close>): data, store with the locale \<open>cert_store\<close>,
    and the four handlers; \<open>SampleServer\<close> (\<open>sample-server/main.go\<close>): routes, groups, access log and
    one request through the whole; \<open>Lifecycle\<close> (the rest of that file): listening, the signal, the
    graceful shutdown with its deadline, and the exit status, as steps of the process.
  \<^item> \<open>Cli\<close> (\<open>cmd/oauth-cli/main.go\<close>): the commands with their flags and actions, what they print of a
    JSON answer, and \<open>main\<close>.

  \<^bold>\<open>What the lemmas show.\<close>
  \<^item> \<open>Service_Correct\<close> and \<open>Service_Runs\<close>, inside \<open>oauth_store\<close>, so for any store that keeps the
    contract: the cases of each operation with its effect on the two views of the store, the
    invariant \<open>views_ok\<close>, and what runs of requests preserve. \<open>Service_Properties\<close> are the instances
    for \<open>MemoryStore\<close>. \<open>Service_Refinement\<close> gives an abstract authorization server (clients and
    grants, \<open>spec_step\<close>) and proves by forward simulation that every trace of the service is one of
    its traces. \<open>Service_Linearizable\<close> proves that concurrent requests are linearizable with respect
    to the same specification, that a revocation holds from the moment it has returned, and that a
    request alone is the call of its method.
  \<^item> \<open>Handler_Properties\<close> and \<open>Middleware_Properties\<close>: status, body and effect of every endpoint;
    which requests pass authentication, the resource check and the scope check.
  \<^item> \<open>Sdk_Properties\<close>: the cache, lifetimes, revocation, the transport. \<open>Sdk_Concurrency\<close> and
    \<open>Sdk_Schedules\<close>: concurrent calls of \<open>GetToken\<close> as interleaved atomic steps (reading the clock,
    the look under the read lock, the section under the write lock): one fetch while a token is
    fresh, linearizability, at most three steps per call, no call blocked for good.
  \<^item> \<open>Certificate_Properties\<close>: the cases of each handler over any store of the contract, the
    invariant \<open>cert_wf\<close>, progress of certificates, and what the handlers do not check.
  \<^item> \<open>Sample_Properties\<close>: a request to the sample server is at most one step of the service and one
    of the certificates, so both invariants hold in every reachable state; certificates are out of
    reach without the right token. \<open>Response_Safety\<close>: what the bytes of an answer can hold.
    \<open>Lifecycle\<close>: no request is lost by a shutdown in time, the exit status, and where requests
    are lost.
  \<^item> \<open>End_To_End\<close>: the client library with the server as its network: tokens, revocation, access to a
    certificate, and the responses through their JSON text. \<open>Registration_End_To_End\<close>: from a
    registration to a token. \<open>Cli_Properties\<close>: lists in flags, exit codes, and a command against the
    server, down to the text it prints.

  \<^bold>\<open>Parameters and hypotheses.\<close> Code outside the repository is an argument: bcrypt and the IP-literal
  rule of \<open>net/url\<close> (\<open>Lib\<close>), gin's binding of bodies (\<open>Gin\<close>, \<open>CertGin\<close>), its router, client address
  and the metrics page (\<open>SampleLib\<close>), the OpenTelemetry meter (\<open>Meter\<close>), the tables of printable
  characters and of time layouts in the standard library (\<open>SdkLib\<close>), the text of a number after its way
  through a \<open>float64\<close> (\<open>CliLib\<close>), the network (\<open>network\<close>, \<open>round_tripper\<close>), argument parsing (\<open>parse\<close> of
  \<open>cli_main\<close>). The theorems on registration assume that bcrypt accepts the password a hash was
  made from; the end-to-end theorems assume what gin documents of forms, JSON bodies and routes
  (\<open>forms_bound\<close>, \<open>registration_bound\<close>, \<open>routes_matched\<close>) and that the server's URL parses; their
  witnesses supply concrete functions.

  \<^bold>\<open>Bounds.\<close> The loops of the program are structural recursions or functions with a termination
  proof. Only the JSON reader has fuel, twice the length of its text, and \<open>json_parse_complete\<close> shows that
  any amount that finds a value finds the same. Lifetimes and \<open>expires_in\<close> are 64-bit words and wrap;
  times are unbounded integers, and \<open>time_Sub\<close> saturates at the ends of a \<open>Duration\<close> as Go's
  does; a time has a JSON text in the years 0 to 9999. A run of \<open>n\<close> concurrent \<open>GetToken\<close> calls has
  at most \<open>3 * n\<close> steps, a request of the service at most seven accesses, a shutdown lasts at most five
  seconds.

  \<^bold>\<open>Not modelled.\<close> \<open>internal/version\<close> holds three strings set at link time that no code reads. The
  sockets, timeouts and goroutines of \<open>net/http\<close> appear in \<open>Lifecycle\<close> only as the connections and
  requests they accept; gin's panic recovery is left out, as no handler panics. Handlers run one at
  a time except where a theory says otherwise (the service's requests, concurrent \<open>GetToken\<close>, the start
  of a challenge, whose lookup and writes are separate). Context cancellation, the tracer field that
  no code uses, the hook \<open>beforeWriteLock\<close> of the tests, the headers of responses beyond those the
  code sets, and the difference between a nil and an empty slice in the JSON of responses are left out.
\<close>

end
